(* ===== verification/Prelude.thy ===== *)
theory Prelude
  imports Complex_Main
begin

text \<open>
  Shared ground of the development: Python exceptions as values, the programs that
  thread a state and may raise (a raise keeps every mutation made before it, as in
  Python), their weakest-precondition rules, Python's \<open>round\<close> and \<open>int\<close> on floats,
  and the list lemmas that several components use.
\<close>

named_theorems prog_simps "equations that run a program one step"
named_theorems wp_simps "weakest-precondition equations"
named_theorems inv_intros "invariant preservation, one rule per operation"

section \<open>Exceptions and programs\<close>

datatype py_exc =
    DomainError string
  | DatabaseError string
  | IntegrityError string
  | ValueError string
  | ConfigError string
  | RpcError string string
  | KeyError string
  | TypeError string
  | AttributeError string
  | OverflowError string
  | RecursionError string

text \<open>
  A program over a state: it returns a value or raises, and in both cases leaves a
  state behind.
\<close>

type_synonym ('s, 'a) prog = "'s \<Rightarrow> (py_exc + 'a) \<times> 's"

definition ret :: "'a \<Rightarrow> ('s, 'a) prog" where
  "ret a = (\<lambda>s. (Inr a, s))"

definition raise :: "py_exc \<Rightarrow> ('s, 'a) prog" where
  "raise e = (\<lambda>s. (Inl e, s))"

definition gets :: "('s \<Rightarrow> 'a) \<Rightarrow> ('s, 'a) prog" where
  "gets f = (\<lambda>s. (Inr (f s), s))"

definition modify :: "('s \<Rightarrow> 's) \<Rightarrow> ('s, unit) prog" where
  "modify f = (\<lambda>s. (Inr (), f s))"

definition bindP :: "('s, 'a) prog \<Rightarrow> ('a \<Rightarrow> ('s, 'b) prog) \<Rightarrow> ('s, 'b) prog" where
  "bindP m f = (\<lambda>s. case m s of (Inl e, s') \<Rightarrow> (Inl e, s') | (Inr a, s') \<Rightarrow> f a s')"

definition thenP :: "('s, 'a) prog \<Rightarrow> ('s, 'b) prog \<Rightarrow> ('s, 'b) prog" where
  "thenP m n = bindP m (\<lambda>_. n)"

definition whenP :: "bool \<Rightarrow> ('s, unit) prog \<Rightarrow> ('s, unit) prog" where
  "whenP b m = (if b then m else ret ())"

declare whenP_def [code_unfold]

text \<open>\<open>guardP b e\<close> is \<open>if b: raise e\<close>.\<close>

definition guardP :: "bool \<Rightarrow> py_exc \<Rightarrow> ('s, unit) prog" where
  "guardP b e = (if b then raise e else ret ())"

text \<open>\<open>m\<close> with \<open>except\<close>: the handler runs in the state the raise left.\<close>

definition catchP :: "('s, 'a) prog \<Rightarrow> (py_exc \<Rightarrow> ('s, 'a) prog) \<Rightarrow> ('s, 'a) prog" where
  "catchP m h = (\<lambda>s. case m s of (Inl e, s') \<Rightarrow> h e s' | (Inr a, s') \<Rightarrow> (Inr a, s'))"

fun mapP :: "('a \<Rightarrow> ('s, 'b) prog) \<Rightarrow> 'a list \<Rightarrow> ('s, 'b list) prog" where
  "mapP f [] = ret []"
| "mapP f (x # xs) = bindP (f x) (\<lambda>y. bindP (mapP f xs) (\<lambda>ys. ret (y # ys)))"

text \<open>The value of a fallible function, or its exception.\<close>

definition liftP :: "py_exc + 'a \<Rightarrow> ('s, 'a) prog" where
  "liftP r = (case r of Inl e \<Rightarrow> raise e | Inr a \<Rightarrow> ret a)"

text \<open>\<open>[x for x in xs if f(x)]\<close> where the test changes the state.\<close>

fun filterP :: "('a \<Rightarrow> ('s, bool) prog) \<Rightarrow> 'a list \<Rightarrow> ('s, 'a list) prog" where
  "filterP f [] = ret []"
| "filterP f (x # xs) = bindP (f x) (\<lambda>b. bindP (filterP f xs) (\<lambda>ys. ret (if b then x # ys else ys)))"

lemma liftP_Inl [simp]: "liftP (Inl e) = raise e"
  by (simp add: liftP_def)

lemma liftP_Inr [simp]: "liftP (Inr a) = ret a"
  by (simp add: liftP_def)

lemma ret_run [prog_simps, simp]: "ret a s = (Inr a, s)"
  by (simp add: ret_def)

lemma raise_run [prog_simps, simp]: "raise e s = (Inl e, s)"
  by (simp add: raise_def)

lemma gets_run [prog_simps, simp]: "gets f s = (Inr (f s), s)"
  by (simp add: gets_def)

lemma modify_run [prog_simps, simp]: "modify f s = (Inr (), f s)"
  by (simp add: modify_def)

lemma bindP_run [prog_simps]:
  "bindP m f s = (case m s of (Inl e, s') \<Rightarrow> (Inl e, s') | (Inr a, s') \<Rightarrow> f a s')"
  by (simp add: bindP_def)

lemma thenP_run [prog_simps]:
  "thenP m n s = (case m s of (Inl e, s') \<Rightarrow> (Inl e, s') | (Inr a, s') \<Rightarrow> n s')"
  by (simp add: thenP_def bindP_def)

lemma whenP_run [prog_simps]: "whenP b m s = (if b then m s else (Inr (), s))"
  by (simp add: whenP_def)

lemma guardP_run [prog_simps]: "guardP b e s = (if b then (Inl e, s) else (Inr (), s))"
  by (simp add: guardP_def)

lemma catchP_run [prog_simps]:
  "catchP m h s = (case m s of (Inl e, s') \<Rightarrow> h e s' | (Inr a, s') \<Rightarrow> (Inr a, s'))"
  by (simp add: catchP_def)

section \<open>Weakest preconditions\<close>

definition wp :: "('s, 'a) prog \<Rightarrow> ('a \<Rightarrow> 's \<Rightarrow> bool) \<Rightarrow> (py_exc \<Rightarrow> 's \<Rightarrow> bool) \<Rightarrow> 's \<Rightarrow> bool" where
  "wp m Q E s = (case m s of (Inl e, s') \<Rightarrow> E e s' | (Inr a, s') \<Rightarrow> Q a s')"

lemma wp_ret [wp_simps, simp]: "wp (ret a) Q E = Q a"
  by (simp add: wp_def fun_eq_iff)

lemma wp_raise [wp_simps, simp]: "wp (raise e) Q E = E e"
  by (simp add: wp_def fun_eq_iff)

lemma wp_gets [wp_simps, simp]: "wp (gets f) Q E = (\<lambda>s. Q (f s) s)"
  by (simp add: wp_def fun_eq_iff)

lemma wp_modify [wp_simps, simp]: "wp (modify f) Q E = (\<lambda>s. Q () (f s))"
  by (simp add: wp_def fun_eq_iff)

lemma wp_bindP [wp_simps, simp]: "wp (bindP m f) Q E = wp m (\<lambda>a. wp (f a) Q E) E"
  by (auto simp: wp_def bindP_def fun_eq_iff split: prod.splits sum.splits)

lemma wp_thenP [wp_simps, simp]: "wp (thenP m n) Q E = wp m (\<lambda>_. wp n Q E) E"
  by (simp add: thenP_def)

lemma wp_whenP [wp_simps, simp]: "wp (whenP b m) Q E = (\<lambda>s. if b then wp m Q E s else Q () s)"
  by (simp add: whenP_def)

lemma wp_guardP [wp_simps, simp]: "wp (guardP b e) Q E = (\<lambda>s. if b then E e s else Q () s)"
  by (simp add: guardP_def)

lemma wp_if [wp_simps]: "wp (if b then m else n) Q E s = (if b then wp m Q E s else wp n Q E s)"
  by simp

lemma wp_catchP [wp_simps, simp]: "wp (catchP m h) Q E = wp m Q (\<lambda>e. wp (h e) Q E)"
  by (auto simp: wp_def catchP_def fun_eq_iff split: prod.splits sum.splits)

lemma wp_mono:
  assumes "wp m Q E s" and "\<And>a s'. Q a s' \<Longrightarrow> Q' a s'" and "\<And>e s'. E e s' \<Longrightarrow> E' e s'"
  shows "wp m Q' E' s"
  using assms by (auto simp: wp_def split: prod.splits sum.splits)

lemma wp_conj:
  "wp m Q E s \<Longrightarrow> wp m Q' E' s \<Longrightarrow> wp m (\<lambda>a t. Q a t \<and> Q' a t) (\<lambda>e t. E e t \<and> E' e t) s"
  by (auto simp: wp_def split: prod.splits sum.splits)

lemma wp_bindI: "wp m P E s \<Longrightarrow> (\<And>a t. P a t \<Longrightarrow> wp (f a) Q E t) \<Longrightarrow> wp (bindP m f) Q E s"
  unfolding wp_bindP by (rule wp_mono)

lemma wp_thenI: "wp m P E s \<Longrightarrow> (\<And>a t. P a t \<Longrightarrow> wp n Q E t) \<Longrightarrow> wp (thenP m n) Q E s"
  unfolding wp_thenP by (rule wp_mono)

text \<open>A program that never raises from \<open>s\<close>, as an equation.\<close>

lemma wp_returns:
  assumes "wp m Q (\<lambda>_ _. False) s"
  shows "\<exists>a t. m s = (Inr a, t) \<and> Q a t"
  using assms by (auto simp: wp_def split: prod.splits sum.splits)

lemma wp_returnsI: "m s = (Inr a, t) \<Longrightarrow> Q a t \<Longrightarrow> wp m Q E s"
  by (simp add: wp_def)

section \<open>Programs that keep a predicate\<close>

text \<open>\<open>holds I m\<close>: \<open>m\<close> leads from \<open>I\<close> to \<open>I\<close>, whether it returns or raises.\<close>

definition holds :: "('s \<Rightarrow> bool) \<Rightarrow> ('s, 'a) prog \<Rightarrow> bool" where
  "holds I m = (\<forall>s. I s \<longrightarrow> wp m (\<lambda>_. I) (\<lambda>_. I) s)"

lemma holdsI: "(\<And>s. I s \<Longrightarrow> wp m (\<lambda>_. I) (\<lambda>_. I) s) \<Longrightarrow> holds I m"
  by (simp add: holds_def)

lemma holdsD: "holds I m \<Longrightarrow> I s \<Longrightarrow> wp m (\<lambda>_. I) (\<lambda>_. I) s"
  by (simp add: holds_def)

lemma holds_ret [inv_intros]: "holds I (ret a)"
  by (simp add: holds_def)

lemma holds_raise [inv_intros]: "holds I (raise e)"
  by (simp add: holds_def)

lemma holds_gets [inv_intros]: "holds I (gets f)"
  by (simp add: holds_def)

lemma holds_liftP [inv_intros]: "holds I (liftP r)"
  by (cases r) (simp_all add: holds_def)

lemma holds_bindP [inv_intros]: "holds I m \<Longrightarrow> (\<And>a. holds I (f a)) \<Longrightarrow> holds I (bindP m f)"
  unfolding holds_def wp_bindP by (blast intro: wp_mono)

lemma holds_thenP [inv_intros]: "holds I m \<Longrightarrow> holds I n \<Longrightarrow> holds I (thenP m n)"
  unfolding thenP_def by (rule holds_bindP)

lemma holds_whenP [inv_intros]: "(b \<Longrightarrow> holds I m) \<Longrightarrow> holds I (whenP b m)"
  by (simp add: whenP_def holds_ret)

lemma holds_guardP [inv_intros]: "holds I (guardP b e)"
  by (simp add: guardP_def holds_ret holds_raise)

lemma holds_if [inv_intros]: "(b \<Longrightarrow> holds I m) \<Longrightarrow> (\<not> b \<Longrightarrow> holds I n) \<Longrightarrow> holds I (if b then m else n)"
  by simp

lemma holds_option [inv_intros]:
  "(y = None \<Longrightarrow> holds I m) \<Longrightarrow> (\<And>a. y = Some a \<Longrightarrow> holds I (f a)) \<Longrightarrow> holds I (case y of None \<Rightarrow> m | Some a \<Rightarrow> f a)"
  by (cases y) simp_all

lemma holds_prod [inv_intros]: "(\<And>a b. y = (a, b) \<Longrightarrow> holds I (f a b)) \<Longrightarrow> holds I (case y of (a, b) \<Rightarrow> f a b)"
  by (cases y) simp

lemma holds_mapP [inv_intros]: "(\<And>a. holds I (f a)) \<Longrightarrow> holds I (mapP f xs)"
  by (induction xs) (auto intro: inv_intros)

lemma holds_filterP [inv_intros]: "(\<And>a. holds I (f a)) \<Longrightarrow> holds I (filterP f xs)"
  by (induction xs) (auto intro: inv_intros)

lemma holds_modify: "(\<And>s. I s \<Longrightarrow> I (f s)) \<Longrightarrow> holds I (modify f)"
  by (simp add: holds_def)

lemma holds_guard_then: "(\<not> b \<Longrightarrow> holds I m) \<Longrightarrow> holds I (thenP (guardP b e) m)"
  by (auto simp: holds_def intro: inv_intros)

lemma holds_post: "holds I m \<Longrightarrow> I s \<Longrightarrow> wp m (\<lambda>_. I) (\<lambda>_ _. True) s"
  by (rule wp_mono [OF holdsD]) simp_all

text \<open>What \<open>m\<close> keeps may be used after it.\<close>

lemma wp_holds:
  assumes "holds I m" and "I s" and "wp m Q E s"
  shows "wp m (\<lambda>a t. Q a t \<and> I t) (\<lambda>e t. E e t \<and> I t) s"
  using wp_conj [OF assms(3) holdsD [OF assms(1,2)]] .

text \<open>\<open>surely I m\<close>: from \<open>I\<close>, \<open>m\<close> does not raise, and leads to \<open>I\<close>.\<close>

definition surely :: "('s \<Rightarrow> bool) \<Rightarrow> ('s, 'a) prog \<Rightarrow> bool" where
  "surely I m = (\<forall>s. I s \<longrightarrow> wp m (\<lambda>_. I) (\<lambda>_ _. False) s)"

named_theorems sure_intros "programs that do not raise"

lemma surelyI: "(\<And>s. I s \<Longrightarrow> wp m (\<lambda>_. I) (\<lambda>_ _. False) s) \<Longrightarrow> surely I m"
  by (simp add: surely_def)

lemma surelyD: "surely I m \<Longrightarrow> I s \<Longrightarrow> wp m (\<lambda>_. I) (\<lambda>_ _. False) s"
  by (simp add: surely_def)

lemma surely_returns: "surely I m \<Longrightarrow> I s \<Longrightarrow> \<exists>a t. m s = (Inr a, t) \<and> I t"
  by (rule wp_returns) (rule surelyD)

lemma surely_ret [sure_intros]: "surely I (ret a)"
  by (simp add: surely_def)

lemma surely_gets [sure_intros]: "surely I (gets f)"
  by (simp add: surely_def)

lemma surely_modify: "(\<And>s. I s \<Longrightarrow> I (f s)) \<Longrightarrow> surely I (modify f)"
  by (simp add: surely_def)

lemma surely_bindP [sure_intros]: "surely I m \<Longrightarrow> (\<And>a. surely I (f a)) \<Longrightarrow> surely I (bindP m f)"
  unfolding surely_def wp_bindP by (blast intro: wp_mono)

lemma surely_thenP [sure_intros]: "surely I m \<Longrightarrow> surely I n \<Longrightarrow> surely I (thenP m n)"
  unfolding thenP_def by (rule surely_bindP)

lemma surely_whenP [sure_intros]: "(b \<Longrightarrow> surely I m) \<Longrightarrow> surely I (whenP b m)"
  by (simp add: whenP_def surely_ret)

lemma surely_if [sure_intros]: "(b \<Longrightarrow> surely I m) \<Longrightarrow> (\<not> b \<Longrightarrow> surely I n) \<Longrightarrow> surely I (if b then m else n)"
  by simp

lemma surely_option [sure_intros]:
  "(y = None \<Longrightarrow> surely I m) \<Longrightarrow> (\<And>a. y = Some a \<Longrightarrow> surely I (f a)) \<Longrightarrow>
     surely I (case y of None \<Rightarrow> m | Some a \<Rightarrow> f a)"
  by (cases y) simp_all

lemma surely_prod [sure_intros]: "(\<And>a b. y = (a, b) \<Longrightarrow> surely I (f a b)) \<Longrightarrow> surely I (case y of (a, b) \<Rightarrow> f a b)"
  by (cases y) simp

lemma surely_filterP [sure_intros]: "(\<And>a. surely I (f a)) \<Longrightarrow> surely I (filterP f xs)"
  by (induction xs) (auto intro: sure_intros)

section \<open>Numbers and text\<close>

text \<open>The truth test of a text that may be absent.\<close>

definition truthy :: "string option \<Rightarrow> bool" where
  "truthy x = (case x of None \<Rightarrow> False | Some s \<Rightarrow> s \<noteq> [])"

lemma truthy_simps [simp]: "\<not> truthy None" "truthy (Some s) = (s \<noteq> [])"
  by (simp_all add: truthy_def)

lemma truthy_Some: "truthy x \<longleftrightarrow> (\<exists>s. x = Some s \<and> s \<noteq> [])"
  by (auto simp: truthy_def split: option.splits)

text \<open>
  Python's \<open>round\<close> on a float rounds to the nearest integer, ties to the even one;
  \<open>int\<close> truncates towards zero.
\<close>

definition py_round :: "real \<Rightarrow> int" where
  "py_round x =
     (let f = \<lfloor>x\<rfloor>; d = x - real_of_int f
      in if d < 1 / 2 then f else if d > 1 / 2 then f + 1 else if even f then f else f + 1)"

definition py_trunc :: "real \<Rightarrow> int" where
  "py_trunc x = (if x < 0 then \<lceil>x\<rceil> else \<lfloor>x\<rfloor>)"

lemma py_round_of_int [simp]: "py_round (real_of_int k) = k"
  by (simp add: py_round_def)

lemma py_round_error: "\<bar>real_of_int (py_round x) - x\<bar> \<le> 1 / 2"
  unfolding py_round_def Let_def by (auto; linarith)

lemma py_round_nonneg: "0 \<le> x \<Longrightarrow> 0 \<le> py_round x"
  unfolding py_round_def Let_def by auto

lemma py_trunc_nonneg: "0 \<le> x \<Longrightarrow> 0 \<le> py_trunc x"
  by (simp add: py_trunc_def)

section \<open>Lists and association lists\<close>

text \<open>A dict that is updated in place keeps the position of an existing key.\<close>

fun alist_set :: "'k \<Rightarrow> 'v \<Rightarrow> ('k \<times> 'v) list \<Rightarrow> ('k \<times> 'v) list" where
  "alist_set k v [] = [(k, v)]"
| "alist_set k v ((k', v') # ps) = (if k' = k then (k, v) # ps else (k', v') # alist_set k v ps)"

lemma map_of_alist_set [simp]: "map_of (alist_set k v ps) = (map_of ps)(k \<mapsto> v)"
  by (induction k v ps rule: alist_set.induct) (auto simp: fun_eq_iff)

lemma keys_alist_set: "fst ` set (alist_set k v ps) = insert k (fst ` set ps)"
  by (induction k v ps rule: alist_set.induct) auto

lemma distinct_alist_set:
  "distinct (map fst ps) \<Longrightarrow> distinct (map fst (alist_set k v ps))"
proof (induction k v ps rule: alist_set.induct)
  case (2 k v k' v' ps)
  then show ?case
    using keys_alist_set [of k v ps] by auto
qed simp

lemma set_alist_set: "set (alist_set k v ps) \<subseteq> insert (k, v) (set ps)"
  by (induction k v ps rule: alist_set.induct) auto

lemma sum_list_nonneg_map:
  fixes f :: "'a \<Rightarrow> real"
  shows "(\<And>x. x \<in> set xs \<Longrightarrow> 0 \<le> f x) \<Longrightarrow> 0 \<le> sum_list (map f xs)"
  by (rule sum_list_nonneg) auto

lemma sum_list_filter_split:
  fixes f :: "'a \<Rightarrow> real"
  shows "sum_list (map f xs) = sum_list (map f (filter p xs)) + sum_list (map f (filter (\<lambda>x. \<not> p x) xs))"
  by (induction xs) auto

end
