(* ===== verification/PyStr.thy ===== *)
theory PyStr
  imports Prelude "HOL-Library.Char_ord" "HOL-Library.List_Lexorder"
begin

text \<open>
  The part of Python's \<open>str\<close> the daemon uses. A \<open>str\<close> is a list of \<open>char\<close>, read as
  the code points U+0000 to U+00FF (Latin-1), with Python's own answers on that range:
  \<open>isdigit\<close> accepts the superscripts two, three and one, \<open>isdecimal\<close> does not, and
  \<open>casefold\<close> turns the sharp s into two letters. The micro sign, whose case folding
  leaves the range, is kept as it is. String comparison is by code point, which is also
  SQLite's BINARY collation.
\<close>

abbreviation code :: "char \<Rightarrow> nat" where
  "code c \<equiv> of_char c"

section \<open>Character classes\<close>

definition ch_isspace :: "char \<Rightarrow> bool" where
  "ch_isspace c = (let n = code c in 9 \<le> n \<and> n \<le> 13 \<or> 28 \<le> n \<and> n \<le> 32 \<or> n = 133 \<or> n = 160)"

definition ch_isdecimal :: "char \<Rightarrow> bool" where
  "ch_isdecimal c = (let n = code c in 48 \<le> n \<and> n \<le> 57)"

definition ch_isdigit :: "char \<Rightarrow> bool" where
  "ch_isdigit c = (let n = code c in 48 \<le> n \<and> n \<le> 57 \<or> n = 178 \<or> n = 179 \<or> n = 185)"

definition str_isdigit :: "string \<Rightarrow> bool" where
  "str_isdigit s = (s \<noteq> [] \<and> list_all ch_isdigit s)"

definition str_isdecimal :: "string \<Rightarrow> bool" where
  "str_isdecimal s = (s \<noteq> [] \<and> list_all ch_isdecimal s)"

definition str_strip :: "string \<Rightarrow> string" where
  "str_strip s = rev (dropWhile ch_isspace (rev (dropWhile ch_isspace s)))"

definition ch_casefold :: "char \<Rightarrow> string" where
  "ch_casefold c =
     (let n = code c
      in if 65 \<le> n \<and> n \<le> 90 \<or> 192 \<le> n \<and> n \<le> 222 \<and> n \<noteq> 215 then [char_of (n + 32)]
         else if n = 223 then ''ss'' else [c])"

definition str_casefold :: "string \<Rightarrow> string" where
  "str_casefold s = concat (map ch_casefold s)"

definition ch_lower :: "char \<Rightarrow> char" where
  "ch_lower c =
     (let n = code c
      in if 65 \<le> n \<and> n \<le> 90 \<or> 192 \<le> n \<and> n \<le> 222 \<and> n \<noteq> 215 then char_of (n + 32) else c)"

definition str_lower :: "string \<Rightarrow> string" where
  "str_lower s = map ch_lower s"

lemma isdecimal_isdigit: "str_isdecimal s \<Longrightarrow> str_isdigit s"
  by (auto simp: str_isdecimal_def str_isdigit_def list_all_iff ch_isdecimal_def ch_isdigit_def Let_def)

lemma length_ch_casefold: "1 \<le> length (ch_casefold c) \<and> length (ch_casefold c) \<le> 2"
  by (simp add: ch_casefold_def Let_def)

lemma length_casefold: "length s \<le> length (str_casefold s) \<and> length (str_casefold s) \<le> 2 * length s"
proof (induction s)
  case (Cons c s)
  then show ?case
    using length_ch_casefold [of c] by (simp add: str_casefold_def)
qed (simp add: str_casefold_def)

section \<open>Decimal numerals\<close>

definition digit_ch :: "nat \<Rightarrow> char" where
  "digit_ch d = char_of (48 + d mod 10)"

definition digit_val :: "char \<Rightarrow> nat" where
  "digit_val c = code c - 48"

lemma code_digit_ch [simp]: "code (digit_ch d) = 48 + d mod 10"
proof -
  have "d mod 10 < 10" by simp
  then have "48 + d mod 10 < (256::nat)" by linarith
  then show ?thesis by (simp add: digit_ch_def)
qed

lemma digit_val_ch [simp]: "digit_val (digit_ch d) = d mod 10"
  by (simp add: digit_val_def)

lemma isdecimal_digit_ch [simp]: "ch_isdecimal (digit_ch d)"
proof -
  have "d mod 10 < 10" by simp
  then show ?thesis by (simp add: ch_isdecimal_def Let_def)
qed

lemma digit_ch_less: "digit_ch a < digit_ch b \<longleftrightarrow> a mod 10 < b mod 10"
  by (simp add: less_char_def)

lemma digit_ch_eq: "digit_ch a = digit_ch b \<longleftrightarrow> a mod 10 = b mod 10"
  by (metis code_digit_ch add_left_cancel digit_ch_def)

text \<open>\<open>str(n)\<close> for \<open>n \<ge> 0\<close>, and the fixed-width \<open>{n:0kd}\<close> of the date formats.\<close>

fun nat_str :: "nat \<Rightarrow> string" where
  "nat_str n = (if n < 10 then [digit_ch n] else nat_str (n div 10) @ [digit_ch n])"

declare nat_str.simps [simp del]

definition int_str :: "int \<Rightarrow> string" where
  "int_str i = (if i < 0 then ''-'' @ nat_str (nat (- i)) else nat_str (nat i))"

fun pad :: "nat \<Rightarrow> nat \<Rightarrow> string" where
  "pad 0 n = []"
| "pad (Suc k) n = pad k (n div 10) @ [digit_ch n]"

definition digits_val :: "string \<Rightarrow> nat" where
  "digits_val s = foldl (\<lambda>v c. 10 * v + digit_val c) 0 s"

lemma digits_val_snoc [simp]: "digits_val (s @ [c]) = 10 * digits_val s + digit_val c"
  by (simp add: digits_val_def)

lemma digits_val_Nil [simp]: "digits_val [] = 0"
  by (simp add: digits_val_def)

lemma length_pad [simp]: "length (pad k n) = k"
  by (induction k n rule: pad.induct) auto

lemma isdecimal_pad [simp]: "list_all ch_isdecimal (pad k n)"
  by (induction k n rule: pad.induct) auto

lemma digits_val_pad: "digits_val (pad k n) = n mod 10 ^ k"
proof (induction k n rule: pad.induct)
  case (2 k n)
  have "10 * (n div 10 mod 10 ^ k) + n mod 10 = n mod (10 * 10 ^ k)"
    by (simp add: mod_mult2_eq)
  with 2 show ?case by simp
qed simp

lemma nat_str_nonempty [simp]: "nat_str n \<noteq> []"
  by (subst nat_str.simps) simp

lemma isdecimal_nat_str: "list_all ch_isdecimal (nat_str n)"
proof (induction n rule: nat_str.induct)
  case (1 n)
  then show ?case
    by (subst nat_str.simps) auto
qed

lemma digits_val_nat_str: "digits_val (nat_str n) = n"
proof (induction n rule: nat_str.induct)
  case (1 n)
  show ?case
  proof (cases "n < 10")
    case True
    then show ?thesis
      using digits_val_snoc [of "[]" "digit_ch n"] by (subst nat_str.simps) simp
  next
    case False
    with 1 have "digits_val (nat_str (n div 10)) = n div 10" by simp
    with False show ?thesis by (subst nat_str.simps) simp
  qed
qed

lemma nat_str_inj: "nat_str m = nat_str n \<Longrightarrow> m = n"
  by (metis digits_val_nat_str)

section \<open>Comparison of strings built from fixed-width fields\<close>

lemma append_less_iff:
  fixes xs ys us vs :: string
  shows "length xs = length ys \<Longrightarrow> (xs @ us < ys @ vs) = (xs < ys \<or> xs = ys \<and> us < vs)"
  by (induction xs ys rule: list_induct2) auto

lemma pad_eq_iff: "m < 10 ^ k \<Longrightarrow> n < 10 ^ k \<Longrightarrow> pad k m = pad k n \<longleftrightarrow> m = n"
  by (metis digits_val_pad mod_less)

lemma lex_div_mod:
  fixes a b p q :: nat
  assumes "a < 10" "b < 10"
  shows "10 * p + a < 10 * q + b \<longleftrightarrow> p < q \<or> p = q \<and> a < b"
proof (cases p q rule: linorder_cases)
  case less
  then have "p + 1 \<le> q" by simp
  with assms less show ?thesis by linarith
next
  case greater
  then have "q + 1 \<le> p" by simp
  with assms greater show ?thesis by linarith
qed auto

lemma pad_less_iff: "m < 10 ^ k \<Longrightarrow> n < 10 ^ k \<Longrightarrow> pad k m < pad k n \<longleftrightarrow> m < n"
proof (induction k arbitrary: m n)
  case (Suc k)
  have lt: "m div 10 < 10 ^ k" "n div 10 < 10 ^ k"
    using Suc.prems by (metis less_mult_imp_div_less mult.commute power_Suc)+
  have "m < n \<longleftrightarrow> m div 10 < n div 10 \<or> m div 10 = n div 10 \<and> m mod 10 < n mod 10"
    using lex_div_mod [of "m mod 10" "n mod 10" "m div 10" "n div 10"] by simp
  then show ?case
    using Suc.IH [OF lt] pad_eq_iff [OF lt] by (simp add: append_less_iff digit_ch_less)
qed simp

section \<open>\<open>int(text)\<close>\<close>

text \<open>
  \<open>int\<close> strips white space, takes one sign, and digits that single underscores may
  separate; anything else raises \<open>ValueError\<close> (\<open>None\<close> here).
\<close>

fun int_digits :: "nat \<Rightarrow> string \<Rightarrow> nat option" where
  "int_digits v [] = Some v"
| "int_digits v (c # cs) =
     (if ch_isdecimal c then int_digits (10 * v + digit_val c) cs
      else if c = CHR ''_'' then
        (case cs of d # ds \<Rightarrow> if ch_isdecimal d then int_digits (10 * v + digit_val d) ds else None
         | [] \<Rightarrow> None)
      else None)"

definition int_unsigned :: "string \<Rightarrow> nat option" where
  "int_unsigned s =
     (case s of [] \<Rightarrow> None
      | c # cs \<Rightarrow> if ch_isdecimal c then int_digits (digit_val c) cs else None)"

definition py_int :: "string \<Rightarrow> int option" where
  "py_int text =
     (case str_strip text of
        [] \<Rightarrow> None
      | c # cs \<Rightarrow>
          if c = CHR ''-'' then map_option (\<lambda>n. - int n) (int_unsigned cs)
          else if c = CHR ''+'' then map_option int (int_unsigned cs)
          else map_option int (int_unsigned (c # cs)))"

lemma int_digits_decimal:
  "list_all ch_isdecimal s \<Longrightarrow> int_digits v s = Some (foldl (\<lambda>v c. 10 * v + digit_val c) v s)"
  by (induction s arbitrary: v) auto

lemma int_unsigned_decimal:
  "str_isdecimal s \<Longrightarrow> int_unsigned s = Some (digits_val s)"
  by (cases s) (auto simp: str_isdecimal_def int_unsigned_def int_digits_decimal digits_val_def)

lemma decimal_not_space: "ch_isdecimal c \<Longrightarrow> \<not> ch_isspace c"
  by (auto simp: ch_isdecimal_def ch_isspace_def Let_def)

lemma strip_nonspace: "\<not> ch_isspace (hd s) \<Longrightarrow> \<not> ch_isspace (last s) \<Longrightarrow> str_strip s = s"
  by (simp add: str_strip_def dropWhile_eq_self_iff [THEN iffD2] hd_rev)

lemma strip_decimal:
  assumes "str_isdecimal s"
  shows "str_strip s = s"
proof (rule strip_nonspace)
  from assms have "hd s \<in> set s" "last s \<in> set s" by (auto simp: str_isdecimal_def)
  with assms show "\<not> ch_isspace (hd s)" "\<not> ch_isspace (last s)"
    by (auto simp: str_isdecimal_def list_all_iff decimal_not_space)
qed

lemma decimal_not_sign: "ch_isdecimal c \<Longrightarrow> c \<noteq> CHR ''-'' \<and> c \<noteq> CHR ''+''"
  by (auto simp: ch_isdecimal_def Let_def)

lemma py_int_decimal: "str_isdecimal s \<Longrightarrow> py_int s = Some (int (digits_val s))"
  by (cases s)
    (auto simp: py_int_def strip_decimal int_unsigned_decimal str_isdecimal_def dest: decimal_not_sign)

lemma py_int_nat_str: "py_int (nat_str n) = Some (int n)"
  by (simp add: py_int_decimal str_isdecimal_def isdecimal_nat_str digits_val_nat_str)

lemma py_int_pad: "0 < k \<Longrightarrow> n < 10 ^ k \<Longrightarrow> py_int (pad k n) = Some (int n)"
  by (cases k) (auto simp: py_int_decimal str_isdecimal_def digits_val_pad simp del: pad.simps
    simp flip: length_greater_0_conv)

end
