(* ===== verification/Calendar.thy ===== *)
theory Calendar
  imports PyStr
begin

text \<open>
  What the daemon uses of Python's \<open>datetime\<close> and \<open>zoneinfo\<close>. A \<open>date\<close> is its
  proleptic ordinal (1 is 0001-01-01), so adding a \<open>timedelta\<close> of days is addition and
  \<open>weekday()\<close> is a remainder; \<open>isoformat\<close> and \<open>fromisoformat\<close> go through year, month
  and day. A \<open>datetime\<close> in UTC, and a naive local one, is a number of microseconds: the
  ordinal of its day times the length of a day, plus the time of day. A time zone is
  \<open>zoneinfo\<close>'s table of transitions. The lemmas: the calendar round trips, the ISO
  strings are ordered as the dates and instants they stand for, and a local time outside
  a daylight-saving gap survives the trip through UTC.
\<close>

type_synonym date = int
type_synonym instant = int

section \<open>Dates\<close>

definition is_leap :: "int \<Rightarrow> bool" where
  "is_leap y = (y mod 4 = 0 \<and> (y mod 100 \<noteq> 0 \<or> y mod 400 = 0))"

definition days_before_year :: "int \<Rightarrow> int" where
  "days_before_year y = (let p = y - 1 in p * 365 + p div 4 - p div 100 + p div 400)"

definition days_before_month :: "bool \<Rightarrow> int \<Rightarrow> int" where
  "days_before_month lp m =
     (let k = (if lp then 1 else 0)
      in if m \<le> 1 then 0 else if m = 2 then 31 else if m = 3 then 59 + k else if m = 4 then 90 + k
         else if m = 5 then 120 + k else if m = 6 then 151 + k else if m = 7 then 181 + k
         else if m = 8 then 212 + k else if m = 9 then 243 + k else if m = 10 then 273 + k
         else if m = 11 then 304 + k else if m = 12 then 334 + k else 365 + k)"

definition ymd2ord :: "int \<Rightarrow> int \<Rightarrow> int \<Rightarrow> date" where
  "ymd2ord y m d = days_before_year y + days_before_month (is_leap y) m + d"

definition valid_ymd :: "int \<Rightarrow> int \<Rightarrow> int \<Rightarrow> bool" where
  "valid_ymd y m d =
     (1 \<le> y \<and> y \<le> 9999 \<and> 1 \<le> m \<and> m \<le> 12 \<and> 1 \<le> d \<and>
      d \<le> days_before_month (is_leap y) (m + 1) - days_before_month (is_leap y) m)"

definition year_of :: "date \<Rightarrow> int" where
  "year_of n =
     (let n0 = n - 1; a = n0 div 146097; r1 = n0 mod 146097;
          b = min 3 (r1 div 36524); r2 = r1 - 36524 * b;
          c = r2 div 1461; r3 = r2 - 1461 * c; e = min 3 (r3 div 365)
      in 400 * a + 100 * b + 4 * c + e + 1)"

definition month_of :: "bool \<Rightarrow> int \<Rightarrow> int" where
  "month_of lp r =
     (let k = (if lp then 1 else 0)
      in if r < 31 then 1 else if r < 59 + k then 2 else if r < 90 + k then 3
         else if r < 120 + k then 4 else if r < 151 + k then 5 else if r < 181 + k then 6
         else if r < 212 + k then 7 else if r < 243 + k then 8 else if r < 273 + k then 9
         else if r < 304 + k then 10 else if r < 334 + k then 11 else 12)"

definition ord2ymd :: "date \<Rightarrow> int \<times> int \<times> int" where
  "ord2ymd n =
     (let y = year_of n; r = n - days_before_year y - 1; m = month_of (is_leap y) r
      in (y, m, r - days_before_month (is_leap y) m + 1))"

definition max_ordinal :: int where
  "max_ordinal = 3652059"

definition valid_date :: "date \<Rightarrow> bool" where
  "valid_date n = (1 \<le> n \<and> n \<le> max_ordinal)"

definition date_weekday :: "date \<Rightarrow> int" where
  "date_weekday n = (n + 6) mod 7"

lemma leap_year_parts:
  fixes a b c e :: int
  assumes "0 \<le> b" "b \<le> 3" "0 \<le> c" "c \<le> 24" "0 \<le> e" "e \<le> 3"
  shows "days_before_year (400 * a + 100 * b + 4 * c + e + 1) = 146097 * a + 36524 * b + 1461 * c + 365 * e"
    and "is_leap (400 * a + 100 * b + 4 * c + e + 1) \<longleftrightarrow> e = 3 \<and> (c \<noteq> 24 \<or> b = 3)"
proof -
  let ?p = "400 * a + 100 * b + 4 * c + e"
  have "?p div 4 = 100 * a + 25 * b + c" "?p div 100 = 4 * a + b" "?p div 400 = a"
    using assms by simp_all
  then show "days_before_year (?p + 1) = 146097 * a + 36524 * b + 1461 * c + 365 * e"
    by (simp add: days_before_year_def)
  have "?p + 1 = (e + 1) + 4 * (100 * a + 25 * b + c)"
    "?p + 1 = (4 * c + e + 1) + 100 * (4 * a + b)"
    "?p + 1 = (100 * b + 4 * c + e + 1) + 400 * a"
    by simp_all
  then have m: "(?p + 1) mod 4 = (e + 1) mod 4" "(?p + 1) mod 100 = (4 * c + e + 1) mod 100"
    "(?p + 1) mod 400 = (100 * b + 4 * c + e + 1) mod 400"
    by (metis mod_mult_self2)+
  show "is_leap (?p + 1) \<longleftrightarrow> e = 3 \<and> (c \<noteq> 24 \<or> b = 3)"
  proof (cases "e = 3")
    case True
    have "(4 * c + 4) mod 100 = 0 \<longleftrightarrow> c = 24"
      using assms by (cases "c = 24") simp_all
    moreover have "c = 24 \<Longrightarrow> (100 * b + 4 * c + 4) mod 400 = 0 \<longleftrightarrow> b = 3"
      using assms by (cases "b = 3") simp_all
    ultimately show ?thesis
      unfolding is_leap_def m using True by (auto simp: add.assoc)
  next
    case False
    then have "(e + 1) mod 4 \<noteq> 0" using assms by simp
    with False show ?thesis unfolding is_leap_def m by simp
  qed
qed

lemma div_bounds:
  fixes x k :: int
  assumes "0 < k"
  shows "k * (x div k) \<le> x" and "x < k * (x div k) + k"
  using assms pos_mod_bound [OF assms, of x] pos_mod_sign [OF assms, of x] mult_div_mod_eq [of k x]
  by linarith+

lemma year_of_bounds:
  "days_before_year (year_of n) < n
   \<and> n \<le> days_before_year (year_of n) + 365 + (if is_leap (year_of n) then 1 else 0)"
proof -
  define n0 where "n0 = n - 1"
  define a where "a = n0 div 146097"
  define r1 where "r1 = n0 mod 146097"
  define q1 where "q1 = r1 div 36524"
  define b where "b = min 3 q1"
  define r2 where "r2 = r1 - 36524 * b"
  define c where "c = r2 div 1461"
  define r3 where "r3 = r2 - 1461 * c"
  define q3 where "q3 = r3 div 365"
  define e where "e = min 3 q3"
  have y: "year_of n = 400 * a + 100 * b + 4 * c + e + 1"
    by (simp only: year_of_def Let_def n0_def a_def r1_def q1_def b_def r2_def c_def r3_def q3_def e_def)
  have n0: "n0 = 146097 * a + r1" by (simp add: a_def r1_def)
  have r1: "0 \<le> r1" "r1 < 146097" by (simp_all add: r1_def)
  have q1: "36524 * q1 \<le> r1" "r1 < 36524 * q1 + 36524"
    unfolding q1_def by (rule div_bounds; simp)+
  have b: "0 \<le> b" "b \<le> 3" and b3: "b = 3 \<or> b = q1 \<and> q1 < 3" and "b \<le> q1"
    using r1 q1 by (simp_all add: b_def min_def)
  have r2: "0 \<le> r2" "r2 \<le> 36524" "b \<noteq> 3 \<Longrightarrow> r2 < 36524"
    using r1 q1 b3 \<open>b \<le> q1\<close> by (auto simp: r2_def)
  have q2: "1461 * c \<le> r2" "r2 < 1461 * c + 1461"
    unfolding c_def by (rule div_bounds; simp)+
  then have c: "0 \<le> c" "c \<le> 24" using r2 by linarith+
  have r3: "0 \<le> r3" "r3 < 1461" using q2 by (simp_all add: r3_def)
  have q3: "365 * q3 \<le> r3" "r3 < 365 * q3 + 365"
    unfolding q3_def by (rule div_bounds; simp)+
  have e: "0 \<le> e" "e \<le> 3" and e3: "e = 3 \<or> e = q3 \<and> q3 < 3" and "e \<le> q3"
    using r3 q3 by (simp_all add: e_def min_def)
  have r4: "0 \<le> r3 - 365 * e" "r3 - 365 * e \<le> 365" "e \<noteq> 3 \<Longrightarrow> r3 - 365 * e < 365"
    using r3 q3 e3 \<open>e \<le> q3\<close> by auto
  have "b \<noteq> 3 \<Longrightarrow> c = 24 \<Longrightarrow> e = 3 \<Longrightarrow> r3 - 365 * e < 365"
    using r2 by (simp add: r3_def)
  with r4 have "r3 - 365 * e < 365 + (if is_leap (year_of n) then 1 else 0)"
    unfolding y leap_year_parts(2) [OF b c e] by (cases "e = 3") auto
  with r4 show ?thesis
    unfolding y leap_year_parts(1) [OF b c e] using n0 by (simp add: r3_def r2_def n0_def)
qed

lemma div_pred:
  fixes y k :: int
  assumes "0 < k"
  shows "y div k = (y - 1) div k + (if y mod k = 0 then 1 else 0)"
proof -
  let ?q = "(y - 1) div k" and ?r = "(y - 1) mod k"
  have r: "0 \<le> ?r" "?r < k" and y: "y = k * ?q + (?r + 1)"
    using assms by simp_all
  show ?thesis
  proof (cases "?r + 1 = k")
    case True
    then have "y = k * (?q + 1)" using y by (simp add: algebra_simps)
    then have "y div k = ?q + 1" "y mod k = 0"
      using assms by (metis less_irrefl nonzero_mult_div_cancel_left, metis mod_mult_self1_is_0)
    then show ?thesis by simp
  next
    case False
    then have "y div k = ?q" "y mod k = ?r + 1"
      using r by (auto intro: int_div_pos_eq [OF y] int_mod_pos_eq [OF y])
    with r show ?thesis by simp
  qed
qed

lemma leap_step:
  fixes y d4 d100 d400 e4 e100 e400 :: int
  assumes "e4 = d4 + (if y mod 4 = 0 then 1 else 0)"
    and "e100 = d100 + (if y mod 100 = 0 then 1 else 0)"
    and "e400 = d400 + (if y mod 400 = 0 then 1 else 0)"
  shows "e4 - e100 + e400 = d4 - d100 + d400 + (if is_leap y then 1 else 0)"
proof -
  have "y mod 400 = 0 \<Longrightarrow> y mod 100 = 0" "y mod 100 = 0 \<Longrightarrow> y mod 4 = 0"
    using dvd_trans [of 100 400 y] dvd_trans [of 4 100 y] by (simp_all add: dvd_eq_mod_eq_0)
  then show ?thesis
    unfolding assms is_leap_def by (cases "y mod 400 = 0"; cases "y mod 100 = 0"; cases "y mod 4 = 0") simp_all
qed

lemma year_sum_step:
  fixes y a b c a' b' c' l :: int
  shows "a - b + c = a' - b' + c' + l \<Longrightarrow> y * 365 + a - b + c = (y - 1) * 365 + a' - b' + c' + 365 + l"
  by simp

lemma days_before_year_Suc:
  "days_before_year (y + 1) = days_before_year y + 365 + (if is_leap y then 1 else 0)"
proof -
  have "y div 4 - y div 100 + y div 400 =
      (y - 1) div 4 - (y - 1) div 100 + (y - 1) div 400 + (if is_leap y then 1 else 0)"
    by (rule leap_step; rule div_pred; simp)
  then have "y * 365 + y div 4 - y div 100 + y div 400 =
      (y - 1) * 365 + (y - 1) div 4 - (y - 1) div 100 + (y - 1) div 400 + 365 + (if is_leap y then 1 else 0)"
    by (rule year_sum_step)
  then show ?thesis
    by (simp only: days_before_year_def Let_def add_diff_cancel_right')
qed

lemma days_before_year_mono: "y \<le> y' \<Longrightarrow> days_before_year y + 365 * (y' - y) \<le> days_before_year y'"
proof (induction y' rule: int_ge_induct)
  case (step i)
  then show ?case
    using days_before_year_Suc [of i] by (simp split: if_splits)
qed simp

lemma year_of_unique:
  assumes "days_before_year y < n" and "n \<le> days_before_year (y + 1)"
  shows "year_of n = y"
proof (rule ccontr)
  have b: "days_before_year (year_of n) < n" "n \<le> days_before_year (year_of n + 1)"
    using year_of_bounds [of n] by (simp_all add: days_before_year_Suc)
  assume "year_of n \<noteq> y"
  then consider "year_of n + 1 \<le> y" | "y + 1 \<le> year_of n" by linarith
  then show False
    using days_before_year_mono [of "year_of n + 1" y] days_before_year_mono [of "y + 1" "year_of n"] b assms
    by cases auto
qed

lemma month_of_bounds:
  assumes "0 \<le> r" and "r < 365 + (if lp then 1 else 0)"
  shows "1 \<le> month_of lp r" and "month_of lp r \<le> 12"
    and "days_before_month lp (month_of lp r) \<le> r" and "r < days_before_month lp (month_of lp r + 1)"
  using assms by (cases lp; simp add: month_of_def days_before_month_def)+

lemma twelve_months: "1 \<le> (m::int) \<Longrightarrow> m \<le> 12 \<Longrightarrow> m \<in> {1,2,3,4,5,6,7,8,9,10,11,12}"
  unfolding insert_iff empty_iff by presburger

lemma days_before_month_bounds:
  assumes "1 \<le> m" "m \<le> 12"
  shows "0 \<le> days_before_month lp m"
    and "days_before_month lp m < days_before_month lp (m + 1)"
    and "days_before_month lp (m + 1) \<le> 365 + (if lp then 1 else 0)"
  using twelve_months [OF assms] by (auto simp: days_before_month_def)

lemma days_before_month_mono:
  assumes "1 \<le> m" "m < m'" "m' \<le> 12"
  shows "days_before_month lp (m + 1) \<le> days_before_month lp m'"
proof -
  from assms(2) have "m + 1 \<le> m'" by simp
  then show ?thesis using assms(3)
  proof (induction m' rule: int_ge_induct)
    case (step i)
    then show ?case
      using days_before_month_bounds(2) [of i lp] assms(1) by simp
  qed simp
qed

lemma month_of_unique:
  assumes m: "1 \<le> m" "m \<le> 12" and r: "days_before_month lp m \<le> r" "r < days_before_month lp (m + 1)"
  shows "month_of lp r = m"
proof (rule ccontr)
  have "0 \<le> r" "r < 365 + (if lp then 1 else 0)"
    using days_before_month_bounds [OF m, of lp] r by linarith+
  note mb = month_of_bounds [OF this]
  assume "month_of lp r \<noteq> m"
  then consider "month_of lp r < m" | "m < month_of lp r" by linarith
  then show False
  proof cases
    case 1
    then show False using days_before_month_mono [of "month_of lp r" m lp] mb m r by simp
  next
    case 2
    then show False using days_before_month_mono [of m "month_of lp r" lp] mb m r by simp
  qed
qed

lemma ord2ymd_ymd2ord:
  assumes v: "valid_ymd y m d"
  shows "ord2ymd (ymd2ord y m d) = (y, m, d)"
proof -
  let ?lp = "is_leap y" and ?n = "ymd2ord y m d"
  have m: "1 \<le> m" "m \<le> 12" and d: "1 \<le> d" "d \<le> days_before_month ?lp (m + 1) - days_before_month ?lp m"
    using v by (simp_all add: valid_ymd_def)
  have y: "year_of ?n = y"
    using days_before_month_bounds [OF m, of ?lp] d
    by (intro year_of_unique) (auto simp: ymd2ord_def days_before_year_Suc)
  moreover have "month_of ?lp (?n - days_before_year y - 1) = m"
    using d m by (intro month_of_unique) (auto simp: ymd2ord_def)
  ultimately show ?thesis
    by (simp add: ord2ymd_def Let_def ymd2ord_def)
qed

lemma days_before_year_1 [simp]: "days_before_year 1 = 0"
  by (simp add: days_before_year_def)

lemma days_before_year_10000 [simp]: "days_before_year 10000 = 3652059"
  by (simp add: days_before_year_def)

lemma ord2ymd_valid:
  assumes "valid_date n" and o: "ord2ymd n = (y, m, d)"
  shows "valid_ymd y m d" and "ymd2ord y m d = n"
proof -
  let ?lp = "is_leap y" and ?r = "n - days_before_year y - 1"
  have y: "y = year_of n" and m: "m = month_of ?lp ?r" and d: "d = ?r - days_before_month ?lp m + 1"
    using o by (auto simp: ord2ymd_def Let_def)
  have n: "days_before_year y < n" "n \<le> days_before_year y + 365 + (if ?lp then 1 else 0)"
    using year_of_bounds [of n] by (simp_all add: y)
  then have r: "0 \<le> ?r" "?r < 365 + (if ?lp then 1 else 0)" by simp_all
  note mb = month_of_bounds [OF r, folded m]
  have "1 \<le> y"
  proof (rule ccontr)
    assume "\<not> 1 \<le> y"
    then have "days_before_year (y + 1) \<le> days_before_year 1"
      using days_before_year_mono [of "y + 1" 1] by simp
    with n assms(1) show False
      by (simp add: days_before_year_Suc valid_date_def)
  qed
  moreover have "y \<le> 9999"
  proof (rule ccontr)
    assume "\<not> y \<le> 9999"
    then have "days_before_year 10000 \<le> days_before_year y"
      using days_before_year_mono [of 10000 y] by simp
    with n assms(1) show False
      by (simp add: valid_date_def max_ordinal_def)
  qed
  ultimately show "valid_ymd y m d" and "ymd2ord y m d = n"
    using mb by (auto simp: valid_ymd_def d ymd2ord_def)
qed

text \<open>The order of ordinals is the lexicographic order of year, month and day.\<close>

lemma ymd_less:
  assumes "valid_ymd y m d" "valid_ymd y' m' d'"
  shows "ymd2ord y m d < ymd2ord y' m' d' \<longleftrightarrow> y < y' \<or> y = y' \<and> (m < m' \<or> m = m' \<and> d < d')"
proof -
  have *: "ymd2ord a b c < ymd2ord a' b' c'"
    if "valid_ymd a b c" "valid_ymd a' b' c'" "a < a' \<or> a = a' \<and> (b < b' \<or> b = b' \<and> c < c')"
    for a b c a' b' c'
  proof (cases "a < a'")
    case True
    then have "days_before_year (a + 1) \<le> days_before_year a'"
      using days_before_year_mono [of "a + 1" a'] by simp
    with that show ?thesis
      using days_before_month_bounds [of b "is_leap a"] days_before_month_bounds [of b' "is_leap a'"]
      by (simp add: valid_ymd_def ymd2ord_def days_before_year_Suc)
  next
    case False
    with that show ?thesis
      using days_before_month_mono [of b b' "is_leap a"] by (auto simp: valid_ymd_def ymd2ord_def)
  qed
  let ?L = "y < y' \<or> y = y' \<and> (m < m' \<or> m = m' \<and> d < d')"
  let ?G = "y' < y \<or> y' = y \<and> (m' < m \<or> m' = m \<and> d' < d)"
  consider ?L | ?G | "y = y' \<and> m = m' \<and> d = d'" by linarith
  then show ?thesis
  proof cases
    case 1
    then show ?thesis using *[OF assms] by blast
  next
    case 2
    then show ?thesis using *[OF assms(2,1)] by auto
  qed simp
qed

section \<open>ISO strings of dates\<close>

definition pad_int :: "nat \<Rightarrow> int \<Rightarrow> string" where
  "pad_int k i = pad k (nat i)"

definition date_isoformat :: "date \<Rightarrow> string" where
  "date_isoformat n =
     (case ord2ymd n of (y, m, d) \<Rightarrow> pad_int 4 y @ ''-'' @ pad_int 2 m @ ''-'' @ pad_int 2 d)"

definition field :: "nat \<Rightarrow> nat \<Rightarrow> string \<Rightarrow> int option" where
  "field from len s =
     (let f = take len (drop from s)
      in if length f = len \<and> list_all ch_isdecimal f then Some (int (digits_val f)) else None)"

definition date_of_ymd :: "int option \<Rightarrow> int option \<Rightarrow> int option \<Rightarrow> date option" where
  "date_of_ymd oy om od =
     (case (oy, om, od) of
        (Some y, Some m, Some d) \<Rightarrow> if valid_ymd y m d then Some (ymd2ord y m d) else None
      | _ \<Rightarrow> None)"

text \<open>The ISO week forms: week 1 holds the first Thursday, a year has 52 or 53 weeks.\<close>

definition iso_week_date :: "int option \<Rightarrow> int option \<Rightarrow> int option \<Rightarrow> date option" where
  "iso_week_date oy ow od =
     (case (oy, ow, od) of
        (Some y, Some w, Some d) \<Rightarrow>
          (let first = ymd2ord y 1 1; wd = date_weekday first;
               monday = first - wd + (if wd > 3 then 7 else 0);
               weeks = (if wd = 3 \<or> wd = 2 \<and> is_leap y then 53 else 52);
               n = monday + (w - 1) * 7 + d - 1
           in if 1 \<le> y \<and> 1 \<le> w \<and> w \<le> weeks \<and> 1 \<le> d \<and> d \<le> 7 \<and> valid_date n then Some n else None)
      | _ \<Rightarrow> None)"

definition date_fromisoformat :: "string \<Rightarrow> date option" where
  "date_fromisoformat s =
     (if length s = 10 \<and> s ! 4 = CHR ''-'' then
        (if s ! 5 = CHR ''W'' then
           (if s ! 8 = CHR ''-'' then iso_week_date (field 0 4 s) (field 6 2 s) (field 9 1 s) else None)
         else if s ! 7 = CHR ''-'' then date_of_ymd (field 0 4 s) (field 5 2 s) (field 8 2 s)
         else None)
      else if length s = 8 \<and> s ! 4 = CHR ''-'' then
        (if s ! 5 = CHR ''W'' then iso_week_date (field 0 4 s) (field 6 2 s) (Some 1) else None)
      else if length s = 8 then
        (if s ! 4 = CHR ''W'' then iso_week_date (field 0 4 s) (field 5 2 s) (field 7 1 s)
         else date_of_ymd (field 0 4 s) (field 4 2 s) (field 6 2 s))
      else if length s = 7 \<and> s ! 4 = CHR ''W'' then
        iso_week_date (field 0 4 s) (field 5 2 s) (Some 1)
      else None)"

lemma length_pad_int [simp]: "length (pad_int k i) = k"
  by (simp add: pad_int_def)

lemma pad_int_less_iff:
  "0 \<le> i \<Longrightarrow> i < 10 ^ k \<Longrightarrow> 0 \<le> j \<Longrightarrow> j < 10 ^ k \<Longrightarrow> pad_int k i < pad_int k j \<longleftrightarrow> i < j"
  unfolding pad_int_def by (subst pad_less_iff) (auto simp: nat_less_iff)

lemma pad_int_eq_iff:
  "0 \<le> i \<Longrightarrow> i < 10 ^ k \<Longrightarrow> 0 \<le> j \<Longrightarrow> j < 10 ^ k \<Longrightarrow> pad_int k i = pad_int k j \<longleftrightarrow> i = j"
  unfolding pad_int_def by (subst pad_eq_iff) (auto simp: nat_less_iff)

lemma month_days_le_31: "1 \<le> m \<Longrightarrow> m \<le> 12 \<Longrightarrow> days_before_month lp (m + 1) - days_before_month lp m \<le> 31"
  using twelve_months [of m] by (auto simp: days_before_month_def)

lemma valid_ymd_bounds: "valid_ymd y m d \<Longrightarrow> 1 \<le> y \<and> y < 10 ^ 4 \<and> 1 \<le> m \<and> m < 10 ^ 2 \<and> 1 \<le> d \<and> d < 10 ^ 2"
  using month_days_le_31 [of m "is_leap y"] by (auto simp: valid_ymd_def)

lemma field_pad:
  assumes "length a = from" "0 \<le> i" "i < 10 ^ k"
  shows "field from k (a @ pad_int k i @ b) = Some i"
proof -
  have "nat i < 10 ^ k" using assms(2,3) by (simp add: nat_less_iff)
  then show ?thesis
    using assms by (simp add: field_def pad_int_def digits_val_pad)
qed

lemma isdecimal_pad_int [simp]: "list_all ch_isdecimal (pad_int k i)"
  by (simp add: pad_int_def)

lemma pad_int_4: "\<exists>a b c d. pad_int 4 y = [a, b, c, d]"
proof -
  have "length (pad_int 4 y) = Suc (Suc (Suc (Suc 0)))" by simp
  then show ?thesis by (auto simp only: length_Suc_conv length_0_conv)
qed

lemma pad_int_2: "\<exists>a b. pad_int 2 y = [a, b] \<and> ch_isdecimal a"
proof -
  have "length (pad_int 2 y) = Suc (Suc 0)" by simp
  then obtain a b where "pad_int 2 y = [a, b]" by (auto simp only: length_Suc_conv length_0_conv)
  then show ?thesis using isdecimal_pad_int [of 2 y] by simp
qed

lemma decimal_not_W: "ch_isdecimal c \<Longrightarrow> c \<noteq> CHR ''W''"
  by (auto simp: ch_isdecimal_def Let_def)

lemma fromisoformat_fields:
  assumes "valid_ymd y m d"
  shows "date_fromisoformat (pad_int 4 y @ ''-'' @ pad_int 2 m @ ''-'' @ pad_int 2 d) = Some (ymd2ord y m d)"
    (is "date_fromisoformat ?s = _")
proof -
  note b = valid_ymd_bounds [OF assms]
  obtain a1 a2 a3 a4 b1 b2 c1 c2
    where p: "pad_int 4 y = [a1, a2, a3, a4]" "pad_int 2 m = [b1, b2]" "pad_int 2 d = [c1, c2]"
      and "ch_isdecimal b1"
    using pad_int_4 [of y] pad_int_2 [of m] pad_int_2 [of d] by blast
  then have "length ?s = 10" "?s ! 4 = CHR ''-''" "?s ! 5 \<noteq> CHR ''W''" "?s ! 7 = CHR ''-''"
    by (auto simp: decimal_not_W)
  moreover have "field 0 4 ?s = Some y" "field 5 2 ?s = Some m" "field 8 2 ?s = Some d"
    using b field_pad [of "[]" 0 y 4 "''-'' @ pad_int 2 m @ ''-'' @ pad_int 2 d"]
      field_pad [of "pad_int 4 y @ ''-''" 5 m 2 "''-'' @ pad_int 2 d"]
      field_pad [of "pad_int 4 y @ ''-'' @ pad_int 2 m @ ''-''" 8 d 2 "[]"]
    by simp_all
  ultimately show ?thesis
    using assms by (simp add: date_fromisoformat_def date_of_ymd_def)
qed

lemma date_iso_roundtrip: "valid_date n \<Longrightarrow> date_fromisoformat (date_isoformat n) = Some n"
  using fromisoformat_fields ord2ymd_valid
  by (cases "ord2ymd n") (auto simp del: append.simps simp: date_isoformat_def)

lemma length_date_isoformat [simp]: "length (date_isoformat n) = 10"
  by (simp add: date_isoformat_def split: prod.splits)

lemma date_isoformat_less:
  assumes "valid_date a" "valid_date b"
  shows "date_isoformat a < date_isoformat b \<longleftrightarrow> a < b"
proof -
  obtain y m d y' m' d' where o: "ord2ymd a = (y, m, d)" "ord2ymd b = (y', m', d')"
    by (metis prod_cases3)
  note v = ord2ymd_valid [OF assms(1) o(1)] ord2ymd_valid [OF assms(2) o(2)]
  note b = valid_ymd_bounds [OF v(1)] valid_ymd_bounds [OF v(3)]
  have "date_isoformat a < date_isoformat b \<longleftrightarrow> y < y' \<or> y = y' \<and> (m < m' \<or> m = m' \<and> d < d')"
    using b by (simp add: date_isoformat_def o append_less_iff pad_int_less_iff pad_int_eq_iff)
  also have "\<dots> \<longleftrightarrow> a < b"
    using ymd_less [OF v(1,3)] v(2,4) by simp
  finally show ?thesis .
qed

lemma date_isoformat_inj: "valid_date a \<Longrightarrow> valid_date b \<Longrightarrow> date_isoformat a = date_isoformat b \<Longrightarrow> a = b"
  by (metis date_iso_roundtrip option.inject)

section \<open>Instants\<close>

definition day_us :: int where
  "day_us = 86400000000"

definition date_of :: "instant \<Rightarrow> date" where
  "date_of i = i div day_us"

definition time_of :: "instant \<Rightarrow> int" where
  "time_of i = i mod day_us"

definition at_time :: "date \<Rightarrow> int \<Rightarrow> instant" where
  "at_time d t = d * day_us + t"

definition hour_of :: "instant \<Rightarrow> int" where
  "hour_of i = time_of i div 3600000000"

definition valid_instant :: "instant \<Rightarrow> bool" where
  "valid_instant i = valid_date (date_of i)"

text \<open>\<open>(a - b).total_seconds()\<close>, and \<open>timedelta(seconds=x)\<close>, which rounds to microseconds.\<close>

definition seconds_between :: "instant \<Rightarrow> instant \<Rightarrow> real" where
  "seconds_between a b = real_of_int (a - b) / 1000000"

definition timedelta_seconds :: "real \<Rightarrow> int" where
  "timedelta_seconds x = py_round (x * 1000000)"

definition time_isoformat :: "int \<Rightarrow> string" where
  "time_isoformat t =
     (let u = t mod 1000000; s = t div 1000000
      in pad_int 2 (s div 3600) @ '':'' @ pad_int 2 (s div 60 mod 60) @ '':'' @ pad_int 2 (s mod 60)
         @ (if u = 0 then [] else ''.'' @ pad_int 6 u))"

definition utc_iso :: "instant \<Rightarrow> string" where
  "utc_iso i = date_isoformat (date_of i) @ ''T'' @ time_isoformat (time_of i) @ ''+00:00''"

lemma day_us_pos [simp]: "0 < day_us"
  by (simp add: day_us_def)

lemma time_of_bounds: "0 \<le> time_of i" "time_of i < day_us"
  by (simp_all add: time_of_def)

lemma at_time_date_time [simp]: "at_time (date_of i) (time_of i) = i"
  by (simp add: at_time_def date_of_def time_of_def)

lemma date_of_at_time [simp]: "0 \<le> t \<Longrightarrow> t < day_us \<Longrightarrow> date_of (at_time d t) = d"
  by (simp add: at_time_def date_of_def div_add1_eq)

lemma time_of_at_time [simp]: "0 \<le> t \<Longrightarrow> t < day_us \<Longrightarrow> time_of (at_time d t) = t"
  by (simp add: at_time_def time_of_def)

lemma instant_less: "i < j \<longleftrightarrow> date_of i < date_of j \<or> date_of i = date_of j \<and> time_of i < time_of j"
proof -
  have eq: "i = date_of i * day_us + time_of i" "j = date_of j * day_us + time_of j"
    by (simp_all add: date_of_def time_of_def)
  consider "date_of i + 1 \<le> date_of j" | "date_of i = date_of j" | "date_of j + 1 \<le> date_of i"
    by linarith
  then show ?thesis
  proof cases
    case 1
    then have "(date_of i + 1) * day_us \<le> date_of j * day_us" by (simp add: mult_right_mono)
    with 1 eq time_of_bounds [of i] time_of_bounds [of j] show ?thesis by (simp add: algebra_simps)
  next
    case 2
    then show ?thesis using eq by auto
  next
    case 3
    then have "(date_of j + 1) * day_us \<le> date_of i * day_us" by (simp add: mult_right_mono)
    with 3 eq time_of_bounds [of i] time_of_bounds [of j] show ?thesis by (simp add: algebra_simps)
  qed
qed

text \<open>
  An ISO time with a fraction sorts after the same second without one, because the
  sign of the offset sorts before the decimal point.
\<close>

lemma fraction_less:
  assumes "0 \<le> u" "u < 10 ^ 6" "0 \<le> v" "v < 10 ^ 6"
  shows "(if u = 0 then [] else ''.'' @ pad_int 6 u) @ ''+00:00''
    < (if v = 0 then [] else ''.'' @ pad_int 6 v) @ ''+00:00'' \<longleftrightarrow> u < v"
  using assms by (auto simp: less_char_def append_less_iff pad_int_less_iff pad_int_eq_iff)

lemma time_fields_less:
  fixes t t' :: int
  shows "t < t' \<longleftrightarrow> (let s = t div 1000000; s' = t' div 1000000
     in s div 3600 < s' div 3600 \<or> s div 3600 = s' div 3600 \<and> (s div 60 mod 60 < s' div 60 mod 60
        \<or> s div 60 mod 60 = s' div 60 mod 60 \<and> (s mod 60 < s' mod 60
        \<or> s mod 60 = s' mod 60 \<and> t mod 1000000 < t' mod 1000000)))"
proof -
  have step: "x < y \<longleftrightarrow> x div k < y div k \<or> x div k = y div k \<and> x mod k < y mod k" if "0 < k" for x y k :: int
  proof (cases "x div k = y div k")
    case True
    then show ?thesis using mult_div_mod_eq [of k x] mult_div_mod_eq [of k y] by (metis add_less_cancel_left less_irrefl)
  next
    case False
    have "x div k < y div k \<Longrightarrow> x < y" "y div k < x div k \<Longrightarrow> y < x"
      using zdiv_mono1 [OF _ that] by (meson not_less)+
    with False show ?thesis by (metis linorder_neqE_linordered_idom not_less_iff_gr_or_eq)
  qed
  have eq: "x = y \<longleftrightarrow> x div k = y div k \<and> x mod k = y mod k" for x y k :: int
    by (metis mult_div_mod_eq)
  define s s' where "s = t div 1000000" and "s' = t' div 1000000"
  define m m' where "m = s div 60" and "m' = s' div 60"
  have h: "s div 3600 = m div 60" "s' div 3600 = m' div 60"
    by (simp_all add: m_def m'_def flip: zdiv_zmult2_eq)
  have "t < t' \<longleftrightarrow> s < s' \<or> s = s' \<and> t mod 1000000 < t' mod 1000000"
    unfolding s_def s'_def by (rule step) simp
  moreover have "s < s' \<longleftrightarrow> m < m' \<or> m = m' \<and> s mod 60 < s' mod 60"
    unfolding m_def m'_def by (rule step) simp
  moreover have "m < m' \<longleftrightarrow> m div 60 < m' div 60 \<or> m div 60 = m' div 60 \<and> m mod 60 < m' mod 60"
    by (rule step) simp
  moreover have "s = s' \<longleftrightarrow> m = m' \<and> s mod 60 = s' mod 60"
    unfolding m_def m'_def by (rule eq)
  moreover have "m = m' \<longleftrightarrow> m div 60 = m' div 60 \<and> m mod 60 = m' mod 60"
    by (rule eq)
  ultimately show ?thesis
    unfolding Let_def s_def [symmetric] s'_def [symmetric] m_def [symmetric] m'_def [symmetric] h
    by blast
qed

lemma time_field_bounds:
  assumes "0 \<le> t" "t < day_us"
  shows "0 \<le> t div 1000000 div 3600" "t div 1000000 div 3600 < 10 ^ 2"
proof -
  have "t div 1000000 < 86400"
    using assms by (simp add: day_us_def)
  then show "t div 1000000 div 3600 < 10 ^ 2" by simp
  show "0 \<le> t div 1000000 div 3600" using assms by (simp add: pos_imp_zdiv_nonneg_iff)
qed

lemma sixty_bounds: "0 \<le> x mod 60 \<and> x mod 60 < 10 ^ 2" for x :: int
  using pos_mod_bound [of 60 x] by simp

lemma time_isoformat_less:
  assumes "0 \<le> t" "t < day_us" "0 \<le> t'" "t' < day_us"
  shows "time_isoformat t @ ''+00:00'' < time_isoformat t' @ ''+00:00'' \<longleftrightarrow> t < t'"
proof -
  have f: "(if t mod 1000000 = 0 then [] else ''.'' @ pad_int 6 (t mod 1000000)) @ ''+00:00''
    < (if t' mod 1000000 = 0 then [] else ''.'' @ pad_int 6 (t' mod 1000000)) @ ''+00:00''
    \<longleftrightarrow> t mod 1000000 < t' mod 1000000"
    by (rule fraction_less) simp_all
  show ?thesis
    unfolding time_fields_less [of t t'] time_isoformat_def Let_def append.assoc
    using time_field_bounds [OF assms(1,2)] time_field_bounds [OF assms(3,4)]
    by (simp only: f append_less_iff length_pad_int pad_int_less_iff pad_int_eq_iff sixty_bounds
        length_append append_eq_append_conv list.size less_irrefl simp_thms)
qed

lemma utc_iso_less:
  assumes "valid_instant i" "valid_instant j"
  shows "utc_iso i < utc_iso j \<longleftrightarrow> i < j"
proof -
  have v: "valid_date (date_of i)" "valid_date (date_of j)"
    using assms by (simp_all add: valid_instant_def)
  have "utc_iso i < utc_iso j \<longleftrightarrow> date_of i < date_of j \<or> date_of i = date_of j
    \<and> time_isoformat (time_of i) @ ''+00:00'' < time_isoformat (time_of j) @ ''+00:00''"
    using date_isoformat_inj [OF v]
    by (auto simp: utc_iso_def append_less_iff date_isoformat_less [OF v])
  then show ?thesis
    by (simp add: time_isoformat_less time_of_bounds instant_less [of i j])
qed

lemma utc_iso_eq: "valid_instant i \<Longrightarrow> valid_instant j \<Longrightarrow> utc_iso i = utc_iso j \<longleftrightarrow> i = j"
  by (metis utc_iso_less less_irrefl linorder_neqE_linordered_idom)

section \<open>Time zones\<close>

text \<open>
  \<open>zoneinfo\<close> keeps the offset before the first transition and the list of transitions
  (the UTC instant and the offset, in seconds, from then on). From UTC it takes the last
  transition not after the instant, and sets \<open>fold\<close> while the clock repeats. From local
  time it compares with the transition in the later of the two local clocks when
  \<open>fold=0\<close>, so a time in a gap gets the offset of before the gap and an ambiguous time
  its first occurrence, and in the earlier of the two when \<open>fold=1\<close>.
\<close>

record zone =
  base_offset :: int
  transitions :: "(instant \<times> int) list"

definition utc_zone :: zone where
  "utc_zone = \<lparr>base_offset = 0, transitions = []\<rparr>"

fun offset_from_utc :: "int \<Rightarrow> (instant \<times> int) list \<Rightarrow> instant \<Rightarrow> int" where
  "offset_from_utc o1 [] u = o1"
| "offset_from_utc o1 ((t, o2) # ts) u = (if u < t then o1 else offset_from_utc o2 ts u)"

fun fold_from_utc :: "int \<Rightarrow> (instant \<times> int) list \<Rightarrow> instant \<Rightarrow> bool" where
  "fold_from_utc o1 [] u = False"
| "fold_from_utc o1 ((t, o2) # ts) u =
     (if u < t then False
      else if ts \<noteq> [] \<and> fst (hd ts) \<le> u then fold_from_utc o2 ts u
      else u - t < 1000000 * (o1 - o2))"

fun offset_from_local :: "bool \<Rightarrow> int \<Rightarrow> (instant \<times> int) list \<Rightarrow> instant \<Rightarrow> int" where
  "offset_from_local fd o1 [] w = o1"
| "offset_from_local fd o1 ((t, o2) # ts) w =
     (if w < t + 1000000 * (if fd then min o1 o2 else max o1 o2) then o1
      else offset_from_local fd o2 ts w)"

definition zone_offset :: "zone \<Rightarrow> instant \<Rightarrow> int" where
  "zone_offset z u = offset_from_utc (base_offset z) (transitions z) u"

text \<open>\<open>astimezone(zone)\<close>: the clock reading, and its \<open>fold\<close>.\<close>

definition to_local :: "zone \<Rightarrow> instant \<Rightarrow> instant" where
  "to_local z u = u + 1000000 * zone_offset z u"

definition local_fold :: "zone \<Rightarrow> instant \<Rightarrow> bool" where
  "local_fold z u = fold_from_utc (base_offset z) (transitions z) u"

text \<open>\<open>astimezone(UTC)\<close> of a local reading.\<close>

definition to_utc :: "zone \<Rightarrow> bool \<Rightarrow> instant \<Rightarrow> instant" where
  "to_utc z fd w = w - 1000000 * offset_from_local fd (base_offset z) (transitions z) w"

text \<open>
  Well-formed tables: increasing transitions, in UTC and on the local clocks, and offsets
  of less than a day.
\<close>

fun wf_transitions :: "int \<Rightarrow> (instant \<times> int) list \<Rightarrow> bool" where
  "wf_transitions o1 [] = True"
| "wf_transitions o1 ((t, o2) # ts) =
     ((case ts of [] \<Rightarrow> True
       | (t', o3) # _ \<Rightarrow> t < t' \<and> t + 1000000 * max o1 o2 < t' + 1000000 * min o2 o3)
      \<and> wf_transitions o2 ts)"

definition wf_zone :: "zone \<Rightarrow> bool" where
  "wf_zone z = (wf_transitions (base_offset z) (transitions z)
     \<and> \<bar>base_offset z\<bar> < 86400 \<and> list_all (\<lambda>(_, k). \<bar>k\<bar> < 86400) (transitions z))"

lemma offset_bound:
  "\<bar>o1\<bar> < B \<Longrightarrow> list_all (\<lambda>(_, k). \<bar>k\<bar> < B) ts \<Longrightarrow> \<bar>offset_from_utc o1 ts u\<bar> < B"
  by (induction o1 ts u rule: offset_from_utc.induct) auto

lemma zone_offset_bound: "wf_zone z \<Longrightarrow> \<bar>zone_offset z u\<bar> < 86400"
  by (simp add: wf_zone_def zone_offset_def offset_bound)

text \<open>After a transition the local clock never shows less than at the transition.\<close>

lemma local_after_transition:
  "wf_transitions o1 ((t, o2) # ts) \<Longrightarrow> t \<le> u \<Longrightarrow> t + 1000000 * o2 \<le> u + 1000000 * offset_from_utc o2 ts u"
proof (induction ts arbitrary: o1 t o2)
  case (Cons a ts)
  obtain t' o3 where a: "a = (t', o3)" by (cases a)
  show ?case
  proof (cases "u < t'")
    case False
    then have "t' + 1000000 * o3 \<le> u + 1000000 * offset_from_utc o3 ts u"
      using Cons.IH [of o2 t' o3] Cons.prems by (simp add: a)
    moreover have "t + 1000000 * max o1 o2 < t' + 1000000 * min o2 o3"
      using Cons.prems by (simp add: a)
    ultimately have "t + 1000000 * o2 \<le> u + 1000000 * offset_from_utc o3 ts u" by linarith
    with False show ?thesis by (simp add: a)
  qed (use Cons.prems in \<open>simp add: a\<close>)
qed simp

lemma local_roundtrip_aux:
  "wf_transitions o1 ts \<Longrightarrow>
   offset_from_local (fold_from_utc o1 ts u) o1 ts (u + 1000000 * offset_from_utc o1 ts u)
     = offset_from_utc o1 ts u"
proof (induction ts arbitrary: o1)
  case (Cons a ts)
  obtain t o2 where a: "a = (t, o2)" by (cases a)
  show ?case
  proof (cases "u < t")
    case True
    then have "u + 1000000 * o1 < t + 1000000 * max o1 o2" by linarith
    with True show ?thesis by (simp add: a)
  next
    case after: False
    show ?thesis
    proof (cases ts)
      case Nil
      with after show ?thesis by (auto simp: a)
    next
      case (Cons b ts')
      obtain t' o3 where b: "b = (t', o3)" by (cases b)
      have wf: "wf_transitions o2 ts" "t < t'" "t + 1000000 * max o1 o2 < t' + 1000000 * min o2 o3"
        using Cons.prems by (simp_all add: a b Cons)
      show ?thesis
      proof (cases "u < t'")
        case True
        with after wf show ?thesis by (auto simp: a b Cons)
      next
        case False
        then have "t' + 1000000 * o3 \<le> u + 1000000 * offset_from_utc o3 ts' u"
          using local_after_transition [of o2 t' o3 ts' u] wf by (simp add: b Cons)
        moreover have "offset_from_utc o2 ts u = offset_from_utc o3 ts' u"
          using False by (simp add: b Cons)
        ultimately have "t + 1000000 * max o1 o2 \<le> u + 1000000 * offset_from_utc o2 ts u"
          "t + 1000000 * min o1 o2 \<le> u + 1000000 * offset_from_utc o2 ts u"
          using wf(3) by linarith+
        moreover have "ts \<noteq> [] \<and> fst (hd ts) \<le> u" using False by (simp add: b Cons)
        ultimately show ?thesis
          using after Cons.IH [OF wf(1)] by (simp add: a)
      qed
    qed
  qed
qed simp

lemma local_roundtrip: "wf_zone z \<Longrightarrow> to_utc z (local_fold z u) (to_local z u) = u"
  by (simp add: to_utc_def to_local_def local_fold_def zone_offset_def local_roundtrip_aux wf_zone_def)

text \<open>
  With \<open>fold=0\<close>, a local reading that occurs at all goes to its first occurrence, whose
  reading it is.
\<close>

lemma first_occurrence_aux:
  "wf_transitions o1 ts \<Longrightarrow> w = u + 1000000 * offset_from_utc o1 ts u \<Longrightarrow>
   k = offset_from_local False o1 ts w \<Longrightarrow>
   offset_from_utc o1 ts (w - 1000000 * k) = k \<and> w - 1000000 * k \<le> u"
proof (induction ts arbitrary: o1)
  case (Cons a ts)
  obtain t o2 where a: "a = (t, o2)" by (cases a)
  show ?case
  proof (cases "u < t")
    case True
    then have "u + 1000000 * o1 < t + 1000000 * max o1 o2" by linarith
    with True Cons.prems show ?thesis by (simp add: a)
  next
    case after: False
    have low: "t + 1000000 * o2 \<le> w"
      using local_after_transition [of o1 t o2 ts u] after Cons.prems(1,2) by (simp add: a)
    have wf: "wf_transitions o2 ts" using Cons.prems(1) by (simp add: a)
    show ?thesis
    proof (cases "w < t + 1000000 * max o1 o2")
      case True
      with low have "o2 < o1" by (simp add: max_def split: if_splits)
      with True after Cons.prems(3) show ?thesis by (simp add: a)
    next
      case False
      with after Cons.prems have k: "k = offset_from_local False o2 ts w"
        and w: "w = u + 1000000 * offset_from_utc o2 ts u"
        by (simp_all add: a)
      note IH = Cons.IH [OF wf w k]
      have "t \<le> w - 1000000 * k"
      proof (rule ccontr)
        assume lt: "\<not> t \<le> w - 1000000 * k"
        have "offset_from_utc o2 ts (w - 1000000 * k) = o2"
          using Cons.prems(1) lt by (cases ts) (auto simp: a split: prod.splits)
        with IH have "k = o2" by simp
        with lt False show False by (simp add: max_def split: if_splits)
      qed
      with IH show ?thesis by (simp add: a)
    qed
  qed
qed simp

lemma first_occurrence:
  assumes "wf_zone z" and "to_local z u = w"
  shows "to_local z (to_utc z False w) = w" and "to_utc z False w \<le> u"
  using first_occurrence_aux [of "base_offset z" "transitions z" w u "offset_from_local False (base_offset z) (transitions z) w"] assms
  by (simp_all add: wf_zone_def to_local_def to_utc_def zone_offset_def)

end
