(* ===== verification/Models.thy ===== *)
theory Models
  imports Calendar
begin

text \<open>
  The values the components exchange (\<open>models.py\<close>), the deterministic clock of
  \<open>clock.py\<close>, JSON-like payloads, and the validated configuration as a typed record.
  The record's time zone is the one \<open>resolve_timezone\<close> returned for the configured name,
  and its clock times are the ones \<open>parse_hhmm\<close> returned, as microseconds of the day.
\<close>

section \<open>Payload values\<close>

datatype pyval =
    PNone
  | PBool bool
  | PInt int
  | PFloat real
  | PStr string
  | PList "pyval list"
  | PDict "(string \<times> pyval) list"

definition popt :: "('a \<Rightarrow> pyval) \<Rightarrow> 'a option \<Rightarrow> pyval" where
  "popt f x = (case x of None \<Rightarrow> PNone | Some a \<Rightarrow> f a)"

definition dict_get :: "string \<Rightarrow> pyval \<Rightarrow> pyval option" where
  "dict_get k v = (case v of PDict kvs \<Rightarrow> map_of kvs k | _ \<Rightarrow> None)"

section \<open>Timer, restriction and game\<close>

datatype timer_state = IDLE | RUNNING | PAUSED | EXPIRED

definition timer_state_value :: "timer_state \<Rightarrow> string" where
  "timer_state_value s =
     (case s of IDLE \<Rightarrow> ''idle'' | RUNNING \<Rightarrow> ''running'' | PAUSED \<Rightarrow> ''paused'' | EXPIRED \<Rightarrow> ''expired'')"

definition timer_state_of :: "string \<Rightarrow> timer_state option" where
  "timer_state_of v =
     (if v = ''idle'' then Some IDLE else if v = ''running'' then Some RUNNING
      else if v = ''paused'' then Some PAUSED else if v = ''expired'' then Some EXPIRED else None)"

lemma timer_state_of_value [simp]: "timer_state_of (timer_state_value s) = Some s"
  by (cases s) (simp_all add: timer_state_of_def timer_state_value_def)

datatype restriction_reason = NoReason | DailyLimit | TimerExpired | OutsideAllowedPeriod

definition reason_value :: "restriction_reason \<Rightarrow> string" where
  "reason_value r =
     (case r of NoReason \<Rightarrow> ''none'' | DailyLimit \<Rightarrow> ''daily_limit''
      | TimerExpired \<Rightarrow> ''timer_expired'' | OutsideAllowedPeriod \<Rightarrow> ''outside_allowed_period'')"

record game_identity =
  g_app_id :: "string option"
  g_name :: string
  g_source :: string
  g_pids :: "int list"
  g_confidence :: real
  g_instance_id :: "string option"

definition game_to_dict :: "game_identity \<Rightarrow> pyval" where
  "game_to_dict g = PDict
     [(''app_id'', popt PStr (g_app_id g)), (''name'', PStr (g_name g)),
      (''source'', PStr (g_source g)), (''pids'', PList (map PInt (g_pids g))),
      (''confidence'', PFloat (g_confidence g)), (''instance_id'', popt PStr (g_instance_id g))]"

record domain_event =
  e_kind :: string
  e_occurred_at :: instant
  e_payload :: pyval
  e_severity :: string

definition event_to_dict :: "domain_event \<Rightarrow> pyval" where
  "event_to_dict e = PDict
     [(''kind'', PStr (e_kind e)), (''occurred_at'', PStr (utc_iso (e_occurred_at e))),
      (''severity'', PStr (e_severity e)), (''payload'', e_payload e)]"

record timer_snapshot =
  t_state :: timer_state
  t_configured :: int
  t_remaining :: real
  t_action :: string
  t_generation :: "string option"
  t_started_at :: "string option"
  t_updated_at :: "string option"

definition idle_timer :: timer_snapshot where
  "idle_timer = \<lparr>t_state = IDLE, t_configured = 0, t_remaining = 0, t_action = ''inherit'',
     t_generation = None, t_started_at = None, t_updated_at = None\<rparr>"

definition timer_to_dict :: "timer_snapshot \<Rightarrow> pyval" where
  "timer_to_dict t = PDict
     [(''state'', PStr (timer_state_value (t_state t))),
      (''configured_seconds'', PInt (t_configured t)),
      (''remaining_seconds'', PInt (max 0 (py_round (t_remaining t)))),
      (''action'', PStr (t_action t)), (''generation'', popt PStr (t_generation t)),
      (''started_at'', popt PStr (t_started_at t)), (''updated_at'', popt PStr (t_updated_at t))]"

section \<open>The clock\<close>

record fake_clock =
  current_utc :: instant
  current_monotonic :: real

definition clock_advance :: "real \<Rightarrow> real option \<Rightarrow> fake_clock \<Rightarrow> fake_clock" where
  "clock_advance seconds wall_seconds c =
     c\<lparr>current_monotonic := current_monotonic c + seconds,
       current_utc := current_utc c
         + timedelta_seconds (case wall_seconds of None \<Rightarrow> seconds | Some w \<Rightarrow> w)\<rparr>"

definition clock_jump_wall :: "real \<Rightarrow> fake_clock \<Rightarrow> fake_clock" where
  "clock_jump_wall seconds c = c\<lparr>current_utc := current_utc c + timedelta_seconds seconds\<rparr>"

section \<open>Configuration\<close>

datatype weekday = Monday | Tuesday | Wednesday | Thursday | Friday | Saturday | Sunday

definition WEEKDAYS :: "weekday list" where
  "WEEKDAYS = [Monday, Tuesday, Wednesday, Thursday, Friday, Saturday, Sunday]"

definition weekday_at :: "int \<Rightarrow> weekday" where
  "weekday_at i = WEEKDAYS ! nat (i mod 7)"

record day_limit =
  dl_minutes :: int
  dl_unlimited :: bool

record allowed_period =
  ap_days :: "weekday list"
  ap_start :: int
  ap_end :: int

record config =
  c_schema_version :: int
  c_language :: string
  c_daily_enabled :: bool
  c_reset_at :: int
  c_timezone :: zone
  c_weekly :: "weekday \<Rightarrow> day_limit"
  c_allowed_periods :: "allowed_period list"
  c_threshold_minutes :: "int list"
  c_notify_at_exhaustion :: bool
  c_native_notifications :: bool
  c_count_only_while_playing :: bool
  c_default_action :: string
  c_level :: int
  c_grace_seconds :: int
  c_close_timeout_seconds :: int
  c_force_kill_enabled :: bool
  c_launch_grace_seconds :: int
  c_safe_process_fallback :: bool
  c_decky_signal_ttl_seconds :: int
  c_retention_days :: int
  c_checkpoint_seconds :: int

text \<open>What \<open>validate_config\<close> guarantees of the settings the engine reads.\<close>

definition wf_period :: "allowed_period \<Rightarrow> bool" where
  "wf_period p = (0 \<le> ap_start p \<and> ap_start p < day_us \<and> 0 \<le> ap_end p \<and> ap_end p < day_us
     \<and> 60000000 dvd ap_start p \<and> 60000000 dvd ap_end p)"

definition wf_config :: "config \<Rightarrow> bool" where
  "wf_config c =
     (wf_zone (c_timezone c) \<and> 0 \<le> c_reset_at c \<and> c_reset_at c < day_us
      \<and> (\<forall>d \<in> set WEEKDAYS. 0 \<le> dl_minutes (c_weekly c d) \<and> dl_minutes (c_weekly c d) \<le> 1440)
      \<and> list_all wf_period (c_allowed_periods c)
      \<and> list_all (\<lambda>m. 0 < m \<and> m \<le> 1440) (c_threshold_minutes c)
      \<and> 0 \<le> c_level c \<and> c_level c \<le> 3
      \<and> 1 \<le> c_retention_days c \<and> c_retention_days c \<le> 3650
      \<and> 5 \<le> c_checkpoint_seconds c \<and> c_checkpoint_seconds c \<le> 600)"

lemma weekday_in_WEEKDAYS [simp]: "d \<in> set WEEKDAYS"
  by (cases d) (simp_all add: WEEKDAYS_def)

end
