(* ===== verification/Schedule.thy ===== *)
theory Schedule
  imports Models
begin

text \<open>
  \<open>schedule.py\<close>: accounting days, the weekly limits, the time to the next reset and the
  allowed periods. The lemmas give closed forms: the accounting day is the calendar day of
  the local clock turned back by the reset time, and an instant is inside an allowed period
  exactly when a window that one of the listed days opened is still running.
\<close>

section \<open>Clock times\<close>

definition hex_digit :: "nat \<Rightarrow> char" where
  "hex_digit d = (if d < 10 then char_of (48 + d) else char_of (87 + d))"

definition repr_char :: "char \<Rightarrow> char \<Rightarrow> string" where
  "repr_char q c =
     (let n = code c
      in if c = q \<or> n = 92 then [char_of (92::nat), c]
         else if n = 10 then [char_of (92::nat), CHR ''n'']
         else if n = 13 then [char_of (92::nat), CHR ''r'']
         else if n = 9 then [char_of (92::nat), CHR ''t'']
         else if n < 32 \<or> 127 \<le> n \<and> n \<le> 160 \<or> n = 173
           then [char_of (92::nat), CHR ''x'', hex_digit (n div 16), hex_digit (n mod 16)]
         else [c])"

text \<open>\<open>{value!r}\<close>: single quotes, or double ones round a text that has only single quotes.\<close>

definition str_repr :: "string \<Rightarrow> string" where
  "str_repr s =
     (let q = (if CHR 0x27 \<in> set s \<and> CHR 0x22 \<notin> set s then CHR 0x22 else CHR 0x27)
      in [q] @ concat (map (repr_char q) s) @ [q])"

fun split_colon :: "string \<Rightarrow> (string \<times> string) option" where
  "split_colon [] = None"
| "split_colon (c # cs) =
     (if c = CHR '':'' then Some ([], cs)
      else map_option (\<lambda>(a, b). (c # a, b)) (split_colon cs))"

definition clock_time :: "int \<Rightarrow> int \<Rightarrow> int" where
  "clock_time h m = (h * 60 + m) * 60000000"

definition parse_hhmm :: "string \<Rightarrow> py_exc + int" where
  "parse_hhmm v =
     (let err = ValueError (''invalid HH:MM value: '' @ str_repr v)
      in case split_colon v of
           None \<Rightarrow> Inl err
         | Some (hour_text, minute_text) \<Rightarrow>
             (case (py_int hour_text, py_int minute_text) of
                (Some hour, Some minute) \<Rightarrow>
                  if 0 \<le> hour \<and> hour \<le> 23 \<and> 0 \<le> minute \<and> minute \<le> 59
                  then Inr (clock_time hour minute) else Inl err
              | _ \<Rightarrow> Inl err))"

lemma parse_hhmm_range:
  assumes "parse_hhmm v = Inr t"
  shows "0 \<le> t \<and> t < day_us \<and> 60000000 dvd t"
  using assms
  by (auto simp: parse_hhmm_def Let_def clock_time_def day_us_def split: option.splits prod.splits if_splits)

lemma split_colon_append: "CHR '':'' \<notin> set a \<Longrightarrow> split_colon (a @ '':'' @ b) = Some (a, b)"
  by (induction a) auto

lemma decimal_not_colon: "list_all ch_isdecimal s \<Longrightarrow> CHR '':'' \<notin> set s"
  by (auto simp: list_all_iff ch_isdecimal_def Let_def)

lemma py_int_pad_int: "0 < k \<Longrightarrow> 0 \<le> i \<Longrightarrow> i < 10 ^ k \<Longrightarrow> py_int (pad_int k i) = Some i"
  by (simp add: pad_int_def py_int_pad nat_less_iff)

lemma parse_hhmm_canonical:
  assumes "0 \<le> h" "h \<le> 23" "0 \<le> m" "m \<le> 59"
  shows "parse_hhmm (pad_int 2 h @ '':'' @ pad_int 2 m) = Inr (clock_time h m)"
  unfolding parse_hhmm_def split_colon_append [OF decimal_not_colon [OF isdecimal_pad_int]]
  using assms by (simp add: py_int_pad_int Let_def)

section \<open>Accounting days\<close>

definition accounting_day :: "zone \<Rightarrow> int \<Rightarrow> instant \<Rightarrow> date" where
  "accounting_day z reset now =
     (let local = to_local z now; day = date_of local
      in if time_of local < reset then day - 1 else day)"

definition accounting_day_key :: "zone \<Rightarrow> int \<Rightarrow> instant \<Rightarrow> string" where
  "accounting_day_key z reset now = date_isoformat (accounting_day z reset now)"

text \<open>
  The second conversion to UTC is of the local reading of \<open>utc_value\<close>, with the \<open>fold\<close>
  that reading has.
\<close>

definition accounting_day_start :: "zone \<Rightarrow> int \<Rightarrow> date \<Rightarrow> instant" where
  "accounting_day_start z reset day =
     (let utc_value = to_utc z False (at_time day reset);
          round_trip = to_local z utc_value
      in if date_of round_trip \<noteq> day \<or> time_of round_trip \<noteq> reset
         then to_utc z (local_fold z utc_value) round_trip else utc_value)"

definition limit_for_day :: "config \<Rightarrow> date \<Rightarrow> int option" where
  "limit_for_day c day =
     (let entry = c_weekly c (weekday_at (date_weekday day))
      in if dl_unlimited entry then None else Some (dl_minutes entry * 60))"

definition seconds_until_reset :: "zone \<Rightarrow> int \<Rightarrow> instant \<Rightarrow> int" where
  "seconds_until_reset z reset now =
     (let current_day = accounting_day z reset now;
          candidate = accounting_day_start z reset (current_day + 1)
      in max 0 (py_trunc (seconds_between candidate now)))"

definition period_allows :: "weekday \<Rightarrow> weekday \<Rightarrow> int \<Rightarrow> allowed_period \<Rightarrow> bool" where
  "period_allows weekday previous current p =
     (if ap_start p \<le> ap_end p
      then weekday \<in> set (ap_days p) \<and> ap_start p \<le> current \<and> current < ap_end p
      else weekday \<in> set (ap_days p) \<and> ap_start p \<le> current
         \<or> previous \<in> set (ap_days p) \<and> current < ap_end p)"

definition within_allowed_period :: "config \<Rightarrow> instant \<Rightarrow> bool" where
  "within_allowed_period c now =
     (if c_allowed_periods c = [] then True
      else let local = to_local (c_timezone c) now;
               weekday_index = date_weekday (date_of local);
               weekday = weekday_at weekday_index;
               previous_weekday = weekday_at ((weekday_index - 1) mod 7);
               current = time_of local div 60000000 * 60000000
           in list_ex (period_allows weekday previous_weekday current) (c_allowed_periods c))"

text \<open>The accounting day is the date of the local clock turned back by the reset time.\<close>

lemma accounting_day_eq:
  assumes "0 \<le> reset" "reset < day_us"
  shows "accounting_day z reset now = date_of (to_local z now - reset)"
proof -
  define l where "l = to_local z now"
  have l: "l = date_of l * day_us + time_of l" by (simp add: date_of_def time_of_def)
  show ?thesis
  proof (cases "time_of l < reset")
    case True
    have "l - reset = at_time (date_of l - 1) (time_of l - reset + day_us)"
      using l by (simp add: at_time_def algebra_simps)
    moreover have "0 \<le> time_of l - reset + day_us" "time_of l - reset + day_us < day_us"
      using True assms time_of_bounds [of l] by linarith+
    ultimately have "date_of (l - reset) = date_of l - 1" by simp
    with True show ?thesis by (simp add: accounting_day_def Let_def l_def)
  next
    case False
    have "l - reset = at_time (date_of l) (time_of l - reset)"
      using l by (simp add: at_time_def)
    moreover have "0 \<le> time_of l - reset" "time_of l - reset < day_us"
      using False assms time_of_bounds [of l] by linarith+
    ultimately have "date_of (l - reset) = date_of l" by simp
    with False show ?thesis by (simp add: accounting_day_def Let_def l_def)
  qed
qed

lemma accounting_day_start_eq:
  "wf_zone z \<Longrightarrow> accounting_day_start z reset day = to_utc z False (at_time day reset)"
  by (simp add: accounting_day_start_def Let_def local_roundtrip)

text \<open>
  When the reset reading occurs on that day, the computed start shows it, belongs to the
  day, and is the first instant to show it.
\<close>

lemma accounting_day_start_shown:
  assumes "wf_zone z" "0 \<le> reset" "reset < day_us" and "to_local z u = at_time day reset"
  shows "to_local z (accounting_day_start z reset day) = at_time day reset"
    and "accounting_day z reset (accounting_day_start z reset day) = day"
    and "accounting_day_start z reset day \<le> u"
proof -
  show l: "to_local z (accounting_day_start z reset day) = at_time day reset"
    and "accounting_day_start z reset day \<le> u"
    using first_occurrence [OF assms(1,4)] by (simp_all add: accounting_day_start_eq assms(1))
  show "accounting_day z reset (accounting_day_start z reset day) = day"
    using l assms(2,3) by (simp add: accounting_day_def Let_def)
qed

section \<open>Allowed periods\<close>

text \<open>
  The specification: a window opens at \<open>ap_start\<close> on every day listed, and stays open
  until the next \<open>ap_end\<close>.
\<close>

definition window_open :: "allowed_period \<Rightarrow> date \<Rightarrow> instant \<Rightarrow> bool" where
  "window_open p day local =
     (weekday_at (date_weekday day) \<in> set (ap_days p)
      \<and> at_time day (ap_start p) \<le> local
      \<and> local < at_time day (ap_start p) + (ap_end p - ap_start p) mod day_us)"

lemma minute_floor_le:
  fixes t b :: int
  assumes "60000000 dvd b"
  shows "b \<le> t div 60000000 * 60000000 \<longleftrightarrow> b \<le> t"
    and "t div 60000000 * 60000000 < b \<longleftrightarrow> t < b"
proof -
  obtain k where b: "b = 60000000 * k" using assms by auto
  define q where "q = t div 60000000"
  have q: "60000000 * q \<le> t" "t < 60000000 * q + 60000000"
    unfolding q_def by (rule div_bounds; simp)+
  have "k \<le> q \<longleftrightarrow> b \<le> t"
    unfolding b using q by (cases "k \<le> q") auto
  then show 1: "b \<le> t div 60000000 * 60000000 \<longleftrightarrow> b \<le> t"
    unfolding q_def [symmetric] by (simp add: b)
  show "t div 60000000 * 60000000 < b \<longleftrightarrow> t < b"
    using 1 by (simp add: not_le [symmetric])
qed

lemma weekday_at_mod [simp]: "weekday_at (i mod 7) = weekday_at i"
  by (simp add: weekday_at_def)

lemma weekday_yesterday: "weekday_at (date_weekday d - 1) = weekday_at (date_weekday (d - 1))"
  by (simp add: weekday_at_def date_weekday_def mod_diff_left_eq)

text \<open>A window can only have been opened on the day shown or on the day before.\<close>

lemma window_open_days:
  assumes "wf_period p" "window_open p day local"
  shows "day = date_of local \<or> day = date_of local - 1"
proof -
  define len where "len = (ap_end p - ap_start p) mod day_us"
  have "0 \<le> ap_start p" "ap_start p < day_us" "0 \<le> len" "len < day_us"
    using assms(1) by (simp_all add: wf_period_def len_def)
  moreover have "day * day_us + ap_start p \<le> local" "local < day * day_us + ap_start p + len"
    using assms(2) by (simp_all add: window_open_def at_time_def len_def)
  moreover have "(day + 2) * day_us = day * day_us + day_us + day_us"
    by (simp add: algebra_simps)
  ultimately have lo: "day * day_us \<le> local" and hi: "local < (day + 2) * day_us"
    by linarith+
  have dv: "day_us * date_of local \<le> local" "local < day_us * date_of local + day_us"
    unfolding date_of_def by (rule div_bounds; simp)+
  have "day \<le> date_of local" using lo dv(2) unfolding day_us_def by linarith
  moreover have "date_of local < day + 2" using hi dv(1) unfolding day_us_def by (simp add: distrib_right)
  ultimately show ?thesis by linarith
qed

lemma window_today:
  assumes "wf_period p"
  shows "window_open p (date_of l) l \<longleftrightarrow> weekday_at (date_weekday (date_of l)) \<in> set (ap_days p)
     \<and> ap_start p \<le> time_of l \<and> (ap_start p \<le> ap_end p \<longrightarrow> time_of l < ap_end p)"
    and "window_open p (date_of l - 1) l \<longleftrightarrow> weekday_at (date_weekday (date_of l - 1)) \<in> set (ap_days p)
     \<and> ap_end p < ap_start p \<and> time_of l < ap_end p"
proof -
  define len where "len = (ap_end p - ap_start p) mod day_us"
  have p: "0 \<le> ap_start p" "ap_start p < day_us" "0 \<le> ap_end p" "ap_end p < day_us"
    using assms by (simp_all add: wf_period_def)
  have len: "len = (if ap_start p \<le> ap_end p then ap_end p - ap_start p else ap_end p - ap_start p + day_us)"
  proof (cases "ap_start p \<le> ap_end p")
    case False
    have "(ap_end p - ap_start p + day_us) mod day_us = ap_end p - ap_start p + day_us"
      using False p by (intro mod_pos_pos_trivial) linarith+
    with False show ?thesis by (simp add: len_def)
  qed (use p in \<open>simp add: len_def\<close>)
  have l: "l = date_of l * day_us + time_of l" by (simp add: date_of_def time_of_def)
  have t: "0 \<le> time_of l" "time_of l < day_us" by (rule time_of_bounds)+
  have "at_time (date_of l) x \<le> l \<longleftrightarrow> x \<le> time_of l" "l < at_time (date_of l) x + y \<longleftrightarrow> time_of l < x + y"
    "at_time (date_of l - 1) x \<le> l \<longleftrightarrow> x \<le> time_of l + day_us"
    "l < at_time (date_of l - 1) x + y \<longleftrightarrow> time_of l + day_us < x + y" for x y
    using l by (simp_all add: at_time_def left_diff_distrib) linarith+
  then show "window_open p (date_of l) l \<longleftrightarrow> weekday_at (date_weekday (date_of l)) \<in> set (ap_days p)
     \<and> ap_start p \<le> time_of l \<and> (ap_start p \<le> ap_end p \<longrightarrow> time_of l < ap_end p)"
    and "window_open p (date_of l - 1) l \<longleftrightarrow> weekday_at (date_weekday (date_of l - 1)) \<in> set (ap_days p)
     \<and> ap_end p < ap_start p \<and> time_of l < ap_end p"
    unfolding window_open_def len_def [symmetric] len using p t by auto
qed

lemma period_allows_window:
  assumes "wf_period p"
  shows "period_allows (weekday_at (date_weekday (date_of l))) (weekday_at (date_weekday (date_of l - 1)))
      (time_of l div 60000000 * 60000000) p \<longleftrightarrow> (\<exists>day. window_open p day l)"
proof -
  have "(\<exists>day. window_open p day l) \<longleftrightarrow> window_open p (date_of l) l \<or> window_open p (date_of l - 1) l"
    using window_open_days [OF assms] by blast
  also have "\<dots> \<longleftrightarrow> period_allows (weekday_at (date_weekday (date_of l)))
      (weekday_at (date_weekday (date_of l - 1))) (time_of l div 60000000 * 60000000) p"
    using assms unfolding window_today [OF assms] period_allows_def wf_period_def
    by (auto simp: minute_floor_le)
  finally show ?thesis by simp
qed

lemma within_allowed_period_iff:
  assumes "list_all wf_period (c_allowed_periods c)"
  shows "within_allowed_period c now \<longleftrightarrow> c_allowed_periods c = []
    \<or> (\<exists>p \<in> set (c_allowed_periods c). \<exists>day. window_open p day (to_local (c_timezone c) now))"
  using assms
  by (auto simp: within_allowed_period_def Let_def list_ex_iff list_all_iff weekday_yesterday period_allows_window)

end
