(* ===== verification/Storage.thy ===== *)
theory Storage
  imports Schedule
begin

text \<open>
  \<open>storage.py\<close>: the SQLite tables as lists of rows in insertion order, and one program
  per method. Times are stored as the ISO strings \<open>utc_iso\<close> writes and compared as
  strings, as SQLite compares TEXT; JSON columns keep the encoded value. A transaction
  that raises leaves the tables as they were. The values \<open>uuid4\<close> yields are a supply of
  which only distinctness is used. The lock and the file are not modelled.
\<close>

section \<open>Tables\<close>

record session_row =
  s_id :: string
  s_day_key :: string
  s_app_id :: "string option"
  s_app_name :: string
  s_source :: string
  s_confidence :: real
  s_started_at :: string
  s_ended_at :: "string option"
  s_duration :: real
  s_reason :: "string option"
  s_last_checkpoint_at :: string
  s_metadata :: pyval

record event_row =
  ev_id :: int
  ev_occurred_at :: string
  ev_type :: string
  ev_session_id :: "string option"
  ev_app_id :: "string option"
  ev_payload :: pyval

record adjustment_row =
  a_id :: int
  a_day_key :: string
  a_seconds :: int
  a_reason :: string
  a_granted_at :: string

record timer_row =
  tr_generation :: "string option"
  tr_state :: string
  tr_configured :: int
  tr_remaining :: real
  tr_action :: string
  tr_started_at :: "string option"
  tr_updated_at :: "string option"

record mark_row =
  n_scope :: string
  n_scope_key :: string
  n_threshold :: int
  n_emitted_at :: string

record bucket_row =
  b_day_key :: string
  b_index :: int
  b_app_key :: string
  b_app_id :: "string option"
  b_app_name :: string
  b_seconds :: real

record db =
  sessions :: "session_row list"
  events :: "event_row list"
  adjustments :: "adjustment_row list"
  timer_table :: "timer_row option"
  marks :: "mark_row list"
  buckets :: "bucket_row list"
  next_event_id :: int
  next_adjustment_id :: int
  uuid_source :: "nat \<Rightarrow> string"
  uuid_next :: nat

type_synonym 'a db_prog = "(db, 'a) prog"

definition empty_db :: "(nat \<Rightarrow> string) \<Rightarrow> db" where
  "empty_db src = \<lparr>sessions = [], events = [], adjustments = [], timer_table = None, marks = [],
     buckets = [], next_event_id = 1, next_adjustment_id = 1, uuid_source = src, uuid_next = 0\<rparr>"

definition new_uuid :: "string db_prog" where
  "new_uuid = (\<lambda>d. (Inr (uuid_source d (uuid_next d)), d\<lparr>uuid_next := Suc (uuid_next d)\<rparr>))"

definition transaction :: "'a db_prog \<Rightarrow> 'a db_prog" where
  "transaction m = (\<lambda>d. case m d of (Inl e, _) \<Rightarrow> (Inl e, d) | (Inr a, d') \<Rightarrow> (Inr a, d'))"

section \<open>Events\<close>

definition record_event ::
    "string \<Rightarrow> instant \<Rightarrow> pyval \<Rightarrow> string option \<Rightarrow> string option \<Rightarrow> int db_prog" where
  "record_event event_type occurred_at payload session_id app_id =
     (\<lambda>d. (Inr (next_event_id d),
           d\<lparr>events := events d @ [\<lparr>ev_id = next_event_id d, ev_occurred_at = utc_iso occurred_at,
                ev_type = event_type, ev_session_id = session_id, ev_app_id = app_id,
                ev_payload = payload\<rparr>],
             next_event_id := next_event_id d + 1\<rparr>))"

section \<open>Sessions\<close>

definition is_open :: "session_row \<Rightarrow> bool" where
  "is_open r = (s_ended_at r = None)"

definition open_row :: "db \<Rightarrow> session_row option" where
  "open_row d = find is_open (sessions d)"

definition insert_session :: "session_row \<Rightarrow> unit db_prog" where
  "insert_session r =
     bindP (gets sessions) (\<lambda>rows.
     thenP (guardP (s_id r \<in> s_id ` set rows) (IntegrityError ''UNIQUE constraint failed: sessions.id''))
       (modify (\<lambda>d. d\<lparr>sessions := sessions d @ [r]\<rparr>)))"

definition new_session_row :: "string \<Rightarrow> string \<Rightarrow> game_identity \<Rightarrow> instant \<Rightarrow> session_row" where
  "new_session_row session_id day_key game started_at =
     \<lparr>s_id = session_id, s_day_key = day_key, s_app_id = g_app_id game, s_app_name = g_name game,
      s_source = g_source game, s_confidence = g_confidence game,
      s_started_at = utc_iso started_at, s_ended_at = None, s_duration = 0, s_reason = None,
      s_last_checkpoint_at = utc_iso started_at,
      s_metadata = PDict [(''pids'', PList (map PInt (g_pids game))),
                          (''instance_id'', popt PStr (g_instance_id game))]\<rparr>"

definition open_session :: "string \<Rightarrow> game_identity \<Rightarrow> instant \<Rightarrow> string db_prog" where
  "open_session day_key game started_at =
     bindP new_uuid (\<lambda>session_id.
     thenP (transaction (
       bindP (gets open_row) (\<lambda>existing.
       case existing of
         Some r \<Rightarrow> raise (DatabaseError (''an open session already exists: '' @ s_id r))
       | None \<Rightarrow>
           thenP (insert_session (new_session_row session_id day_key game started_at))
           (record_event ''game_started'' started_at (game_to_dict game) (Some session_id) (g_app_id game)))))
     (ret session_id))"

definition update_rows :: "(session_row \<Rightarrow> bool) \<Rightarrow> (session_row \<Rightarrow> session_row) \<Rightarrow> db \<Rightarrow> db" where
  "update_rows p f d = d\<lparr>sessions := map (\<lambda>r. if p r then f r else r) (sessions d)\<rparr>"

definition checkpoint_session :: "string \<Rightarrow> real \<Rightarrow> instant \<Rightarrow> unit db_prog" where
  "checkpoint_session session_id duration_seconds when =
     bindP (gets sessions) (\<lambda>rows.
     let p = (\<lambda>r. s_id r = session_id \<and> is_open r)
     in thenP (modify (update_rows p (\<lambda>r. r\<lparr>s_duration := max 0 duration_seconds,
                                            s_last_checkpoint_at := utc_iso when\<rparr>)))
          (guardP (length (filter p rows) \<noteq> 1)
             (DatabaseError ''cannot checkpoint a session that is not open'')))"

definition close_session :: "string \<Rightarrow> real \<Rightarrow> instant \<Rightarrow> string \<Rightarrow> unit db_prog" where
  "close_session session_id duration_seconds ended_at reason =
     transaction (
       bindP (gets (\<lambda>d. find (\<lambda>r. s_id r = session_id \<and> is_open r) (sessions d))) (\<lambda>row.
       case row of
         None \<Rightarrow> ret ()
       | Some r \<Rightarrow>
           thenP (modify (update_rows (\<lambda>r. s_id r = session_id)
             (\<lambda>r. r\<lparr>s_ended_at := Some (utc_iso ended_at), s_duration := max 0 duration_seconds,
                    s_reason := Some reason, s_last_checkpoint_at := utc_iso ended_at\<rparr>)))
           (thenP (record_event ''game_stopped'' ended_at
              (PDict [(''reason'', PStr reason), (''duration_seconds'', PInt (py_trunc duration_seconds))])
              (Some session_id) (s_app_id r))
            (ret ()))))"

definition rotate_session_day ::
    "string \<Rightarrow> real \<Rightarrow> instant \<Rightarrow> string \<Rightarrow> game_identity \<Rightarrow> string db_prog" where
  "rotate_session_day session_id duration_seconds boundary new_day_key game =
     thenP (close_session session_id duration_seconds boundary ''daily_reset'')
       (open_session new_day_key game boundary)"

definition recover_open_session :: "instant \<Rightarrow> session_row option db_prog" where
  "recover_open_session when =
     bindP (gets open_row) (\<lambda>row.
     case row of
       None \<Rightarrow> ret None
     | Some r \<Rightarrow>
         thenP (close_session (s_id r) (s_duration r) when ''service_restart_recovery'')
           (ret (Some r)))"

definition usage_for_day :: "string \<Rightarrow> db \<Rightarrow> real" where
  "usage_for_day day_key d =
     sum_list (map s_duration (filter (\<lambda>r. s_day_key r = day_key) (sessions d)))"

section \<open>Daily adjustments\<close>

definition adjustment_for_day :: "string \<Rightarrow> db \<Rightarrow> int" where
  "adjustment_for_day day_key d =
     sum_list (map a_seconds (filter (\<lambda>r. a_day_key r = day_key) (adjustments d)))"

definition grant_adjustment :: "string \<Rightarrow> int \<Rightarrow> string \<Rightarrow> instant \<Rightarrow> int db_prog" where
  "grant_adjustment day_key seconds reason when =
     thenP (guardP (\<not> (-86400 \<le> seconds \<and> seconds \<le> 86400))
              (ValueError ''adjustment must be between -24h and +24h''))
     (bindP (gets next_adjustment_id) (\<lambda>adjustment_id.
      thenP (modify (\<lambda>d. d\<lparr>adjustments := adjustments d @ [\<lparr>a_id = adjustment_id, a_day_key = day_key,
                a_seconds = seconds, a_reason = take 200 reason, a_granted_at = utc_iso when\<rparr>],
              next_adjustment_id := adjustment_id + 1\<rparr>))
      (thenP (record_event ''time_adjustment'' when
         (PDict [(''day_key'', PStr day_key), (''seconds'', PInt seconds),
                 (''reason'', PStr (take 200 reason))]) None None)
       (ret adjustment_id))))"

section \<open>The timer\<close>

definition save_timer :: "timer_snapshot \<Rightarrow> unit db_prog" where
  "save_timer t = modify (\<lambda>d. d\<lparr>timer_table := Some
     \<lparr>tr_generation = t_generation t, tr_state = timer_state_value (t_state t),
      tr_configured = t_configured t, tr_remaining = max 0 (t_remaining t), tr_action = t_action t,
      tr_started_at = t_started_at t, tr_updated_at = t_updated_at t\<rparr>\<rparr>)"

definition load_timer :: "db \<Rightarrow> timer_snapshot" where
  "load_timer d =
     (case timer_table d of
        None \<Rightarrow> idle_timer
      | Some r \<Rightarrow>
          \<lparr>t_state = (case timer_state_of (tr_state r) of None \<Rightarrow> IDLE | Some st \<Rightarrow> st),
           t_configured = tr_configured r, t_remaining = tr_remaining r, t_action = tr_action r,
           t_generation = tr_generation r, t_started_at = tr_started_at r,
           t_updated_at = tr_updated_at r\<rparr>)"

section \<open>Notification marks\<close>

definition mark_key :: "mark_row \<Rightarrow> string \<times> string \<times> int" where
  "mark_key r = (n_scope r, n_scope_key r, n_threshold r)"

definition mark_notification :: "string \<Rightarrow> string \<Rightarrow> int \<Rightarrow> instant \<Rightarrow> bool db_prog" where
  "mark_notification scope scope_key threshold when =
     (\<lambda>d. if (scope, scope_key, threshold) \<in> mark_key ` set (marks d) then (Inr False, d)
          else (Inr True, d\<lparr>marks := marks d @ [\<lparr>n_scope = scope, n_scope_key = scope_key,
                  n_threshold = threshold, n_emitted_at = utc_iso when\<rparr>]\<rparr>))"

definition clear_notification_scope :: "string \<Rightarrow> string \<Rightarrow> unit db_prog" where
  "clear_notification_scope scope scope_key =
     modify (\<lambda>d. d\<lparr>marks := filter (\<lambda>r. \<not> (n_scope r = scope \<and> n_scope_key r = scope_key)) (marks d)\<rparr>)"

definition notification_thresholds :: "string \<Rightarrow> string \<Rightarrow> db \<Rightarrow> int set" where
  "notification_thresholds scope scope_key d =
     set (map n_threshold (filter (\<lambda>r. n_scope r = scope \<and> n_scope_key r = scope_key) (marks d)))"

section \<open>Listings\<close>

text \<open>\<open>ORDER BY f DESC\<close>; rows that tie keep their order of insertion.\<close>

definition order_desc :: "('a \<Rightarrow> 'k::linorder) \<Rightarrow> 'a list \<Rightarrow> 'a list" where
  "order_desc f xs = rev (sort_key f (rev xs))"

definition bounded_limit :: "int option \<Rightarrow> 'a list \<Rightarrow> 'a list" where
  "bounded_limit limit xs =
     (case limit of None \<Rightarrow> xs | Some n \<Rightarrow> take (nat (max 1 (min n 1000))) xs)"

definition session_to_dict :: "session_row \<Rightarrow> pyval" where
  "session_to_dict r = PDict
     [(''id'', PStr (s_id r)), (''day_key'', PStr (s_day_key r)), (''app_id'', popt PStr (s_app_id r)),
      (''app_name'', PStr (s_app_name r)), (''source'', PStr (s_source r)),
      (''confidence'', PFloat (s_confidence r)), (''started_at'', PStr (s_started_at r)),
      (''ended_at'', popt PStr (s_ended_at r)), (''duration_seconds'', PInt (py_round (s_duration r))),
      (''reason'', popt PStr (s_reason r)), (''last_checkpoint_at'', PStr (s_last_checkpoint_at r)),
      (''metadata'', s_metadata r)]"

text \<open>An empty day key is no filter, as in the code's truth test.\<close>

definition of_day :: "('a \<Rightarrow> string) \<Rightarrow> string option \<Rightarrow> 'a list \<Rightarrow> 'a list" where
  "of_day f day_key xs =
     (case day_key of None \<Rightarrow> xs | Some k \<Rightarrow> if k = [] then xs else filter (\<lambda>x. f x = k) xs)"

definition list_sessions :: "int option \<Rightarrow> string option \<Rightarrow> db \<Rightarrow> pyval list" where
  "list_sessions limit day_key d =
     map session_to_dict (bounded_limit limit (order_desc s_started_at (of_day s_day_key day_key (sessions d))))"

definition list_adjustments :: "string option \<Rightarrow> int option \<Rightarrow> db \<Rightarrow> pyval list" where
  "list_adjustments day_key limit d =
     map (\<lambda>r. PDict [(''id'', PInt (a_id r)), (''day_key'', PStr (a_day_key r)),
            (''seconds'', PInt (a_seconds r)), (''reason'', PStr (a_reason r)),
            (''granted_at'', PStr (a_granted_at r))])
       (bounded_limit limit (order_desc a_granted_at (of_day a_day_key day_key (adjustments d))))"

definition list_events :: "int option \<Rightarrow> db \<Rightarrow> pyval list" where
  "list_events limit d =
     map (\<lambda>r. PDict [(''id'', PInt (ev_id r)), (''occurred_at'', PStr (ev_occurred_at r)),
            (''event_type'', PStr (ev_type r)), (''session_id'', popt PStr (ev_session_id r)),
            (''app_id'', popt PStr (ev_app_id r)), (''payload'', ev_payload r)])
       (bounded_limit limit (order_desc ev_occurred_at (order_desc ev_id (events d))))"

section \<open>Summaries\<close>

record app_total =
  at_app_id :: "string option"
  at_app_name :: string
  at_seconds :: real
  at_sessions :: int

text \<open>\<open>GROUP BY app_id,app_name ORDER BY seconds DESC\<close>.\<close>

definition app_group :: "session_row \<Rightarrow> string option \<times> string" where
  "app_group r = (s_app_id r, s_app_name r)"

definition group_by_app :: "session_row list \<Rightarrow> app_total list" where
  "group_by_app rows = order_desc at_seconds
     (map (\<lambda>k. let g = filter (\<lambda>r. app_group r = k) rows
            in \<lparr>at_app_id = fst k, at_app_name = snd k, at_seconds = sum_list (map s_duration g),
                at_sessions = int (length g)\<rparr>)
       (remdups (map app_group rows)))"

record day_summary =
  ds_day_key :: string
  ds_total_seconds :: int
  ds_adjustment_seconds :: int
  ds_apps :: "(string option \<times> string \<times> int \<times> int) list"

definition summary_of_day :: "string \<Rightarrow> db \<Rightarrow> day_summary" where
  "summary_of_day key d =
     (let rows = group_by_app (filter (\<lambda>r. s_day_key r = key) (sessions d))
      in \<lparr>ds_day_key = key, ds_total_seconds = py_trunc (sum_list (map at_seconds rows)),
          ds_adjustment_seconds = adjustment_for_day key d,
          ds_apps = map (\<lambda>r. (at_app_id r, at_app_name r, py_trunc (at_seconds r), at_sessions r)) rows\<rparr>)"

definition daily_summary :: "date \<Rightarrow> nat \<Rightarrow> db \<Rightarrow> day_summary list" where
  "daily_summary start_day days d =
     map (\<lambda>offset. summary_of_day (date_isoformat (start_day + int offset)) d) [0..<days]"

definition weekly_summary :: "date \<Rightarrow> db \<Rightarrow> string \<times> string \<times> int \<times> day_summary list" where
  "weekly_summary end_day d =
     (let start = end_day - 6; days = daily_summary start 7 d
      in (date_isoformat start, date_isoformat end_day, sum_list (map ds_total_seconds days), days))"

section \<open>Activity buckets\<close>

definition get_or_none :: "string \<Rightarrow> pyval \<Rightarrow> pyval" where
  "get_or_none k v = (case dict_get k v of None \<Rightarrow> PNone | Some x \<Rightarrow> x)"

definition iso_day :: "pyval \<Rightarrow> string option" where
  "iso_day v =
     (case v of PStr s \<Rightarrow>
        (case date_fromisoformat s of
           Some n \<Rightarrow> if date_isoformat n = s then Some s else None
         | None \<Rightarrow> None)
      | _ \<Rightarrow> None)"

definition text_up_to :: "nat \<Rightarrow> pyval \<Rightarrow> string option" where
  "text_up_to n v =
     (case v of PStr s \<Rightarrow> if str_strip s = [] \<or> length s > n then None else Some s | _ \<Rightarrow> None)"

definition decimal_or_none :: "pyval \<Rightarrow> string option option" where
  "decimal_or_none v =
     (case v of PNone \<Rightarrow> Some None
      | PStr s \<Rightarrow> if \<not> str_isdecimal s \<or> length s > 32 then None else Some (Some s)
      | _ \<Rightarrow> None)"

definition usage_bucket_row :: "pyval \<Rightarrow> py_exc + bucket_row" where
  "usage_bucket_row entry =
     (case iso_day (get_or_none ''day_key'' entry) of
        None \<Rightarrow> Inl (ValueError ''usage bucket day_key must be an ISO date'')
      | Some day_key \<Rightarrow>
     (case get_or_none ''bucket_index'' entry of
        PInt bucket_index \<Rightarrow>
          if \<not> (0 \<le> bucket_index \<and> bucket_index < 6)
          then Inl (ValueError ''usage bucket bucket_index must be between 0 and 5'')
          else
     (case text_up_to 256 (get_or_none ''app_key'' entry) of
        None \<Rightarrow> Inl (ValueError ''usage bucket app_key must contain 1..256 characters'')
      | Some app_key \<Rightarrow>
     (case decimal_or_none (get_or_none ''app_id'' entry) of
        None \<Rightarrow> Inl (ValueError ''usage bucket app_id must be a decimal string or null'')
      | Some app_id \<Rightarrow>
     (case text_up_to 200 (get_or_none ''app_name'' entry) of
        None \<Rightarrow> Inl (ValueError ''usage bucket app_name must contain 1..200 characters'')
      | Some app_name \<Rightarrow>
          let positive = (\<lambda>seconds. if seconds \<le> 0
                then Inl (ValueError ''usage bucket seconds must be a positive number'')
                else Inr \<lparr>b_day_key = day_key, b_index = bucket_index, b_app_key = app_key,
                          b_app_id = app_id, b_app_name = app_name, b_seconds = seconds\<rparr>)
          in (case get_or_none ''seconds'' entry of
                PInt i \<Rightarrow> positive (real_of_int i)
              | PFloat x \<Rightarrow> positive x
              | _ \<Rightarrow> Inl (ValueError ''usage bucket seconds must be a positive number'')))))
      | _ \<Rightarrow> Inl (ValueError ''usage bucket bucket_index must be an integer'')))"

fun usage_bucket_rows :: "pyval list \<Rightarrow> py_exc + bucket_row list" where
  "usage_bucket_rows [] = Inr []"
| "usage_bucket_rows (e # es) =
     (case usage_bucket_row e of
        Inl x \<Rightarrow> Inl x
      | Inr r \<Rightarrow> (case usage_bucket_rows es of Inl x \<Rightarrow> Inl x | Inr rs \<Rightarrow> Inr (r # rs)))"

definition bucket_key :: "bucket_row \<Rightarrow> string \<times> int \<times> string" where
  "bucket_key r = (b_day_key r, b_index r, b_app_key r)"

text \<open>\<open>INSERT ... ON CONFLICT(day_key,bucket_index,app_key) DO UPDATE\<close>.\<close>

fun upsert_bucket :: "bucket_row \<Rightarrow> bucket_row list \<Rightarrow> bucket_row list" where
  "upsert_bucket r [] = [r]"
| "upsert_bucket r (x # xs) =
     (if bucket_key x = bucket_key r
      then x\<lparr>b_app_id := (case b_app_id r of None \<Rightarrow> b_app_id x | Some i \<Rightarrow> Some i),
             b_app_name := b_app_name r, b_seconds := b_seconds x + b_seconds r\<rparr> # xs
      else x # upsert_bucket r xs)"

definition add_usage_buckets :: "pyval list \<Rightarrow> int db_prog" where
  "add_usage_buckets entries =
     (case usage_bucket_rows entries of
        Inl e \<Rightarrow> raise e
      | Inr rows \<Rightarrow>
          if rows = [] then ret 0
          else thenP (transaction (modify (\<lambda>d. d\<lparr>buckets := foldl (\<lambda>bs r. upsert_bucket r bs) (buckets d) rows\<rparr>)))
                 (ret (int (length rows))))"

definition list_usage_buckets :: "date option \<Rightarrow> date option \<Rightarrow> db \<Rightarrow> py_exc + pyval list" where
  "list_usage_buckets start_day end_day d =
     (let start_key = map_option date_isoformat start_day; end_key = map_option date_isoformat end_day
      in if (case (start_key, end_key) of (Some a, Some b) \<Rightarrow> b < a | _ \<Rightarrow> False)
         then Inl (ValueError ''start_day must not be after end_day'')
         else Inr (map (\<lambda>r. PDict [(''day_key'', PStr (b_day_key r)), (''bucket_index'', PInt (b_index r)),
                        (''app_key'', PStr (b_app_key r)), (''app_id'', popt PStr (b_app_id r)),
                        (''app_name'', PStr (b_app_name r)), (''seconds'', PInt (py_round (b_seconds r)))])
                (sort_key b_day_key (sort_key b_index (sort_key b_app_key
                  (filter (\<lambda>r. (case start_key of None \<Rightarrow> True | Some k \<Rightarrow> k \<le> b_day_key r)
                     \<and> (case end_key of None \<Rightarrow> True | Some k \<Rightarrow> b_day_key r \<le> k)) (buckets d)))))))"

section \<open>Clearing and retention\<close>

definition clear_history :: "unit db_prog" where
  "clear_history = transaction (
     bindP (gets open_row) (\<lambda>row.
     thenP (guardP (row \<noteq> None) (DatabaseError ''history cannot be cleared while a game session is active''))
       (modify (\<lambda>d. d\<lparr>sessions := [], events := [], adjustments := [], marks := [], buckets := []\<rparr>))))"

record retention_counts =
  rc_sessions :: int
  rc_events :: int
  rc_adjustments :: int
  rc_marks :: int
  rc_buckets :: int

definition count_if :: "('a \<Rightarrow> bool) \<Rightarrow> 'a list \<Rightarrow> int" where
  "count_if p xs = int (length (filter p xs))"

definition ended_before :: "string \<Rightarrow> session_row \<Rightarrow> bool" where
  "ended_before cutoff r = (case s_ended_at r of None \<Rightarrow> False | Some e \<Rightarrow> e < cutoff)"

definition enforce_retention :: "int \<Rightarrow> instant \<Rightarrow> retention_counts db_prog" where
  "enforce_retention retention_days now =
     (let cutoff = utc_iso (now - retention_days * day_us);
          bucket_cutoff = date_isoformat (date_of now - retention_days)
      in transaction (\<lambda>d.
           (Inr \<lparr>rc_sessions = count_if (ended_before cutoff) (sessions d),
                 rc_events = count_if (\<lambda>r. ev_occurred_at r < cutoff) (events d),
                 rc_adjustments = count_if (\<lambda>r. a_granted_at r < cutoff) (adjustments d),
                 rc_marks = count_if (\<lambda>r. n_emitted_at r < cutoff) (marks d),
                 rc_buckets = count_if (\<lambda>r. b_day_key r < bucket_cutoff) (buckets d)\<rparr>,
            d\<lparr>sessions := filter (\<lambda>r. \<not> ended_before cutoff r) (sessions d),
              events := filter (\<lambda>r. \<not> ev_occurred_at r < cutoff) (events d),
              adjustments := filter (\<lambda>r. \<not> a_granted_at r < cutoff) (adjustments d),
              marks := filter (\<lambda>r. \<not> n_emitted_at r < cutoff) (marks d),
              buckets := filter (\<lambda>r. \<not> b_day_key r < bucket_cutoff) (buckets d)\<rparr>)))"

end
