(* ===== verification/Ledger.thy ===== *)
theory Ledger
  imports Storage
begin

text \<open>
  What the tables promise their clients. \<open>db_inv\<close> holds in an empty database and is kept by
  every method of \<open>Storage\<close>. The interfaces the engine relies on are locales: the session
  store (at most one open session; a closed session is charged once, to its day) and the
  notification marks (a mark is new once). Both are interpreted on the tables.
\<close>

section \<open>Well-formed tables\<close>

definition ids_below :: "int \<Rightarrow> int list \<Rightarrow> bool" where
  "ids_below n xs = (sorted_wrt (<) xs \<and> (\<forall>x \<in> set xs. x < n))"

definition uuids_fresh :: "db \<Rightarrow> bool" where
  "uuids_fresh d = (inj (uuid_source d) \<and> (\<forall>n. uuid_source d n \<noteq> [])
     \<and> (\<forall>r \<in> set (sessions d). \<forall>n \<ge> uuid_next d. s_id r \<noteq> uuid_source d n))"

definition db_inv :: "db \<Rightarrow> bool" where
  "db_inv d =
     (distinct (map s_id (sessions d)) \<and> length (filter is_open (sessions d)) \<le> 1 \<and> uuids_fresh d
      \<and> (\<forall>r \<in> set (sessions d). 0 \<le> s_duration r)
      \<and> ids_below (next_event_id d) (map ev_id (events d))
      \<and> ids_below (next_adjustment_id d) (map a_id (adjustments d))
      \<and> (\<forall>a \<in> set (adjustments d). -86400 \<le> a_seconds a \<and> a_seconds a \<le> 86400)
      \<and> distinct (map mark_key (marks d)) \<and> distinct (map bucket_key (buckets d))
      \<and> (\<forall>b \<in> set (buckets d). 0 \<le> b_index b \<and> b_index b < 6 \<and> 0 < b_seconds b))"

definition closed_usage :: "string \<Rightarrow> db \<Rightarrow> real" where
  "closed_usage day_key d =
     sum_list (map s_duration (filter (\<lambda>r. s_day_key r = day_key \<and> \<not> is_open r) (sessions d)))"

definition current_session :: "db \<Rightarrow> (string \<times> string \<times> real) option" where
  "current_session d = map_option (\<lambda>r. (s_id r, s_day_key r, s_duration r)) (open_row d)"

lemma ids_below_snoc: "ids_below n xs \<Longrightarrow> ids_below (n + 1) (xs @ [n])"
  by (auto simp: ids_below_def sorted_wrt_append)

lemma ids_below_filter: "ids_below n (map f xs) \<Longrightarrow> ids_below n (map f (filter p xs))"
  by (auto simp: ids_below_def sorted_wrt_map sorted_wrt_filter)

lemma empty_db_inv: "inj src \<Longrightarrow> \<forall>n. src n \<noteq> [] \<Longrightarrow> db_inv (empty_db src)"
  by (simp add: db_inv_def empty_db_def uuids_fresh_def ids_below_def)

lemma open_row_None: "open_row d = None \<longleftrightarrow> filter is_open (sessions d) = []"
  by (auto simp: open_row_def find_None_iff filter_empty_conv)

lemma find_append_none: "\<forall>x \<in> set xs. \<not> p x \<Longrightarrow> find p (xs @ ys) = find p ys"
  by (induction xs) auto

lemma one_open:
  assumes "db_inv d" and "open_row d = Some r"
  obtains pre post where "sessions d = pre @ r # post" "is_open r"
    "\<forall>x \<in> set pre \<union> set post. \<not> is_open x \<and> s_id x \<noteq> s_id r"
proof -
  from assms(2) obtain i where i: "i < length (sessions d)" "is_open (sessions d ! i)"
    "r = sessions d ! i" "\<forall>j<i. \<not> is_open (sessions d ! j)"
    by (auto simp: open_row_def find_Some_iff)
  define pre post where "pre = take i (sessions d)" and "post = drop (Suc i) (sessions d)"
  have split: "sessions d = pre @ r # post"
    using i by (simp add: pre_def post_def id_take_nth_drop [symmetric])
  have r: "is_open r" using i(2,3) by simp
  from assms(1) have "length (filter is_open (pre @ r # post)) \<le> 1" "distinct (map s_id (pre @ r # post))"
    by (simp_all add: db_inv_def split [symmetric])
  with r have "filter is_open pre = []" "filter is_open post = []" "s_id r \<notin> s_id ` (set pre \<union> set post)"
    by auto
  then have "\<forall>x \<in> set pre \<union> set post. \<not> is_open x \<and> s_id x \<noteq> s_id r"
    by (auto simp: filter_empty_conv) (metis UnI1 UnI2 imageI)+
  with split r show ?thesis by (rule that)
qed

lemma find_open_by_id:
  assumes "db_inv d" and "open_row d = Some r"
  shows "find (\<lambda>x. s_id x = s_id r \<and> is_open x) (sessions d) = Some r"
    and "filter (\<lambda>x. s_id x = s_id r \<and> is_open x) (sessions d) = [r]"
proof -
  obtain pre post where "sessions d = pre @ r # post" "is_open r"
    "\<forall>x \<in> set pre \<union> set post. \<not> is_open x \<and> s_id x \<noteq> s_id r"
    using one_open [OF assms] .
  then show "find (\<lambda>x. s_id x = s_id r \<and> is_open x) (sessions d) = Some r"
    and "filter (\<lambda>x. s_id x = s_id r \<and> is_open x) (sessions d) = [r]"
    by (simp_all add: find_append_none filter_empty_conv)
qed

lemma usage_for_day_split:
  assumes "db_inv d"
  shows "usage_for_day k d = closed_usage k d +
    (case current_session d of None \<Rightarrow> 0 | Some (i, k', u) \<Rightarrow> if k' = k then u else 0)"
proof (cases "open_row d")
  case None
  then have "\<forall>r \<in> set (sessions d). \<not> is_open r"
    by (simp add: open_row_None filter_empty_conv)
  then have "filter (\<lambda>r. s_day_key r = k) (sessions d)
      = filter (\<lambda>r. s_day_key r = k \<and> \<not> is_open r) (sessions d)"
    by (auto intro: filter_cong)
  with None show ?thesis by (simp add: usage_for_day_def closed_usage_def current_session_def)
next
  case (Some r)
  then obtain pre post where s: "sessions d = pre @ r # post" "is_open r"
    "\<forall>x \<in> set pre \<union> set post. \<not> is_open x \<and> s_id x \<noteq> s_id r"
    using one_open [OF assms] by blast
  then have "filter (\<lambda>r. s_day_key r = k) xs = filter (\<lambda>r. s_day_key r = k \<and> \<not> is_open r) xs"
    if "xs = pre \<or> xs = post" for xs
    using that by (auto intro: filter_cong)
  with s Some show ?thesis
    by (auto simp: usage_for_day_def closed_usage_def current_session_def)
qed

lemma closed_usage_nonneg: "db_inv d \<Longrightarrow> 0 \<le> closed_usage k d"
  by (auto simp: closed_usage_def db_inv_def intro: sum_list_nonneg_map)

lemma usage_for_day_nonneg: "db_inv d \<Longrightarrow> 0 \<le> usage_for_day k d"
  by (auto simp: usage_for_day_def db_inv_def intro: sum_list_nonneg_map)

section \<open>Sessions\<close>

text \<open>What a session method leaves alone.\<close>

definition other_tables :: "db \<Rightarrow> timer_row option \<times> adjustment_row list \<times> mark_row list \<times> bucket_row list" where
  "other_tables d = (timer_table d, adjustments d, marks d, buckets d)"

lemma wp_transaction [wp_simps, simp]: "wp (transaction m) Q E d = wp m Q (\<lambda>e _. E e d) d"
  by (simp add: wp_def transaction_def split: prod.splits sum.splits)

lemma wp_new_uuid [wp_simps, simp]:
  "wp new_uuid Q E d = Q (uuid_source d (uuid_next d)) (d\<lparr>uuid_next := Suc (uuid_next d)\<rparr>)"
  by (simp add: wp_def new_uuid_def)

lemma wp_record_event [wp_simps, simp]:
  "wp (record_event k t p i a) Q E d =
     Q (next_event_id d) (d\<lparr>events := events d @ [\<lparr>ev_id = next_event_id d, ev_occurred_at = utc_iso t,
          ev_type = k, ev_session_id = i, ev_app_id = a, ev_payload = p\<rparr>],
        next_event_id := next_event_id d + 1\<rparr>)"
  by (simp add: wp_def record_event_def)

lemma record_event_inv:
  "db_inv d \<Longrightarrow> ev_id r = next_event_id d \<Longrightarrow> db_inv (d\<lparr>events := events d @ [r], next_event_id := next_event_id d + 1\<rparr>)"
  by (auto simp: db_inv_def uuids_fresh_def dest: ids_below_snoc)

lemma open_session_wp:
  assumes inv: "db_inv d" and none: "current_session d = None"
    and post: "\<And>i d'. db_inv d' \<Longrightarrow> current_session d' = Some (i, day_key, 0) \<Longrightarrow>
      (\<And>k. closed_usage k d' = closed_usage k d) \<Longrightarrow> other_tables d' = other_tables d \<Longrightarrow>
      i \<noteq> [] \<Longrightarrow> Q i d'"
  shows "wp (open_session day_key game t) Q E d"
proof -
  define i where "i = uuid_source d (uuid_next d)"
  define r where "r = new_session_row i day_key game t"
  have no_open: "open_row d = None" "\<forall>x \<in> set (sessions d). \<not> is_open x"
    using none by (auto simp: current_session_def open_row_None filter_empty_conv)
  have r: "s_id r = i" "is_open r" "s_duration r = 0" "s_day_key r = day_key"
    by (simp_all add: r_def new_session_row_def is_open_def)
  have fresh: "s_id x \<noteq> i" if "x \<in> set (sessions d)" for x
    using inv that by (simp add: db_inv_def uuids_fresh_def i_def)
  define d' where "d' = d\<lparr>uuid_next := Suc (uuid_next d), sessions := sessions d @ [r],
      events := events d @ [\<lparr>ev_id = next_event_id d, ev_occurred_at = utc_iso t,
        ev_type = ''game_started'', ev_session_id = Some i, ev_app_id = g_app_id game,
        ev_payload = game_to_dict game\<rparr>],
      next_event_id := next_event_id d + 1\<rparr>"
  have "uuid_source d n \<noteq> i" if "Suc (uuid_next d) \<le> n" for n
    using inv that by (auto simp: db_inv_def uuids_fresh_def i_def inj_eq)
  then have "db_inv d'"
    using inv fresh r no_open(2)
    by (auto simp: db_inv_def d'_def uuids_fresh_def filter_empty_conv dest: ids_below_snoc)
      (metis)+
  moreover have "current_session d' = Some (i, day_key, 0)"
    using no_open(2) r by (simp add: current_session_def open_row_def d'_def find_append_none)
  moreover have "closed_usage k d' = closed_usage k d" for k
    using r by (simp add: closed_usage_def d'_def)
  moreover have "other_tables d' = other_tables d" by (simp add: other_tables_def d'_def)
  moreover have "i \<noteq> []" using inv by (simp add: i_def db_inv_def uuids_fresh_def)
  ultimately have "Q i d'" by (rule post)
  moreover have "i \<notin> s_id ` set (sessions d)" using fresh by auto
  moreover have "open_row (d\<lparr>uuid_next := n\<rparr>) = None" for n using no_open by (simp add: open_row_def)
  ultimately show ?thesis
    by (simp add: open_session_def insert_session_def d'_def i_def r_def new_session_row_def)
qed

text \<open>The open row is rewritten where it stands; the other rows stay.\<close>

lemma update_open_row:
  assumes inv: "db_inv d" and r: "open_row d = Some r"
    and f: "s_id (f r) = s_id r" "s_day_key (f r) = s_day_key r" "0 \<le> s_duration (f r)"
    and p: "p = (\<lambda>x. s_id x = s_id r \<and> is_open x) \<or> p = (\<lambda>x. s_id x = s_id r)"
  shows "db_inv (update_rows p f d)"
    and "other_tables (update_rows p f d) = other_tables d"
    and "current_session (update_rows p f d) =
      (if is_open (f r) then Some (s_id r, s_day_key r, s_duration (f r)) else None)"
    and "closed_usage k (update_rows p f d) = closed_usage k d +
      (if is_open (f r) \<or> s_day_key r \<noteq> k then 0 else s_duration (f r))"
proof -
  obtain pre post where s: "sessions d = pre @ r # post" "is_open r"
    "\<forall>x \<in> set pre \<union> set post. \<not> is_open x \<and> s_id x \<noteq> s_id r"
    using one_open [OF inv r] .
  have same: "map (\<lambda>x. if p x then f x else x) xs = xs" if "xs = pre \<or> xs = post" for xs
    using p s(3) that by (auto intro!: map_idI)
  have upd: "sessions (update_rows p f d) = pre @ f r # post"
    using s p same by (auto simp: update_rows_def)
  have rest: "uuid_source (update_rows p f d) = uuid_source d" "uuid_next (update_rows p f d) = uuid_next d"
    "events (update_rows p f d) = events d" "next_event_id (update_rows p f d) = next_event_id d"
    "adjustments (update_rows p f d) = adjustments d" "marks (update_rows p f d) = marks d"
    "next_adjustment_id (update_rows p f d) = next_adjustment_id d" "buckets (update_rows p f d) = buckets d"
    "timer_table (update_rows p f d) = timer_table d"
    by (simp_all add: update_rows_def)
  show "db_inv (update_rows p f d)"
    using inv f s unfolding db_inv_def uuids_fresh_def upd rest s(1) by (auto split: if_splits)
  show "other_tables (update_rows p f d) = other_tables d"
    by (simp add: other_tables_def rest)
  show "current_session (update_rows p f d) =
      (if is_open (f r) then Some (s_id r, s_day_key r, s_duration (f r)) else None)"
    using s(3) f by (auto simp: current_session_def open_row_def upd find_append_none find_None_iff)
  show "closed_usage k (update_rows p f d) = closed_usage k d +
      (if is_open (f r) \<or> s_day_key r \<noteq> k then 0 else s_duration (f r))"
    using s(2) f by (simp add: closed_usage_def upd s(1))
qed

lemma current_session_row:
  assumes "current_session d = Some (i, day_key, u)"
  obtains r where "open_row d = Some r" "s_id r = i" "s_day_key r = day_key" "s_duration r = u" "is_open r"
  using assms by (auto simp: current_session_def open_row_def find_Some_iff)

lemma checkpoint_session_wp:
  assumes inv: "db_inv d" and cur: "current_session d = Some (i, day_key, u)"
    and post: "\<And>d'. db_inv d' \<Longrightarrow> current_session d' = Some (i, day_key, max 0 v) \<Longrightarrow>
      (\<And>k. closed_usage k d' = closed_usage k d) \<Longrightarrow> other_tables d' = other_tables d \<Longrightarrow> Q () d'"
  shows "wp (checkpoint_session i v t) Q E d"
proof -
  obtain r where r: "open_row d = Some r" "s_id r = i" "s_day_key r = day_key" "s_duration r = u" "is_open r"
    using current_session_row [OF cur] .
  define f :: "session_row \<Rightarrow> session_row" where "f = (\<lambda>r. r\<lparr>s_duration := max 0 v, s_last_checkpoint_at := utc_iso t\<rparr>)"
  define d' where "d' = update_rows (\<lambda>x. s_id x = i \<and> is_open x) f d"
  have f: "s_id (f r) = s_id r" "s_day_key (f r) = s_day_key r" "0 \<le> s_duration (f r)" "is_open (f r)"
    "s_duration (f r) = max 0 v"
    using r by (simp_all add: f_def is_open_def)
  note upd = update_open_row [where f = f and p = "\<lambda>x. s_id x = i \<and> is_open x", OF inv r(1) f(1-3)]
  have "Q () d'"
    using upd f r by (intro post) (simp_all add: d'_def)
  then show ?thesis
    using find_open_by_id(2) [OF inv r(1)] r
    by (simp add: checkpoint_session_def Let_def d'_def f_def)
qed

lemma close_session_wp:
  assumes inv: "db_inv d" and cur: "current_session d = Some (i, day_key, u)"
    and post: "\<And>d'. db_inv d' \<Longrightarrow> current_session d' = None \<Longrightarrow>
      (\<And>k. closed_usage k d' = closed_usage k d + (if k = day_key then max 0 v else 0)) \<Longrightarrow>
      other_tables d' = other_tables d \<Longrightarrow> Q () d'"
  shows "wp (close_session i v t why) Q E d"
proof -
  obtain r where r: "open_row d = Some r" "s_id r = i" "s_day_key r = day_key" "s_duration r = u" "is_open r"
    using current_session_row [OF cur] .
  define f :: "session_row \<Rightarrow> session_row" where "f = (\<lambda>r. r\<lparr>s_ended_at := Some (utc_iso t), s_duration := max 0 v, s_reason := Some why,
    s_last_checkpoint_at := utc_iso t\<rparr>)"
  define d1 where "d1 = update_rows (\<lambda>x. s_id x = i) f d"
  have f: "s_id (f r) = s_id r" "s_day_key (f r) = s_day_key r" "0 \<le> s_duration (f r)" "\<not> is_open (f r)"
    "s_duration (f r) = max 0 v"
    using r by (simp_all add: f_def is_open_def)
  note upd = update_open_row [where f = f and p = "\<lambda>x. s_id x = i", OF inv r(1) f(1-3)]
  define d' where "d' = d1\<lparr>events := events d1 @ [\<lparr>ev_id = next_event_id d1, ev_occurred_at = utc_iso t,
      ev_type = ''game_stopped'', ev_session_id = Some i, ev_app_id = s_app_id r,
      ev_payload = PDict [(''reason'', PStr why), (''duration_seconds'', PInt (py_trunc v))]\<rparr>],
      next_event_id := next_event_id d1 + 1\<rparr>"
  have d1: "db_inv d1" using upd(1) r by (simp add: d1_def)
  have same: "current_session d' = current_session d1" "closed_usage k d' = closed_usage k d1"
    "other_tables d' = other_tables d1" for k
    by (simp_all add: d'_def current_session_def open_row_def closed_usage_def other_tables_def)
  have "Q () d'"
  proof (rule post)
    show "db_inv d'" unfolding d'_def by (rule record_event_inv [OF d1]) simp
  qed (use upd f r in \<open>auto simp: same d1_def\<close>)
  then show ?thesis
    using find_open_by_id(1) [OF inv r(1)] r
    by (simp add: close_session_def d'_def d1_def f_def)
qed

text \<open>Closing a session that is not open does nothing.\<close>

lemma close_session_idle:
  "current_session d = None \<Longrightarrow> close_session i v t why d = (Inr (), d)"
  by (auto simp: close_session_def transaction_def prog_simps current_session_def open_row_def find_None_iff
      find_Some_iff split: option.splits)

section \<open>The session store as an interface\<close>

locale session_store =
  fixes inv :: "'s \<Rightarrow> bool"
    and current :: "'s \<Rightarrow> (string \<times> string \<times> real) option"
    and closed :: "string \<Rightarrow> 's \<Rightarrow> real"
    and opn :: "string \<Rightarrow> game_identity \<Rightarrow> instant \<Rightarrow> ('s, string) prog"
    and chk :: "string \<Rightarrow> real \<Rightarrow> instant \<Rightarrow> ('s, unit) prog"
    and cls :: "string \<Rightarrow> real \<Rightarrow> instant \<Rightarrow> string \<Rightarrow> ('s, unit) prog"
  assumes opn_law: "inv s \<Longrightarrow> current s = None \<Longrightarrow>
      \<exists>i s'. opn k g t s = (Inr i, s') \<and> inv s' \<and> current s' = Some (i, k, 0) \<and> (\<forall>j. closed j s' = closed j s)"
    and chk_law: "inv s \<Longrightarrow> current s = Some (i, k, u) \<Longrightarrow>
      \<exists>s'. chk i v t s = (Inr (), s') \<and> inv s' \<and> current s' = Some (i, k, max 0 v)
        \<and> (\<forall>j. closed j s' = closed j s)"
    and cls_law: "inv s \<Longrightarrow> current s = Some (i, k, u) \<Longrightarrow>
      \<exists>s'. cls i v t w s = (Inr (), s') \<and> inv s' \<and> current s' = None
        \<and> (\<forall>j. closed j s' = closed j s + (if j = k then max 0 v else 0))"
begin

lemma checkpoints:
  assumes "inv s" and "current s = Some (i, k, u)"
  shows "\<exists>rs s' u'. mapP (\<lambda>(v, t). chk i v t) vts s = (Inr rs, s') \<and> inv s'
    \<and> current s' = Some (i, k, u') \<and> (\<forall>j. closed j s' = closed j s)"
  using assms
proof (induction vts arbitrary: s u)
  case (Cons vt vts)
  obtain v t where vt: "vt = (v, t)" by force
  obtain s1 where s1: "chk i v t s = (Inr (), s1)" "inv s1" "current s1 = Some (i, k, max 0 v)"
    "\<forall>j. closed j s1 = closed j s"
    using chk_law [OF Cons.prems] by blast
  obtain rs s' u' where "mapP (\<lambda>(v, t). chk i v t) vts s1 = (Inr rs, s')" "inv s'"
    "current s' = Some (i, k, u')" "\<forall>j. closed j s' = closed j s1"
    using Cons.IH [OF s1(2,3)] by blast
  with s1 show ?case by (auto simp: vt prog_simps)
qed (simp add: prog_simps)

text \<open>A session that was opened, checkpointed any number of times and closed is charged its
  closing duration once, to the day it was opened for.\<close>

lemma lifetime:
  assumes "inv s" and "current s = None"
  shows "\<exists>s'. bindP (opn k g t) (\<lambda>i. thenP (mapP (\<lambda>(v, t). chk i v t) vts) (cls i v t' w)) s = (Inr (), s')
    \<and> inv s' \<and> current s' = None \<and> (\<forall>j. closed j s' = closed j s + (if j = k then max 0 v else 0))"
proof -
  obtain i s1 where s1: "opn k g t s = (Inr i, s1)" "inv s1" "current s1 = Some (i, k, 0)"
    "\<forall>j. closed j s1 = closed j s"
    using opn_law [OF assms] by blast
  obtain rs s2 u where s2: "mapP (\<lambda>(v, t). chk i v t) vts s1 = (Inr rs, s2)" "inv s2"
    "current s2 = Some (i, k, u)" "\<forall>j. closed j s2 = closed j s1"
    using checkpoints [OF s1(2,3)] by blast
  obtain s3 where "cls i v t' w s2 = (Inr (), s3)" "inv s3" "current s3 = None"
    "\<forall>j. closed j s3 = closed j s2 + (if j = k then max 0 v else 0)"
    using cls_law [OF s2(2,3)] by blast
  with s1 s2 show ?thesis by (simp add: prog_simps)
qed

lemma rotation:
  assumes "inv s" and "current s = Some (i, k, u)"
  shows "\<exists>i' s'. thenP (cls i v t w) (opn k' g t) s = (Inr i', s') \<and> inv s'
    \<and> current s' = Some (i', k', 0) \<and> (\<forall>j. closed j s' = closed j s + (if j = k then max 0 v else 0))"
proof -
  obtain s1 where s1: "cls i v t w s = (Inr (), s1)" "inv s1" "current s1 = None"
    "\<forall>j. closed j s1 = closed j s + (if j = k then max 0 v else 0)"
    using cls_law [OF assms] by blast
  with opn_law [OF s1(2,3)] show ?thesis by (force simp: prog_simps)
qed

end

interpretation tables: session_store db_inv current_session closed_usage open_session
  checkpoint_session close_session
proof (unfold_locales, goal_cases)
  case (1 d k g t)
  have "wp (open_session k g t) (\<lambda>i d'. db_inv d' \<and> current_session d' = Some (i, k, 0)
      \<and> (\<forall>j. closed_usage j d' = closed_usage j d)) (\<lambda>_ _. False) d"
    by (rule open_session_wp [OF 1]) auto
  from wp_returns [OF this] show ?case by blast
next
  case (2 d i k u v t)
  have "wp (checkpoint_session i v t) (\<lambda>_ d'. db_inv d' \<and> current_session d' = Some (i, k, max 0 v)
      \<and> (\<forall>j. closed_usage j d' = closed_usage j d)) (\<lambda>_ _. False) d"
    by (rule checkpoint_session_wp [OF 2]) auto
  from wp_returns [OF this] show ?case by auto
next
  case (3 d i k u v t w)
  have "wp (close_session i v t w) (\<lambda>_ d'. db_inv d' \<and> current_session d' = None
      \<and> (\<forall>j. closed_usage j d' = closed_usage j d + (if j = k then max 0 v else 0))) (\<lambda>_ _. False) d"
    by (rule close_session_wp [OF 3]) auto
  from wp_returns [OF this] show ?case by auto
qed

section \<open>Notification marks as an interface\<close>

locale mark_store =
  fixes marked :: "'s \<Rightarrow> (string \<times> string \<times> int) set"
    and mark :: "string \<Rightarrow> string \<Rightarrow> int \<Rightarrow> instant \<Rightarrow> ('s, bool) prog"
    and clear :: "string \<Rightarrow> string \<Rightarrow> ('s, unit) prog"
  assumes mark_law: "\<exists>s'. mark a b n t s = (Inr ((a, b, n) \<notin> marked s), s')
      \<and> marked s' = insert (a, b, n) (marked s)"
    and clear_law: "\<exists>s'. clear a b s = (Inr (), s')
      \<and> marked s' = {m \<in> marked s. \<not> (fst m = a \<and> fst (snd m) = b)}"
begin

lemma mark_all:
  "\<exists>news s'. filterP (\<lambda>n. mark a b n t) ns s = (Inr news, s') \<and> distinct news
    \<and> set news = {n \<in> set ns. (a, b, n) \<notin> marked s}
    \<and> marked s' = marked s \<union> {(a, b, n) | n. n \<in> set ns}"
proof (induction ns arbitrary: s)
  case (Cons n ns)
  obtain s1 where s1: "mark a b n t s = (Inr ((a, b, n) \<notin> marked s), s1)"
    "marked s1 = insert (a, b, n) (marked s)"
    using mark_law by blast
  obtain news s' where "filterP (\<lambda>n. mark a b n t) ns s1 = (Inr news, s')" "distinct news"
    "set news = {n \<in> set ns. (a, b, n) \<notin> marked s1}" "marked s' = marked s1 \<union> {(a, b, n) | n. n \<in> set ns}"
    using Cons.IH by blast
  with s1 show ?case by (auto simp: prog_simps)
qed (simp add: prog_simps)

text \<open>Thresholds that are marked stay quiet until their scope is cleared.\<close>

lemma mark_again:
  assumes "filterP (\<lambda>n. mark a b n t) ns s = (Inr news, s')"
  shows "\<exists>s''. filterP (\<lambda>n. mark a b n t') ns s' = (Inr [], s'') \<and> marked s'' = marked s'"
proof -
  have "marked s' = marked s \<union> {(a, b, n) | n. n \<in> set ns}"
    using mark_all [of a b t ns s] assms by auto
  moreover obtain news' s'' where "filterP (\<lambda>n. mark a b n t') ns s' = (Inr news', s'')"
    "set news' = {n \<in> set ns. (a, b, n) \<notin> marked s'}" "marked s'' = marked s' \<union> {(a, b, n) | n. n \<in> set ns}"
    using mark_all by blast
  ultimately have "set news' = {}" and "marked s'' = marked s'" by auto
  with \<open>filterP (\<lambda>n. mark a b n t') ns s' = (Inr news', s'')\<close> show ?thesis by simp
qed

lemma rearm:
  "\<exists>news s'. thenP (clear a b) (filterP (\<lambda>n. mark a b n t) ns) s = (Inr news, s')
    \<and> set news = set ns \<and> distinct news"
proof -
  obtain s1 where "clear a b s = (Inr (), s1)"
    "marked s1 = {m \<in> marked s. \<not> (fst m = a \<and> fst (snd m) = b)}"
    using clear_law by blast
  with mark_all [of a b t ns s1] show ?thesis by (auto simp: prog_simps)
qed

end

definition marked_set :: "db \<Rightarrow> (string \<times> string \<times> int) set" where
  "marked_set d = mark_key ` set (marks d)"

lemma mark_notification_run:
  "mark_notification a b n t d = (Inr ((a, b, n) \<notin> marked_set d),
     if (a, b, n) \<in> marked_set d then d
     else d\<lparr>marks := marks d @ [\<lparr>n_scope = a, n_scope_key = b, n_threshold = n, n_emitted_at = utc_iso t\<rparr>]\<rparr>)"
  by (simp only: mark_notification_def marked_set_def split: if_split) blast

lemma marked_snoc:
  "marked_set (d\<lparr>marks := marks d @ [r]\<rparr>) = insert (mark_key r) (marked_set d)"
  by (simp add: marked_set_def)

interpretation table_marks: mark_store marked_set mark_notification clear_notification_scope
proof (unfold_locales, goal_cases)
  case (1 a b n t d)
  have "mark_key \<lparr>n_scope = a, n_scope_key = b, n_threshold = n, n_emitted_at = utc_iso t\<rparr> = (a, b, n)"
    by (simp add: mark_key_def)
  then show ?case
    using marked_snoc by (cases "(a, b, n) \<in> marked_set d") (auto simp: mark_notification_run)
next
  case (2 a b d)
  have "f ` {r \<in> A. p (f r)} = {m \<in> f ` A. p m}" for f :: "mark_row \<Rightarrow> string \<times> string \<times> int" and A p
    by blast
  from this [of mark_key "set (marks d)" "\<lambda>m. \<not> (fst m = a \<and> fst (snd m) = b)"]
  show ?case by (simp add: clear_notification_scope_def marked_set_def mark_key_def)
qed

section \<open>The other tables\<close>

text \<open>Writing another table leaves the session view as it was.\<close>

lemma session_view [simp]:
  "current_session (d\<lparr>events := x1\<rparr>) = current_session d" "closed_usage k (d\<lparr>events := x1\<rparr>) = closed_usage k d"
  "current_session (d\<lparr>adjustments := x2\<rparr>) = current_session d" "closed_usage k (d\<lparr>adjustments := x2\<rparr>) = closed_usage k d"
  "current_session (d\<lparr>timer_table := x3\<rparr>) = current_session d" "closed_usage k (d\<lparr>timer_table := x3\<rparr>) = closed_usage k d"
  "current_session (d\<lparr>marks := x4\<rparr>) = current_session d" "closed_usage k (d\<lparr>marks := x4\<rparr>) = closed_usage k d"
  "current_session (d\<lparr>buckets := x5\<rparr>) = current_session d" "closed_usage k (d\<lparr>buckets := x5\<rparr>) = closed_usage k d"
  "current_session (d\<lparr>next_event_id := x6\<rparr>) = current_session d" "closed_usage k (d\<lparr>next_event_id := x6\<rparr>) = closed_usage k d"
  "current_session (d\<lparr>next_adjustment_id := x7\<rparr>) = current_session d"
  "closed_usage k (d\<lparr>next_adjustment_id := x7\<rparr>) = closed_usage k d"
  "current_session (d\<lparr>uuid_next := x8\<rparr>) = current_session d" "closed_usage k (d\<lparr>uuid_next := x8\<rparr>) = closed_usage k d"
  by (simp_all add: current_session_def closed_usage_def open_row_def)

text \<open>\<open>same_sessions d d'\<close>: the step from \<open>d\<close> to \<open>d'\<close> touched no session.\<close>

definition same_sessions :: "db \<Rightarrow> db \<Rightarrow> bool" where
  "same_sessions d d' = (current_session d' = current_session d \<and> (\<forall>k. closed_usage k d' = closed_usage k d))"

lemma same_sessions_refl [simp]: "same_sessions d d"
  by (simp add: same_sessions_def)

lemma same_sessions_trans: "same_sessions d d' \<Longrightarrow> same_sessions d' d'' \<Longrightarrow> same_sessions d d''"
  by (simp add: same_sessions_def)

lemma record_event_wp:
  assumes "db_inv d" and "\<And>n d'. db_inv d' \<Longrightarrow> same_sessions d d' \<Longrightarrow> other_tables d' = other_tables d \<Longrightarrow>
      uuid_source d' = uuid_source d \<Longrightarrow> Q n d'"
  shows "wp (record_event k t p i a) Q E d"
  using assms(1) by (simp add: assms(2) record_event_inv same_sessions_def other_tables_def)

lemma new_uuid_inv: "db_inv d \<Longrightarrow> db_inv (d\<lparr>uuid_next := Suc (uuid_next d)\<rparr>)"
  by (auto simp: db_inv_def uuids_fresh_def)

lemma new_uuid_wp:
  assumes "db_inv d" and "\<And>n d'. db_inv d' \<Longrightarrow> same_sessions d d' \<Longrightarrow> other_tables d' = other_tables d \<Longrightarrow>
      n \<noteq> [] \<Longrightarrow> Q n d'"
  shows "wp new_uuid Q E d"
proof -
  have "uuid_source d n \<noteq> []" for n using assms(1) by (simp add: db_inv_def uuids_fresh_def)
  with assms show ?thesis by (simp add: new_uuid_inv same_sessions_def other_tables_def)
qed

lemma save_timer_inv: "db_inv d \<Longrightarrow> db_inv (d\<lparr>timer_table := x\<rparr>)"
  by (simp add: db_inv_def uuids_fresh_def)

lemma load_save_timer:
  assumes "0 \<le> t_remaining t"
  shows "load_timer (snd (save_timer t d)) = t"
  using assms by (simp add: load_timer_def save_timer_def)

lemma save_timer_wp:
  assumes "db_inv d" and "\<And>d'. db_inv d' \<Longrightarrow> same_sessions d d' \<Longrightarrow> adjustments d' = adjustments d \<Longrightarrow>
      marks d' = marks d \<Longrightarrow> buckets d' = buckets d \<Longrightarrow> (0 \<le> t_remaining t \<longrightarrow> load_timer d' = t) \<Longrightarrow> Q () d'"
  shows "wp (save_timer t) Q E d"
  unfolding save_timer_def using assms(1)
  by (simp add: assms(2) save_timer_inv same_sessions_def load_timer_def)

lemma mark_notification_inv: "db_inv d \<Longrightarrow> db_inv (snd (mark_notification a b n t d))"
  by (auto simp: mark_notification_run db_inv_def uuids_fresh_def marked_set_def mark_key_def)

lemma mark_notification_wp:
  assumes "db_inv d" and "\<And>d'. db_inv d' \<Longrightarrow> same_sessions d d' \<Longrightarrow> adjustments d' = adjustments d \<Longrightarrow>
      timer_table d' = timer_table d \<Longrightarrow> buckets d' = buckets d \<Longrightarrow>
      marked_set d' = insert (a, b, n) (marked_set d) \<Longrightarrow> Q ((a, b, n) \<notin> marked_set d) d'"
  shows "wp (mark_notification a b n t) Q E d"
proof -
  define d' where "d' = snd (mark_notification a b n t d)"
  have run: "mark_notification a b n t d = (Inr ((a, b, n) \<notin> marked_set d), d')"
    by (simp add: mark_notification_run d'_def)
  moreover have "db_inv d'" using mark_notification_inv [OF assms(1)] by (simp add: d'_def)
  moreover have "marked_set d' = insert (a, b, n) (marked_set d)"
    using table_marks.mark_law [of a b n t d] run by auto
  ultimately have "Q ((a, b, n) \<notin> marked_set d) d'"
    by (intro assms(2)) (simp_all add: d'_def mark_notification_run same_sessions_def)
  with run show ?thesis by (simp add: wp_def)
qed

lemma clear_scope_wp:
  assumes "db_inv d" and "\<And>d'. db_inv d' \<Longrightarrow> same_sessions d d' \<Longrightarrow> adjustments d' = adjustments d \<Longrightarrow>
      timer_table d' = timer_table d \<Longrightarrow> buckets d' = buckets d \<Longrightarrow>
      marked_set d' = {m \<in> marked_set d. \<not> (fst m = a \<and> fst (snd m) = b)} \<Longrightarrow> Q () d'"
  shows "wp (clear_notification_scope a b) Q E d"
proof -
  obtain d' where d': "clear_notification_scope a b d = (Inr (), d')"
    "marked_set d' = {m \<in> marked_set d. \<not> (fst m = a \<and> fst (snd m) = b)}"
    using table_marks.clear_law by blast
  have "db_inv d'" "same_sessions d d'" "adjustments d' = adjustments d" "timer_table d' = timer_table d"
    "buckets d' = buckets d"
    using d'(1) assms(1)
    by (auto simp: clear_notification_scope_def db_inv_def uuids_fresh_def distinct_map_filter same_sessions_def)
  then have "Q () d'" using d'(2) by (rule assms(2))
  with d'(1) show ?thesis by (simp add: wp_def)
qed

lemma notification_thresholds_iff:
  "n \<in> notification_thresholds a b d \<longleftrightarrow> (a, b, n) \<in> marked_set d"
  by (auto simp: notification_thresholds_def marked_set_def mark_key_def)

lemma grant_adjustment_wp:
  assumes inv: "db_inv d" and "\<And>n d'. -86400 \<le> seconds \<Longrightarrow> seconds \<le> 86400 \<Longrightarrow> db_inv d' \<Longrightarrow> same_sessions d d' \<Longrightarrow>
      timer_table d' = timer_table d \<Longrightarrow> marks d' = marks d \<Longrightarrow> buckets d' = buckets d \<Longrightarrow>
      (\<And>k. adjustment_for_day k d' = adjustment_for_day k d + (if k = day_key then seconds else 0)) \<Longrightarrow> Q n d'"
    and "\<not> (-86400 \<le> seconds \<and> seconds \<le> 86400) \<Longrightarrow>
      E (ValueError ''adjustment must be between -24h and +24h'') d"
  shows "wp (grant_adjustment day_key seconds reason t) Q E d"
proof (cases "-86400 \<le> seconds \<and> seconds \<le> 86400")
  case True
  define d1 where "d1 = d\<lparr>adjustments := adjustments d @ [\<lparr>a_id = next_adjustment_id d, a_day_key = day_key,
      a_seconds = seconds, a_reason = take 200 reason, a_granted_at = utc_iso t\<rparr>],
    next_adjustment_id := next_adjustment_id d + 1\<rparr>"
  have d1: "db_inv d1"
    using inv True by (auto simp: db_inv_def d1_def uuids_fresh_def dest: ids_below_snoc)
  have "wp (record_event ''time_adjustment'' t
      (PDict [(''day_key'', PStr day_key), (''seconds'', PInt seconds), (''reason'', PStr (take 200 reason))]) None None)
      (\<lambda>_ d'. Q (next_adjustment_id d) d') E d1"
    using record_event_inv [OF d1] True
    by (simp, intro assms(2)) (simp_all add: d1_def same_sessions_def adjustment_for_day_def)
  with True show ?thesis by (simp add: grant_adjustment_def d1_def)
next
  case False
  then show ?thesis using assms(3) by (simp add: grant_adjustment_def)
qed

section \<open>Recovery, clearing and retention\<close>

lemma close_session_day:
  "db_inv d \<Longrightarrow> current_session d = None \<Longrightarrow> usage_for_day k d = closed_usage k d"
  by (simp add: usage_for_day_split)

text \<open>Recovery closes the orphaned session with the duration of its last checkpoint, so no
  day's usage changes.\<close>

lemma recover_wp:
  assumes inv: "db_inv d"
    and post: "\<And>d'. db_inv d' \<Longrightarrow> current_session d' = None \<Longrightarrow> (\<And>k. closed_usage k d' = usage_for_day k d) \<Longrightarrow>
      other_tables d' = other_tables d \<Longrightarrow> Q (open_row d) d'"
  shows "wp (recover_open_session t) Q E d"
proof (cases "open_row d")
  case None
  then have "current_session d = None" by (simp add: current_session_def)
  with None post [of d] inv show ?thesis by (simp add: recover_open_session_def close_session_day)
next
  case (Some r)
  then have cur: "current_session d = Some (s_id r, s_day_key r, s_duration r)"
    by (simp add: current_session_def)
  have nonneg: "0 \<le> s_duration r"
    using inv Some by (auto simp: db_inv_def open_row_def find_Some_iff)
  have "wp (close_session (s_id r) (s_duration r) t ''service_restart_recovery'') (\<lambda>_. Q (Some r)) E d"
  proof (rule close_session_wp [OF inv cur])
    fix d'
    assume d': "db_inv d'" "current_session d' = None" "other_tables d' = other_tables d"
      "\<And>k. closed_usage k d' = closed_usage k d + (if k = s_day_key r then max 0 (s_duration r) else 0)"
    with Some cur nonneg show "Q (Some r) d'"
      by (auto intro!: post [unfolded Some] simp: usage_for_day_split [OF inv])
  qed
  with Some show ?thesis by (simp add: recover_open_session_def)
qed

lemma clear_history_wp:
  assumes inv: "db_inv d"
    and "current_session d \<noteq> None \<Longrightarrow>
      E (DatabaseError ''history cannot be cleared while a game session is active'') d"
    and "\<And>d'. current_session d = None \<Longrightarrow> db_inv d' \<Longrightarrow> sessions d' = [] \<Longrightarrow> events d' = [] \<Longrightarrow> adjustments d' = [] \<Longrightarrow>
      marks d' = [] \<Longrightarrow> buckets d' = [] \<Longrightarrow> timer_table d' = timer_table d \<Longrightarrow> Q () d'"
  shows "wp clear_history Q E d"
proof -
  have "db_inv (d\<lparr>sessions := [], events := [], adjustments := [], marks := [], buckets := []\<rparr>)"
    using inv by (simp add: db_inv_def uuids_fresh_def ids_below_def)
  then show ?thesis
    using assms(2,3) by (auto simp: clear_history_def current_session_def)
qed

definition retained :: "int \<Rightarrow> instant \<Rightarrow> db \<Rightarrow> db" where
  "retained days now d = snd (enforce_retention days now d)"

lemma retained_tables:
  fixes days now d
  defines "cutoff \<equiv> utc_iso (now - days * day_us)"
  shows "sessions (retained days now d) = filter (\<lambda>r. \<not> ended_before cutoff r) (sessions d)"
    and "events (retained days now d) = filter (\<lambda>r. \<not> ev_occurred_at r < cutoff) (events d)"
    and "adjustments (retained days now d) = filter (\<lambda>r. \<not> a_granted_at r < cutoff) (adjustments d)"
    and "marks (retained days now d) = filter (\<lambda>r. \<not> n_emitted_at r < cutoff) (marks d)"
    and "buckets (retained days now d)
      = filter (\<lambda>r. \<not> b_day_key r < date_isoformat (date_of now - days)) (buckets d)"
    and "timer_table (retained days now d) = timer_table d"
    and "uuid_source (retained days now d) = uuid_source d" "uuid_next (retained days now d) = uuid_next d"
    and "next_event_id (retained days now d) = next_event_id d"
    and "next_adjustment_id (retained days now d) = next_adjustment_id d"
  by (simp_all add: retained_def enforce_retention_def transaction_def Let_def cutoff_def)

lemma filter_find: "\<forall>x \<in> set xs. p x \<longrightarrow> q x \<Longrightarrow> find p (filter q xs) = find p xs"
  by (induction xs) auto

lemma length_filter_filter: "length (filter p (filter q xs)) \<le> length (filter p xs)"
  by (induction xs) auto

lemma retained_inv: "db_inv d \<Longrightarrow> db_inv (retained days now d)"
  unfolding db_inv_def uuids_fresh_def retained_tables
  using length_filter_filter [of is_open _ "sessions d"]
  by (auto simp: distinct_map_filter simp del: filter_filter intro: ids_below_filter order_trans)

text \<open>Retention never removes the open session, so a closed row is all a day can lose.\<close>

lemma retained_current: "current_session (retained days now d) = current_session d"
  unfolding current_session_def open_row_def retained_tables
  by (subst filter_find) (auto simp: is_open_def ended_before_def)

lemma closed_usage_split:
  "closed_usage k d = closed_usage k (retained days now d)
     + sum_list (map s_duration (filter (ended_before (utc_iso (now - days * day_us)))
         (filter (\<lambda>r. s_day_key r = k \<and> \<not> is_open r) (sessions d))))"
  unfolding closed_usage_def retained_tables
  by (subst sum_list_filter_split [where p = "ended_before (utc_iso (now - days * day_us))"])
    (simp add: conj_commute conj_left_commute)

lemma retained_closed_le: "db_inv d \<Longrightarrow> closed_usage k (retained days now d) \<le> closed_usage k d"
  by (subst closed_usage_split [of k d days now])
    (auto simp: db_inv_def intro: sum_list_nonneg_map)

lemma retention_wp:
  assumes "db_inv d"
    and "\<And>c. db_inv (retained days now d) \<Longrightarrow> Q c (retained days now d)"
  shows "wp (enforce_retention days now) Q E d"
  using assms retained_inv [of d days now]
  by (simp add: wp_def retained_def enforce_retention_def transaction_def Let_def)

section \<open>Activity buckets\<close>

definition bucket_seconds :: "string \<times> int \<times> string \<Rightarrow> bucket_row list \<Rightarrow> real" where
  "bucket_seconds key bs = sum_list (map b_seconds (filter (\<lambda>b. bucket_key b = key) bs))"

lemma upsert_keys: "bucket_key ` set (upsert_bucket r bs) = insert (bucket_key r) (bucket_key ` set bs)"
  by (induction r bs rule: upsert_bucket.induct) (auto simp: bucket_key_def)

lemma upsert_distinct:
  "distinct (map bucket_key bs) \<Longrightarrow> distinct (map bucket_key (upsert_bucket r bs))"
proof (induction r bs rule: upsert_bucket.induct)
  case (2 r x xs)
  then show ?case using upsert_keys [of r xs] by (auto simp: bucket_key_def)
qed simp

lemma upsert_seconds:
  "distinct (map bucket_key bs) \<Longrightarrow>
     bucket_seconds key (upsert_bucket r bs) = bucket_seconds key bs + (if key = bucket_key r then b_seconds r else 0)"
proof (induction r bs rule: upsert_bucket.induct)
  case (2 r x xs)
  then show ?case by (auto simp: bucket_seconds_def bucket_key_def)
qed (simp add: bucket_seconds_def)

definition bucket_ok :: "bucket_row \<Rightarrow> bool" where
  "bucket_ok b = (0 \<le> b_index b \<and> b_index b < 6 \<and> 0 < b_seconds b)"

lemma upsert_ok: "bucket_ok r \<Longrightarrow> \<forall>b \<in> set bs. bucket_ok b \<Longrightarrow> \<forall>b \<in> set (upsert_bucket r bs). bucket_ok b"
  by (induction r bs rule: upsert_bucket.induct) (auto simp: bucket_ok_def)

lemma usage_bucket_row_ok: "usage_bucket_row e = Inr r \<Longrightarrow> bucket_ok r"
  by (auto simp: usage_bucket_row_def Let_def bucket_ok_def split: option.splits pyval.splits if_splits)

lemma usage_bucket_rows_ok: "usage_bucket_rows es = Inr rs \<Longrightarrow> \<forall>r \<in> set rs. bucket_ok r"
  by (induction es arbitrary: rs) (auto split: sum.splits dest: usage_bucket_row_ok)

lemma upserts:
  assumes "distinct (map bucket_key bs)" and "\<forall>b \<in> set bs. bucket_ok b" and "\<forall>r \<in> set rs. bucket_ok r"
  shows "distinct (map bucket_key (foldl (\<lambda>bs r. upsert_bucket r bs) bs rs))
    \<and> (\<forall>b \<in> set (foldl (\<lambda>bs r. upsert_bucket r bs) bs rs). bucket_ok b)
    \<and> bucket_seconds key (foldl (\<lambda>bs r. upsert_bucket r bs) bs rs)
      = bucket_seconds key bs + bucket_seconds key rs"
  using assms
proof (induction rs arbitrary: bs)
  case (Cons r rs)
  have r: "bucket_ok r" "\<forall>r \<in> set rs. bucket_ok r" using Cons.prems(3) by simp_all
  have "bucket_seconds key (r # rs) = (if key = bucket_key r then b_seconds r else 0) + bucket_seconds key rs"
    by (simp add: bucket_seconds_def)
  with Cons.IH [OF upsert_distinct [OF Cons.prems(1)] upsert_ok [OF r(1) Cons.prems(2)] r(2)]
    upsert_seconds [OF Cons.prems(1)]
  show ?case by simp
qed (simp add: bucket_seconds_def)

lemma add_usage_buckets_wp:
  assumes inv: "db_inv d"
    and "\<And>e. usage_bucket_rows es = Inl e \<Longrightarrow> E e d"
    and "\<And>rs d'. usage_bucket_rows es = Inr rs \<Longrightarrow> db_inv d' \<Longrightarrow> same_sessions d d' \<Longrightarrow> timer_table d' = timer_table d \<Longrightarrow>
      adjustments d' = adjustments d \<Longrightarrow> marks d' = marks d \<Longrightarrow>
      (\<And>key. bucket_seconds key (buckets d') = bucket_seconds key (buckets d) + bucket_seconds key rs) \<Longrightarrow>
      Q (int (length rs)) d'"
  shows "wp (add_usage_buckets es) Q E d"
proof (cases "usage_bucket_rows es")
  case (Inl e)
  with assms(2) show ?thesis by (simp add: add_usage_buckets_def)
next
  case (Inr rs)
  define d' where "d' = d\<lparr>buckets := foldl (\<lambda>bs r. upsert_bucket r bs) (buckets d) rs\<rparr>"
  have ok: "distinct (map bucket_key (buckets d))" "\<forall>b \<in> set (buckets d). bucket_ok b"
    using inv by (auto simp: db_inv_def bucket_ok_def)
  note ups = upserts [OF ok usage_bucket_rows_ok [OF Inr]]
  have "Q (int (length rs)) d'"
  proof (rule assms(3) [OF Inr])
    show "db_inv d'"
      using inv ups by (auto simp: db_inv_def d'_def bucket_ok_def uuids_fresh_def)
    show "bucket_seconds key (buckets d') = bucket_seconds key (buckets d) + bucket_seconds key rs" for key
      using ups by (simp add: d'_def)
  qed (simp_all add: d'_def same_sessions_def)
  with Inr show ?thesis by (cases rs) (simp_all add: add_usage_buckets_def d'_def)
qed

end
