(* ===== verification/I18n.thy ===== *)
theory I18n
  imports Schedule
begin

text \<open>
  \<open>i18n.py\<close>: the two text tables, \<open>tr\<close> with the interpolation of named fields, durations and
  the display names. The entry \<open>footer\<close> (arrows, outside Latin-1) is left out of both tables.
  No template uses a format specification or a doubled brace inside a field.
\<close>

section \<open>The tables\<close>

definition TEXT_en_states :: "(string \<times> string) list" where
  "TEXT_en_states =
     [(''unlimited'', ''Unlimited''), (''none'', ''None''), (''unknown'', ''unknown''), (''yes'', ''Yes''),
      (''no'', ''No''), (''idle'', ''idle''), (''running'', ''running''), (''paused'', ''paused''),
      (''expired'', ''expired''), (''inherit'', ''inherit''), (''notify_only'', ''notify only''),
      (''soft'', ''soft restriction''), (''close'', ''close game''), (''block'', ''block new games''),
      (''daily'', ''daily''), (''timer'', ''timer''), (''daily_limit'', ''daily limit''),
      (''timer_expired'', ''timer expired''), (''outside_allowed_period'', ''outside allowed period''),
      (''restriction_none'', ''none''), (''warning_exhausted_title'', ''Play time exhausted''),
      (''warning_exhausted_daily'', ''The configured daily allowance has been used.''),
      (''warning_exhausted_timer'', ''The configured timer allowance has been used.''),
      (''warning_remaining_title'', ''{minutes} {unit} remaining''),
      (''warning_remaining_title_one'', ''{minutes} {unit} remaining''),
      (''warning_remaining_title_many'', ''{minutes} {unit} remaining''), (''minute_one'', ''minute''),
      (''minute_many'', ''minutes''),
      (''warning_remaining_daily'', ''Daily allowance is nearing its limit.''),
      (''warning_remaining_timer'', ''Timer allowance is nearing its limit.'')]"

definition TEXT_en_views :: "(string \<times> string) list" where
  "TEXT_en_views =
     [(''service_error'', ''Service error: {message}''), (''action_failed'', ''Action failed: {message}''),
      (''summary'', ''Summary''), (''session_timer'', ''Session timer''),
      (''daily_limit_view'', ''Daily limit''), (''weekly'', ''Weekly''), (''history'', ''History''),
      (''settings'', ''Settings''), (''diagnostics'', ''Diagnostics''), (''played_today'', ''Played today''),
      (''remaining_today'', ''Remaining today''), (''detected_game'', ''Detected game''),
      (''game'', ''Game''), (''restriction'', ''Restriction''), (''level'', ''level''),
      (''next_warning'', ''Next warning''), (''next_reset'', ''Next reset''), (''state'', ''State''),
      (''remaining'', ''Remaining''), (''configured'', ''Configured''), (''action'', ''Action''),
      (''accounting_day'', ''Accounting day''), (''limit'', ''Limit''),
      (''exceptional_time'', ''Exceptional time''), (''played'', ''Played''),
      (''allowed_period'', ''Allowed period''), (''week'', ''Week''), (''total'', ''Total''),
      (''recent_sessions'', ''Recent sessions''), (''no_history'', ''No history''),
      (''configured_restriction_level'', ''Configured restriction level''), (''force_kill'', ''Force kill''),
      (''enabled'', ''enabled''), (''disabled'', ''disabled''), (''version'', ''Version''),
      (''python'', ''Python''), (''detector'', ''Detector''),
      (''database_quick_check'', ''Database quick_check''), (''database_schema'', ''DB schema''),
      (''decky_connected'', ''Decky connected''), (''notify_send'', ''notify-send''),
      (''session_type'', ''Session type''), (''detected_exit'', ''detected exit''),
      (''game_changed'', ''game changed''), (''daily_reset'', ''daily reset''),
      (''service_shutdown'', ''service shutdown'')]"

definition TEXT_en_commands :: "(string \<times> string) list" where
  "TEXT_en_commands =
     [
      (''timer_controls'', ''S starts 30m '' @ [CHR 0xB7] @ '' P pauses '' @ [CHR 0xB7] @ '' R resumes '' @ [CHR 0xB7] @ '' C cancels '' @ [CHR 0xB7] @ '' +/- changes 5m''),
      (''grant_hint'', ''B grants 15 exceptional minutes for today.''),
      (''level_hint'', ''L cycles restriction levels 0-3.''),
      (''schedule_hint'', ''Edit the complete weekly schedule in config.json or with the CLI.''),
      (''timer_started'', ''30-minute timer started''), (''timer_paused'', ''Timer paused''),
      (''timer_resumed'', ''Timer resumed''), (''timer_cancelled'', ''Timer cancelled''),
      (''minutes_added'', ''Added 5 minutes''), (''minutes_removed'', ''Removed 5 minutes''),
      (''daily_time_added'', ''Added 15 minutes for today''),
      (''confirm_level'', ''Press L again to confirm restriction level {level}''),
      (''level_set'', ''Restriction level set to {level}''),
      (''local_guardian'', ''Local SteamOS play-time guardian''), (''show_status'', ''show current status''),
      (''open_tui'', ''open the Desktop Mode text UI''), (''print_json'', ''print machine-readable JSON''),
      (''override_socket'', ''override the Unix socket path''),
      (''override_language'', ''override the configured interface language''),
      (''run_daemon'', ''run the user daemon''), (''force_simulation'', ''force simulation detector''),
      (''no_foreground_log'', ''do not mirror JSON logs to stderr''),
      (''diagnose'', ''show a non-sensitive diagnostic snapshot''),
      (''config'', ''read or update configuration''),
      (''config_patch'', ''JSON object or @path/to/file.json''),
      (''manage_timer'', ''manage the session timer''),
      (''timer_action_help'', ''override timer.default_action for this timer''),
      (''bonus'', ''grant or remove exceptional daily time''),
      (''bonus_reason'', ''reason for the exceptional time''),
      (''history_command'', ''list, export, or clear history''), (''history_format'', ''export format''),
      (''history_output'', ''output file''), (''history_confirm'', ''confirm permanent history deletion''),
      (''summary_command'', ''daily or weekly summaries''), (''simulate'', ''emit a simulator event''),
      (''exported_history'', ''Exported {format} history to {path}'')]"

definition TEXT_en :: "(string \<times> string) list" where
  "TEXT_en = TEXT_en_states @ TEXT_en_views @ TEXT_en_commands"

definition TEXT_es_states :: "(string \<times> string) list" where
  "TEXT_es_states =
     [(''unlimited'', ''Sin l'' @ [CHR 0xED] @ ''mite''), (''none'', ''Ninguno''),
      (''unknown'', ''desconocido''), (''yes'', ''S'' @ [CHR 0xED]), (''no'', ''No''),
      (''idle'', ''inactivo''), (''running'', ''en marcha''), (''paused'', ''en pausa''),
      (''expired'', ''agotado''), (''inherit'', ''heredada''), (''notify_only'', ''solo avisar''),
      (''soft'', ''restricci'' @ [CHR 0xF3] @ ''n suave''), (''close'', ''cerrar juego''),
      (''block'', ''bloquear juegos nuevos''), (''daily'', ''diario''), (''timer'', ''temporizador''),
      (''daily_limit'', ''l'' @ [CHR 0xED] @ ''mite diario''), (''timer_expired'', ''temporizador agotado''),
      (''outside_allowed_period'', ''fuera del horario permitido''), (''restriction_none'', ''ninguna''),
      (''warning_exhausted_title'', ''Tiempo de juego agotado''),
      (''warning_exhausted_daily'', ''Se ha agotado el tiempo diario configurado.''),
      (''warning_exhausted_timer'', ''Se ha agotado el tiempo del temporizador configurado.''),
      (''warning_remaining_title'', ''Queda {minutes} {unit}''),
      (''warning_remaining_title_one'', ''Queda {minutes} {unit}''),
      (''warning_remaining_title_many'', ''Quedan {minutes} {unit}''), (''minute_one'', ''minuto''),
      (''minute_many'', ''minutos''),
      (''warning_remaining_daily'', ''El tiempo diario est'' @ [CHR 0xE1] @ '' cerca de su l'' @ [CHR 0xED] @ ''mite.''),
      (''warning_remaining_timer'', ''El temporizador est'' @ [CHR 0xE1] @ '' cerca de su l'' @ [CHR 0xED] @ ''mite.'')]"

definition TEXT_es_views :: "(string \<times> string) list" where
  "TEXT_es_views =
     [(''service_error'', ''Error del servicio: {message}''),
      (''action_failed'', ''La acci'' @ [CHR 0xF3] @ ''n ha fallado: {message}''),
      (''summary'', ''Resumen''), (''session_timer'', ''Temporizador de sesi'' @ [CHR 0xF3] @ ''n''),
      (''daily_limit_view'', ''L'' @ [CHR 0xED] @ ''mite diario''), (''weekly'', ''Semanal''),
      (''history'', ''Historial''), (''settings'', ''Ajustes''),
      (''diagnostics'', ''Diagn'' @ [CHR 0xF3] @ ''stico''), (''played_today'', ''Jugado hoy''),
      (''remaining_today'', ''Resta hoy''), (''detected_game'', ''Juego detectado''), (''game'', ''Juego''),
      (''restriction'', ''Restricci'' @ [CHR 0xF3] @ ''n''), (''level'', ''nivel''),
      (''next_warning'', ''Pr'' @ [CHR 0xF3] @ ''ximo aviso''),
      (''next_reset'', ''Pr'' @ [CHR 0xF3] @ ''ximo reinicio''), (''state'', ''Estado''),
      (''remaining'', ''Restante''), (''configured'', ''Configurado''),
      (''action'', ''Acci'' @ [CHR 0xF3] @ ''n''), (''accounting_day'', ''D'' @ [CHR 0xED] @ ''a contable''),
      (''limit'', ''L'' @ [CHR 0xED] @ ''mite''), (''exceptional_time'', ''Tiempo excepcional''),
      (''played'', ''Jugado''), (''allowed_period'', ''Horario permitido''), (''week'', ''Semana''),
      (''total'', ''Total''), (''recent_sessions'', ''Sesiones recientes''),
      (''no_history'', ''Sin historial''),
      (''configured_restriction_level'', ''Nivel de restricci'' @ [CHR 0xF3] @ ''n configurado''),
      (''force_kill'', ''Cierre forzado''), (''enabled'', ''activado''), (''disabled'', ''desactivado''),
      (''version'', ''Versi'' @ [CHR 0xF3] @ ''n''), (''python'', ''Python''), (''detector'', ''Detector''),
      (''database_quick_check'', ''Comprobaci'' @ [CHR 0xF3] @ ''n r'' @ [CHR 0xE1] @ ''pida de la base de datos''),
      (''database_schema'', ''Esquema de BD''), (''decky_connected'', ''Decky conectado''),
      (''notify_send'', ''notify-send''), (''session_type'', ''Tipo de sesi'' @ [CHR 0xF3] @ ''n''),
      (''detected_exit'', ''salida detectada''), (''game_changed'', ''cambio de juego''),
      (''daily_reset'', ''reinicio diario''), (''service_shutdown'', ''apagado del servicio'')]"

definition TEXT_es_commands :: "(string \<times> string) list" where
  "TEXT_es_commands =
     [
      (''timer_controls'', ''S inicia 30 min '' @ [CHR 0xB7] @ '' P pausa '' @ [CHR 0xB7] @ '' R reanuda '' @ [CHR 0xB7] @ '' C cancela '' @ [CHR 0xB7] @ '' +/- cambia 5 min''),
      (''grant_hint'', ''B concede 15 minutos excepcionales para hoy.''),
      (''level_hint'', ''L cambia entre los niveles 0-3.''),
      (''schedule_hint'', ''Edita el horario semanal completo en config.json o con la CLI.''),
      (''timer_started'', ''Temporizador de 30 minutos iniciado''),
      (''timer_paused'', ''Temporizador en pausa''), (''timer_resumed'', ''Temporizador reanudado''),
      (''timer_cancelled'', ''Temporizador cancelado''),
      (''minutes_added'', ''Se han a'' @ [CHR 0xF1] @ ''adido 5 minutos''),
      (''minutes_removed'', ''Se han quitado 5 minutos''),
      (''daily_time_added'', ''Se han a'' @ [CHR 0xF1] @ ''adido 15 minutos para hoy''),
      (''confirm_level'', ''Pulsa L otra vez para confirmar el nivel de restricci'' @ [CHR 0xF3] @ ''n {level}''),
      (''level_set'', ''Nivel de restricci'' @ [CHR 0xF3] @ ''n establecido en {level}''),
      (''local_guardian'', ''Control local de tiempo de juego para SteamOS''),
      (''show_status'', ''mostrar el estado actual''),
      (''open_tui'', ''abrir la interfaz de texto del modo escritorio''),
      (''print_json'', ''mostrar JSON para m'' @ [CHR 0xE1] @ ''quinas''),
      (''override_socket'', ''anular la ruta del socket Unix''),
      (''override_language'', ''anular el idioma de interfaz configurado''),
      (''run_daemon'', ''ejecutar el daemon de usuario''),
      (''force_simulation'', ''forzar el detector de simulaci'' @ [CHR 0xF3] @ ''n''),
      (''no_foreground_log'', ''no duplicar los registros JSON en stderr''),
      (''diagnose'', ''mostrar un diagn'' @ [CHR 0xF3] @ ''stico no sensible''),
      (''config'', ''leer o actualizar la configuraci'' @ [CHR 0xF3] @ ''n''),
      (''config_patch'', ''objeto JSON o @ruta/al/archivo.json''),
      (''manage_timer'', ''gestionar el temporizador de sesi'' @ [CHR 0xF3] @ ''n''),
      (''timer_action_help'', ''anular timer.default_action para este temporizador''),
      (''bonus'', ''conceder o quitar tiempo diario excepcional''),
      (''bonus_reason'', ''motivo del tiempo excepcional''),
      (''history_command'', ''listar, exportar o borrar el historial''),
      (''history_format'', ''formato de exportaci'' @ [CHR 0xF3] @ ''n''),
      (''history_output'', ''archivo de salida''),
      (''history_confirm'', ''confirmar el borrado permanente del historial''),
      (''summary_command'', ''res'' @ [CHR 0xFA] @ ''menes diarios o semanales''),
      (''simulate'', ''emitir un evento de simulaci'' @ [CHR 0xF3] @ ''n''),
      (''exported_history'', ''Historial {format} exportado a {path}'')]"

definition TEXT_es :: "(string \<times> string) list" where
  "TEXT_es = TEXT_es_states @ TEXT_es_views @ TEXT_es_commands"

lemmas text_defs = TEXT_en_def TEXT_en_states_def TEXT_en_views_def TEXT_en_commands_def
  TEXT_es_def TEXT_es_states_def TEXT_es_views_def TEXT_es_commands_def

datatype Language = EN | ES

definition language :: "string option \<Rightarrow> Language" where
  "language v = (if v = Some ''es'' then ES else EN)"

definition TEXT :: "Language \<Rightarrow> (string \<times> string) list" where
  "TEXT l = (case l of EN \<Rightarrow> TEXT_en | ES \<Rightarrow> TEXT_es)"

section \<open>Interpolation\<close>

definition single_brace :: "char \<Rightarrow> py_exc" where
  "single_brace c = ValueError (''Single '' @ [CHR 0x27, c, CHR 0x27] @ '' encountered in format string'')"

definition open_field :: py_exc where
  "open_field = ValueError (''expected '' @ [CHR 0x27, CHR 0x7D, CHR 0x27] @ '' before end of string'')"

text \<open>
  \<open>template.format(**values)\<close>: the scan is outside a field (\<open>None\<close>) or inside one, with the
  name read so far.
\<close>

fun str_format :: "string option \<Rightarrow> string \<Rightarrow> (string \<times> string) list \<Rightarrow> py_exc + string" where
  "str_format None [] vs = Inr []"
| "str_format (Some n) [] vs = Inl open_field"
| "str_format None (c # cs) vs =
     (if c = CHR 0x7B then
        (case cs of
           [] \<Rightarrow> Inl (single_brace c)
         | d # ds \<Rightarrow> if d = CHR 0x7B then map_sum id (Cons d) (str_format None ds vs)
             else str_format (Some []) cs vs)
      else if c = CHR 0x7D then
        (case cs of
           [] \<Rightarrow> Inl (single_brace c)
         | d # ds \<Rightarrow> if d = CHR 0x7D then map_sum id (Cons d) (str_format None ds vs)
             else Inl (single_brace c))
      else map_sum id (Cons c) (str_format None cs vs))"
| "str_format (Some n) (c # cs) vs =
     (if c = CHR 0x7D then
        (case map_of vs n of
           None \<Rightarrow> Inl (KeyError n)
         | Some v \<Rightarrow> map_sum id (append v) (str_format None cs vs))
      else str_format (Some (n @ [c])) cs vs)"

definition template :: "Language \<Rightarrow> string \<Rightarrow> string" where
  "template l key =
     (case map_of (TEXT l) key of
        Some t \<Rightarrow> t
      | None \<Rightarrow> (case map_of TEXT_en key of Some t \<Rightarrow> t | None \<Rightarrow> key))"

definition tr :: "string option \<Rightarrow> string \<Rightarrow> (string \<times> string) list \<Rightarrow> py_exc + string" where
  "tr selected key vs = str_format None (template (language selected) key) vs"

text \<open>The names of the fields of a template.\<close>

fun field_names :: "string option \<Rightarrow> string \<Rightarrow> string list" where
  "field_names None [] = []"
| "field_names (Some n) [] = []"
| "field_names None (c # cs) = (if c = CHR 0x7B then field_names (Some []) cs else field_names None cs)"
| "field_names (Some n) (c # cs) = (if c = CHR 0x7D then n # field_names None cs else field_names (Some (n @ [c])) cs)"

section \<open>Display values\<close>

definition format_duration :: "real option \<Rightarrow> string option \<Rightarrow> py_exc + string" where
  "format_duration seconds selected =
     (case seconds of
        None \<Rightarrow> tr selected ''unlimited'' []
      | Some s \<Rightarrow>
          let v = max 0 (py_trunc s);
              hours = v div 3600; minutes = v mod 3600 div 60; secs = v mod 3600 mod 60;
              minute_unit = (if language selected = ES then ''min'' else ''m'')
          in Inr (if hours \<noteq> 0
                  then int_str hours @ ''h '' @ pad_int 2 minutes @ minute_unit @ '' '' @ pad_int 2 secs @ ''s''
                  else int_str minutes @ minute_unit @ '' '' @ pad_int 2 secs @ ''s''))"

definition display_timer_state :: "string \<Rightarrow> string option \<Rightarrow> py_exc + string" where
  "display_timer_state v selected =
     tr selected (if v \<in> {''idle'', ''running'', ''paused'', ''expired''} then v else ''unknown'') []"

definition display_scope :: "string \<Rightarrow> string option \<Rightarrow> py_exc + string" where
  "display_scope v selected = tr selected (if v \<in> {''daily'', ''timer''} then v else ''none'') []"

definition display_restriction_reason :: "string \<Rightarrow> string option \<Rightarrow> py_exc + string" where
  "display_restriction_reason v selected =
     tr selected (if v = ''none'' then ''restriction_none'' else v) []"

definition display_timer_action :: "string \<Rightarrow> string option \<Rightarrow> py_exc + string" where
  "display_timer_action v selected =
     tr selected (if v \<in> {''inherit'', ''notify_only'', ''soft'', ''close'', ''block''} then v else ''unknown'') []"

definition display_session_reason :: "string \<Rightarrow> string option \<Rightarrow> py_exc + string" where
  "display_session_reason v selected =
     tr selected (if v \<in> {''detected_exit'', ''game_changed'', ''daily_reset'', ''service_shutdown''}
                  then v else ''unknown'') []"

section \<open>Completeness of the tables\<close>

text \<open>The tables have the same keys, and the two texts of a key the same fields.\<close>

lemma same_keys: "map fst TEXT_es = map fst TEXT_en"
  by (simp add: text_defs)

lemma same_fields: "map (field_names None \<circ> snd) TEXT_es = map (field_names None \<circ> snd) TEXT_en"
  unfolding text_defs by simp

text \<open>A template whose braces pair up, with no doubled brace and no brace inside a field.\<close>

fun well_braced :: "bool \<Rightarrow> string \<Rightarrow> bool" where
  "well_braced inside [] = (\<not> inside)"
| "well_braced inside (c # cs) =
     (if c = CHR 0x7B then \<not> inside \<and> (cs \<noteq> [] \<and> hd cs \<noteq> CHR 0x7B) \<and> well_braced True cs
      else if c = CHR 0x7D then inside \<and> well_braced False cs
      else well_braced inside cs)"

lemma str_format_total:
  "well_braced (m \<noteq> None) t \<Longrightarrow> set (field_names m t) \<subseteq> fst ` set vs \<Longrightarrow> \<exists>r. str_format m t vs = Inr r"
proof (induction m t vs rule: str_format.induct)
  case (3 c cs vs)
  then show ?case by (cases cs) (auto split: if_splits)
next
  case (4 n c cs vs)
  show ?case
  proof (cases "c = CHR 0x7D")
    case True
    with 4 obtain v where "map_of vs n = Some v"
      by (auto dest: weak_map_of_SomeI)
    moreover from this True 4 have "\<exists>r. str_format None cs vs = Inr r" by auto
    ultimately show ?thesis using True by auto
  next
    case False
    with 4 show ?thesis by (auto split: if_splits)
  qed
qed simp_all

lemma texts_well_braced: "list_all (well_braced False \<circ> snd) (TEXT l)"
  by (cases l) (simp_all add: TEXT_def text_defs)

lemma template_in_text:
  assumes "key \<in> fst ` set TEXT_en"
  shows "(key, template l key) \<in> set (TEXT l)"
proof -
  have "fst ` set (TEXT l) = fst ` set TEXT_en"
    using arg_cong [OF same_keys, of set] by (cases l) (simp_all add: TEXT_def)
  with assms obtain t where "map_of (TEXT l) key = Some t"
    by (metis imageE option.exhaust map_of_eq_None_iff)
  then show ?thesis by (simp add: template_def map_of_SomeD)
qed

lemma fields_agree:
  assumes "key \<in> fst ` set TEXT_en"
  shows "field_names None (template ES key) = field_names None (template EN key)"
proof -
  have *: "map_option (field_names None) (map_of xs k) = map_option (field_names None) (map_of ys k)"
    if "map fst xs = map fst ys" "map (field_names None \<circ> snd) xs = map (field_names None \<circ> snd) ys" for xs ys and k :: string
    using that
  proof (induction xs arbitrary: ys)
    case (Cons x xs)
    then show ?case by (cases ys; cases x) auto
  qed simp
  have "map_of TEXT_en key \<noteq> None" "map_of TEXT_es key \<noteq> None"
    using assms arg_cong [OF same_keys, of set] by (auto simp: map_of_eq_None_iff)
  with * [OF same_keys same_fields, of key] show ?thesis
    by (auto simp: template_def TEXT_def)
qed

lemma tr_renders:
  assumes "key \<in> fst ` set TEXT_en" and "set (field_names None (template EN key)) \<subseteq> fst ` set vs"
  shows "\<exists>r. tr l key vs = Inr r"
  unfolding tr_def
proof (rule str_format_total)
  show "well_braced (None \<noteq> None) (template (language l) key)"
    using template_in_text [OF assms(1), of "language l"] texts_well_braced [of "language l"]
    by (force simp: list_all_iff)
  show "set (field_names None (template (language l) key)) \<subseteq> fst ` set vs"
    using assms fields_agree by (cases "language l") auto
qed

text \<open>The texts of a warning always render.\<close>

lemma tr_renders_lookup:
  assumes "map_of TEXT_en_states key = Some t" and "set (field_names None t) \<subseteq> fst ` set vs"
  shows "\<exists>r. tr l key vs = Inr r"
proof (rule tr_renders)
  have look: "map_of TEXT_en key = Some t" using assms(1) by (simp add: TEXT_en_def)
  then show "key \<in> fst ` set TEXT_en" using map_of_SomeD by force
  show "set (field_names None (template EN key)) \<subseteq> fst ` set vs"
    using look assms(2) by (simp add: template_def TEXT_def)
qed

lemma warning_texts:
  "map_of TEXT_en_states ''warning_exhausted_title'' = Some ''Play time exhausted''"
  "map_of TEXT_en_states ''warning_exhausted_daily'' = Some ''The configured daily allowance has been used.''"
  "map_of TEXT_en_states ''warning_exhausted_timer'' = Some ''The configured timer allowance has been used.''"
  "map_of TEXT_en_states ''warning_remaining_daily'' = Some ''Daily allowance is nearing its limit.''"
  "map_of TEXT_en_states ''warning_remaining_timer'' = Some ''Timer allowance is nearing its limit.''"
  "map_of TEXT_en_states ''warning_remaining_title_one'' = Some ''{minutes} {unit} remaining''"
  "map_of TEXT_en_states ''warning_remaining_title_many'' = Some ''{minutes} {unit} remaining''"
  "map_of TEXT_en_states ''minute_one'' = Some ''minute''" "map_of TEXT_en_states ''minute_many'' = Some ''minutes''"
  "map_of TEXT_en_states ''daily_limit'' = Some ''daily limit''" "map_of TEXT_en_states ''timer'' = Some ''timer''"
  by (simp_all add: TEXT_en_states_def)

lemma warning_key_exhausted: "\<exists>r. tr l ''warning_exhausted_title'' [] = Inr r"
  by (rule tr_renders_lookup, rule warning_texts) simp

lemma warning_key_unit: "\<exists>r. tr l ''minute_one'' [] = Inr r" "\<exists>r. tr l ''minute_many'' [] = Inr r"
  by (rule tr_renders_lookup, rule warning_texts, simp)+

lemma warning_key_scope: "\<exists>r. tr l ''daily_limit'' [] = Inr r" "\<exists>r. tr l ''timer'' [] = Inr r"
  by (rule tr_renders_lookup, rule warning_texts, simp)+

lemma warning_key_body:
  "\<exists>r. tr l ''warning_exhausted_daily'' [] = Inr r" "\<exists>r. tr l ''warning_exhausted_timer'' [] = Inr r"
  "\<exists>r. tr l ''warning_remaining_daily'' [] = Inr r" "\<exists>r. tr l ''warning_remaining_timer'' [] = Inr r"
  by (rule tr_renders_lookup, rule warning_texts, simp)+

lemma warning_key_title:
  "\<exists>r. tr l ''warning_remaining_title_one'' [(''minutes'', a), (''unit'', b)] = Inr r"
  "\<exists>r. tr l ''warning_remaining_title_many'' [(''minutes'', a), (''unit'', b)] = Inr r"
  by (rule tr_renders_lookup, rule warning_texts, simp)+

end
