(* ===== verification/Engine.thy ===== *)
theory Engine
  imports Ledger I18n
begin

text \<open>
  \<open>engine.py\<close>: the state of \<open>GuardianEngine\<close> as a record, and a program per method, which
  returns the emitted events and leaves the mutations made before a raise. The clock is the
  one of \<open>FakeClock\<close>: it stands still while an operation runs. The tables are the engine's
  field \<open>storage\<close>; \<open>store\<close> runs a storage method there.
\<close>

section \<open>State\<close>

record engine =
  storage :: db
  cfg :: config
  clock :: fake_clock
  day_key :: string
  played_today :: real
  current_game :: "game_identity option"
  session_id :: "string option"
  session_duration :: real
  timer :: timer_snapshot
  suspended :: bool
  restriction_reason :: restriction_reason
  restriction_level :: int
  last_tick_mono :: real
  last_tick_wall :: instant
  last_checkpoint_mono :: real
  last_timer_persist_mono :: real
  last_offset_seconds :: int
  usage_bucket_timezone :: zone
  pending_usage_buckets :: "((string \<times> int \<times> string \<times> string option \<times> string) \<times> real) list"
  initial_events :: "domain_event list"

type_synonym 'a engine_prog = "(engine, 'a) prog"
type_synonym event_prog = "domain_event list engine_prog"

definition store :: "'a db_prog \<Rightarrow> 'a engine_prog" where
  "store m = (\<lambda>e. case m (storage e) of (r, d) \<Rightarrow> (r, e\<lparr>storage := d\<rparr>))"

definition now_utc :: "engine \<Rightarrow> instant" where
  "now_utc e = current_utc (clock e)"

definition monotonic :: "engine \<Rightarrow> real" where
  "monotonic e = current_monotonic (clock e)"

definition timer_action_level :: "string \<Rightarrow> int option" where
  "timer_action_level a =
     (if a = ''notify_only'' then Some 0 else if a = ''soft'' then Some 1
      else if a = ''close'' then Some 2 else if a = ''block'' then Some 3 else None)"

definition timer_actions :: "string list" where
  "timer_actions = [''inherit'', ''notify_only'', ''soft'', ''close'', ''block'']"

section \<open>Small operations\<close>

definition thresholds_of :: "config \<Rightarrow> int list" where
  "thresholds_of c = map (\<lambda>m. m * 60) (c_threshold_minutes c)"

definition engine_event :: "string \<Rightarrow> pyval \<Rightarrow> string \<Rightarrow> engine \<Rightarrow> domain_event" where
  "engine_event kind payload severity e =
     \<lparr>e_kind = kind, e_occurred_at = now_utc e, e_payload = payload, e_severity = severity\<rparr>"

definition engine_record_event :: "string \<Rightarrow> pyval \<Rightarrow> string \<Rightarrow> domain_event engine_prog" where
  "engine_record_event kind payload severity =
     bindP (gets (engine_event kind payload severity)) (\<lambda>event.
     bindP (gets (\<lambda>e. (session_id e, Option.bind (current_game e) g_app_id))) (\<lambda>(sid, app_id).
     thenP (store (record_event kind (e_occurred_at event) payload sid app_id)) (ret event)))"

definition same_game :: "game_identity \<Rightarrow> game_identity \<Rightarrow> bool" where
  "same_game left right =
     (if truthy (g_app_id left) \<and> truthy (g_app_id right) then g_app_id left = g_app_id right
      else str_casefold (g_name left) = str_casefold (g_name right))"

definition validate_game :: "game_identity \<Rightarrow> py_exc + unit" where
  "validate_game game =
     (if str_strip (g_name game) = [] \<or> length (g_name game) > 200
      then Inl (DomainError ''game name must contain 1..200 characters'')
      else if (case g_app_id game of None \<Rightarrow> False | Some a \<Rightarrow> length a > 32 \<or> \<not> str_isdigit a)
      then Inl (DomainError ''app_id must be a decimal string'')
      else if list_ex (\<lambda>pid. pid \<le> 0) (g_pids game) then Inl (DomainError ''PIDs must be positive'')
      else Inr ())"

definition split_elapsed_at_boundary :: "real \<Rightarrow> instant \<Rightarrow> instant \<Rightarrow> instant \<Rightarrow> real \<times> real" where
  "split_elapsed_at_boundary monotonic_delta previous_wall current_wall boundary =
     (let wall_delta = seconds_between current_wall previous_wall
      in if monotonic_delta \<le> 0 then (0, 0)
         else if wall_delta \<le> 0 \<or> boundary \<le> previous_wall then (0, monotonic_delta)
         else if boundary \<ge> current_wall then (monotonic_delta, 0)
         else let ratio = max 0 (min 1 (seconds_between boundary previous_wall / wall_delta));
                  first_part = monotonic_delta * ratio
              in (first_part, monotonic_delta - first_part))"

definition compute_day_key :: "engine \<Rightarrow> string" where
  "compute_day_key e = accounting_day_key (c_timezone (cfg e)) (c_reset_at (cfg e)) (now_utc e)"

definition utc_offset :: "engine \<Rightarrow> int" where
  "utc_offset e = zone_offset (c_timezone (cfg e)) (now_utc e)"

definition effective_daily_limit :: "engine \<Rightarrow> int option" where
  "effective_daily_limit e =
     (if \<not> c_daily_enabled (cfg e) then None
      else let day = accounting_day (c_timezone (cfg e)) (c_reset_at (cfg e)) (now_utc e)
           in (case limit_for_day (cfg e) day of
                 None \<Rightarrow> None
               | Some base \<Rightarrow> Some (max 0 (base + adjustment_for_day (day_key e) (storage e)))))"

section \<open>Activity buckets\<close>

fun probe_block :: "zone \<Rightarrow> date \<times> int \<Rightarrow> nat \<Rightarrow> instant \<Rightarrow> instant option" where
  "probe_block z block 0 probe = None"
| "probe_block z block (Suc n) probe =
     (let local = to_local z probe
      in if (date_of local, hour_of local div 4) \<noteq> block then Some probe
         else probe_block z block n (probe + 60000000))"

definition next_usage_bucket_boundary :: "zone \<Rightarrow> instant \<Rightarrow> instant" where
  "next_usage_bucket_boundary z v =
     (let local = to_local z v;
          bucket_index = hour_of local div 4;
          hour = (bucket_index + 1) * 4;
          target_day = (if hour \<ge> 24 then date_of local + 1 else date_of local);
          target_hour = (if hour \<ge> 24 then 0 else hour);
          candidate = to_utc z False (at_time target_day (target_hour * 3600000000))
      in if candidate > v then candidate
         else (case probe_block z (date_of local, bucket_index) 242 (v - v mod 60000000 + 60000000) of
                 Some probe \<Rightarrow> probe
               | None \<Rightarrow> v + 1000000))"

type_synonym pending = "((string \<times> int \<times> string \<times> string option \<times> string) \<times> real) list"

definition app_key_of :: "game_identity \<Rightarrow> string" where
  "app_key_of game =
     (if truthy (g_app_id game) \<and> g_app_id game \<noteq> Some ''0'' then ''app:'' @ the (g_app_id game)
      else ''name:'' @ str_casefold (g_name game))"

definition pending_get :: "string \<times> int \<times> string \<times> string option \<times> string \<Rightarrow> pending \<Rightarrow> real" where
  "pending_get key p = (case map_of p key of None \<Rightarrow> 0 | Some x \<Rightarrow> x)"

text \<open>The loop of \<open>_queue_usage_buckets\<close>; every round moves the cursor, or is the last.\<close>

function queue_loop ::
    "zone \<Rightarrow> game_identity \<Rightarrow> string \<Rightarrow> real \<Rightarrow> real \<Rightarrow> instant \<Rightarrow> instant \<Rightarrow> real \<Rightarrow> pending \<Rightarrow> pending" where
  "queue_loop z game k seconds wall_seconds stop cursor remaining pending =
     (if \<not> (cursor < stop \<and> remaining > 0) then pending
      else let boundary = next_usage_bucket_boundary z cursor;
               segment_end = min boundary stop;
               segment_wall_seconds = seconds_between segment_end cursor
           in if segment_end \<le> cursor then pending
              else let allocated = (if segment_end = stop then remaining
                                    else seconds * segment_wall_seconds / wall_seconds);
                       remaining' = (if segment_end = stop then remaining else max 0 (remaining - allocated));
                       key = (k, hour_of (to_local z cursor) div 4, app_key_of game, g_app_id game, g_name game)
                   in queue_loop z game k seconds wall_seconds stop segment_end remaining'
                        (alist_set key (pending_get key pending + allocated) pending))"
  by pat_completeness auto
termination
  by (relation "measure (\<lambda>(z, game, k, seconds, wall_seconds, stop, cursor, remaining, pending). nat (stop - cursor))")
    (auto simp: min_def)

definition queue_usage_buckets :: "game_identity \<Rightarrow> string \<Rightarrow> instant \<Rightarrow> instant \<Rightarrow> real \<Rightarrow> unit engine_prog" where
  "queue_usage_buckets game k interval_start interval_end seconds =
     modify (\<lambda>e. if interval_end \<le> interval_start \<or> seconds \<le> 0 then e
       else e\<lparr>pending_usage_buckets := queue_loop (usage_bucket_timezone e) game k seconds
         (seconds_between interval_end interval_start) interval_end interval_start seconds
         (pending_usage_buckets e)\<rparr>)"

definition bucket_entry :: "(string \<times> int \<times> string \<times> string option \<times> string) \<times> real \<Rightarrow> pyval" where
  "bucket_entry p = (case p of ((k, bucket_index, app_key, app_id, app_name), seconds) \<Rightarrow> PDict
     [(''day_key'', PStr k), (''bucket_index'', PInt bucket_index), (''app_key'', PStr app_key),
      (''app_id'', popt PStr app_id), (''app_name'', PStr app_name), (''seconds'', PFloat seconds)])"

definition flush_usage_buckets :: "unit engine_prog" where
  "flush_usage_buckets =
     bindP (gets pending_usage_buckets) (\<lambda>p.
     if p = [] then ret ()
     else thenP (store (add_usage_buckets (map bucket_entry p)))
            (modify (\<lambda>e. e\<lparr>pending_usage_buckets := []\<rparr>)))"

definition account_game_elapsed :: "real \<Rightarrow> instant \<Rightarrow> instant \<Rightarrow> bool \<Rightarrow> unit engine_prog" where
  "account_game_elapsed seconds interval_start interval_end record_usage_bucket =
     bindP (gets (\<lambda>e. (current_game e, day_key e))) (\<lambda>(game, k).
     case game of
       None \<Rightarrow> ret ()
     | Some g \<Rightarrow>
         whenP (seconds > 0)
           (thenP (modify (\<lambda>e. e\<lparr>played_today := played_today e + seconds,
                               session_duration := session_duration e + seconds\<rparr>))
             (whenP record_usage_bucket (queue_usage_buckets g k interval_start interval_end seconds))))"

section \<open>Warnings\<close>

type_synonym snapshot = "((string \<times> string) \<times> real) list"

definition warning_snapshot :: "engine \<Rightarrow> snapshot" where
  "warning_snapshot e =
     (case effective_daily_limit e of
        None \<Rightarrow> []
      | Some daily_limit \<Rightarrow> [((''daily'', day_key e), max 0 (real_of_int daily_limit - played_today e))])
     @ (if t_state (timer e) \<in> {RUNNING, PAUSED, EXPIRED} \<and> truthy (t_generation (timer e))
        then [((''timer'', the (t_generation (timer e))), max 0 (t_remaining (timer e)))] else [])"

definition ch_upper :: "char \<Rightarrow> char" where
  "ch_upper c = (let n = of_char c :: nat
     in if 97 \<le> n \<and> n \<le> 122 \<or> 224 \<le> n \<and> n \<le> 254 \<and> n \<noteq> 247 then char_of (n - 32) else c)"

definition capitalised :: "string \<Rightarrow> string" where
  "capitalised s = map ch_upper (take 1 s) @ drop 1 s"

record warning_words =
  w_message :: string
  w_body :: string
  w_urgency :: string

definition warning_text :: "string option \<Rightarrow> string \<Rightarrow> int \<Rightarrow> warning_words engine_prog" where
  "warning_text selected scope threshold =
     (if threshold = 0
      then bindP (liftP (tr selected ''warning_exhausted_title'' [])) (\<lambda>message.
           bindP (liftP (tr selected (''warning_exhausted_'' @ scope) [])) (\<lambda>body.
           ret \<lparr>w_message = message, w_body = body, w_urgency = ''critical''\<rparr>))
      else let minutes = max 1 (threshold div 60)
           in bindP (liftP (tr selected (if minutes = 1 then ''minute_one'' else ''minute_many'') [])) (\<lambda>unit_name.
              bindP (liftP (tr selected
                (if minutes = 1 then ''warning_remaining_title_one'' else ''warning_remaining_title_many'')
                [(''minutes'', int_str minutes), (''unit'', unit_name)])) (\<lambda>message.
              bindP (liftP (tr selected (''warning_remaining_'' @ scope) [])) (\<lambda>body.
              ret \<lparr>w_message = message, w_body = body,
                   w_urgency = (if minutes > 5 then ''normal'' else ''critical'')\<rparr>))))"

definition due_thresholds :: "config \<Rightarrow> int list" where
  "due_thresholds c = thresholds_of c @ (if c_notify_at_exhaustion c then [0] else [])"

definition crossed_thresholds :: "int list \<Rightarrow> real \<Rightarrow> real \<Rightarrow> int list" where
  "crossed_thresholds due previous_remaining remaining =
     filter (\<lambda>threshold. remaining < previous_remaining \<and> remaining \<le> real_of_int threshold
        \<and> real_of_int threshold \<le> previous_remaining) due"

definition threshold_events :: "string \<Rightarrow> string \<Rightarrow> real option \<Rightarrow> real \<Rightarrow> event_prog" where
  "threshold_events scope scope_key previous_remaining remaining =
     (case previous_remaining of
        None \<Rightarrow> ret []
      | Some previous \<Rightarrow>
          bindP (gets (\<lambda>e. (cfg e, now_utc e))) (\<lambda>(c, now).
          bindP (filterP (\<lambda>threshold. store (mark_notification scope scope_key threshold now))
                  (crossed_thresholds (due_thresholds c) previous remaining)) (\<lambda>newly_marked.
          if newly_marked = [] then ret []
          else let threshold = Min (set newly_marked); selected = Some (c_language c)
               in bindP (liftP (tr selected (if scope = ''daily'' then ''daily_limit'' else ''timer'') [])) (\<lambda>title.
                  bindP (warning_text selected scope threshold) (\<lambda>w.
                  bindP (engine_record_event ''notification.warning'' (PDict
                     [(''scope'', PStr scope), (''scope_key'', PStr scope_key),
                      (''remaining_seconds'', PInt (max 0 (py_trunc remaining))),
                      (''threshold_seconds'', PInt threshold),
                      (''title'', PStr (capitalised title @ '': '' @ w_message w)),
                      (''body'', PStr (w_body w)), (''urgency'', PStr (w_urgency w)),
                      (''persistent'', PBool (threshold = 0))]) ''warning'') (\<lambda>event.
                  ret [event]))))))"

definition warning_events :: "snapshot \<Rightarrow> event_prog" where
  "warning_events previous_remaining =
     bindP (gets (\<lambda>e. t_generation (timer e))) (\<lambda>generation.
     bindP (if truthy generation
            then bindP (gets (\<lambda>e. map_of (warning_snapshot e) (''timer'', the generation))) (\<lambda>timer_remaining.
                 case timer_remaining of
                   None \<Rightarrow> ret []
                 | Some r \<Rightarrow> threshold_events ''timer'' (the generation)
                     (map_of previous_remaining (''timer'', the generation)) r)
            else ret []) (\<lambda>timer_events.
     bindP (gets day_key) (\<lambda>k.
     bindP (gets (\<lambda>e. map_of (warning_snapshot e) (''daily'', k))) (\<lambda>daily_remaining.
     bindP (case daily_remaining of
              None \<Rightarrow> ret []
            | Some r \<Rightarrow> threshold_events ''daily'' k (map_of previous_remaining (''daily'', k)) r) (\<lambda>daily_events.
     ret (timer_events @ daily_events))))))"

section \<open>Restriction\<close>

definition restriction_of :: "engine \<Rightarrow> restriction_reason \<times> int" where
  "restriction_of e =
     (let configured_level = c_level (cfg e); daily_limit = effective_daily_limit e
      in if t_state (timer e) = EXPIRED
         then (TimerExpired, case timer_action_level (t_action (timer e)) of
                               None \<Rightarrow> configured_level | Some override \<Rightarrow> override)
         else if (case daily_limit of None \<Rightarrow> False | Some l \<Rightarrow> played_today e \<ge> real_of_int l)
         then (DailyLimit, configured_level)
         else if c_daily_enabled (cfg e) \<and> \<not> within_allowed_period (cfg e) (now_utc e)
         then (OutsideAllowedPeriod, configured_level)
         else (NoReason, 0))"

definition restriction_payload :: "restriction_reason \<Rightarrow> int \<Rightarrow> engine \<Rightarrow> pyval" where
  "restriction_payload old_reason old_level e = PDict
     [(''old_reason'', PStr (reason_value old_reason)), (''reason'', PStr (reason_value (restriction_reason e))),
      (''old_level'', PInt old_level), (''level'', PInt (restriction_level e)),
      (''grace_seconds'', PInt (c_grace_seconds (cfg e))),
      (''game'', popt game_to_dict (current_game e)),
      (''persistent_notice_required'', PBool (restriction_reason e = OutsideAllowedPeriod
         \<or> \<not> c_notify_at_exhaustion (cfg e)))]"

definition restriction_kind :: "restriction_reason \<Rightarrow> int \<Rightarrow> string" where
  "restriction_kind reason level =
     (if reason = NoReason then ''restriction.cleared''
      else if level = 0 then ''allowance.exhausted'' else ''restriction.activated'')"

definition refresh_restriction :: "bool \<Rightarrow> event_prog" where
  "refresh_restriction emit =
     bindP (gets (\<lambda>e. (restriction_reason e, restriction_level e))) (\<lambda>(old_reason, old_level).
     bindP (gets restriction_of) (\<lambda>(reason, level).
     thenP (modify (\<lambda>e. e\<lparr>restriction_reason := reason, restriction_level := level\<rparr>))
     (if \<not> emit \<or> old_reason = reason \<and> old_level = level then ret []
      else bindP (gets (restriction_payload old_reason old_level)) (\<lambda>payload.
           bindP (engine_record_event (restriction_kind reason level) payload
                    (if reason = NoReason then ''info'' else ''warning'')) (\<lambda>event.
           ret [event])))))"

section \<open>Day change, suspend gaps, closing\<close>

definition rotate_current_session :: "instant \<Rightarrow> string \<Rightarrow> event_prog" where
  "rotate_current_session now new_day_key =
     bindP (gets (\<lambda>e. (day_key e, current_game e, session_id e, session_duration e))) (\<lambda>(old_day, game, sid, duration).
     if game \<noteq> None \<and> truthy sid
     then thenP flush_usage_buckets
         (thenP (store (close_session (the sid) duration now ''daily_reset''))
         (bindP (gets (engine_event ''session.rotated_at_daily_reset''
             (PDict [(''old_day_key'', PStr old_day), (''new_day_key'', PStr new_day_key)]) ''info'')) (\<lambda>event.
          bindP (store (open_session new_day_key (the game) now)) (\<lambda>new_sid.
          thenP (modify (\<lambda>e. e\<lparr>session_id := Some new_sid, session_duration := 0,
                              last_checkpoint_mono := monotonic e\<rparr>))
            (ret [event])))))
     else ret [])"

definition roll_day :: "instant \<Rightarrow> string \<Rightarrow> event_prog" where
  "roll_day now new_day_key =
     bindP (gets day_key) (\<lambda>old_day.
     bindP (rotate_current_session now new_day_key) (\<lambda>rotated.
     thenP (modify (\<lambda>e. e\<lparr>day_key := new_day_key, played_today := usage_for_day new_day_key (storage e)\<rparr>))
     (bindP (gets (\<lambda>e. c_retention_days (cfg e))) (\<lambda>days.
      thenP (store (enforce_retention days now))
      (bindP (engine_record_event ''daily.reset'' (PDict [(''old_day_key'', PStr old_day),
           (''new_day_key'', PStr new_day_key), (''boundary_at'', PStr (utc_iso now))]) ''info'') (\<lambda>event.
       ret (rotated @ [event])))))))"

definition record_suspend_gap :: "real \<Rightarrow> event_prog" where
  "record_suspend_gap discrepancy =
     (let payload = PDict [(''inferred_gap_seconds'', PInt (py_trunc discrepancy)),
                           (''source'', PStr ''wall_vs_monotonic'')]
      in bindP (gets now_utc) (\<lambda>now.
         thenP (store (record_event ''system.suspend_inferred'' now payload None None))
         (thenP (store (record_event ''system.resume_inferred'' now payload None None))
          (gets (\<lambda>e. [engine_event ''system.suspend_inferred'' payload ''warning'' e,
                      engine_event ''system.resume_inferred'' payload ''warning'' e])))))"

definition close_current_game :: "instant \<Rightarrow> string \<Rightarrow> event_prog" where
  "close_current_game now reason =
     bindP (gets (\<lambda>e. (current_game e, session_id e, session_duration e))) (\<lambda>(game, sid, duration).
     if game = None \<or> \<not> truthy sid
     then thenP (modify (\<lambda>e. e\<lparr>current_game := None, session_id := None, session_duration := 0\<rparr>)) (ret [])
     else thenP flush_usage_buckets
         (thenP (store (close_session (the sid) duration now reason))
         (thenP (modify (\<lambda>e. e\<lparr>current_game := None, session_id := None, session_duration := 0\<rparr>))
          (gets (\<lambda>e. [engine_event ''game.stopped'' (PDict
             [(''game'', game_to_dict (the game)), (''session_id'', PStr (the sid)),
              (''duration_seconds'', PInt (py_round duration)), (''reason'', PStr reason)]) ''info'' e])))))"

section \<open>The tick\<close>

definition round3 :: "real \<Rightarrow> real" where
  "round3 x = real_of_int (py_round (x * 1000)) / 1000"

definition tick_clock :: "real \<Rightarrow> real \<Rightarrow> event_prog" where
  "tick_clock wall_delta mono_delta =
     (let discrepancy = wall_delta - mono_delta
      in if discrepancy > 30 then record_suspend_gap discrepancy
         else if \<bar>discrepancy\<bar> > 5
         then bindP (engine_record_event ''clock.changed'' (PDict
                [(''wall_delta_seconds'', PFloat (round3 wall_delta)),
                 (''monotonic_delta_seconds'', PFloat (round3 mono_delta))]) ''warning'') (\<lambda>event. ret [event])
         else ret [])"

definition tick_offset :: event_prog where
  "tick_offset =
     bindP (gets (\<lambda>e. (utc_offset e, last_offset_seconds e))) (\<lambda>(offset, last_offset).
     if offset \<noteq> last_offset
     then bindP (engine_record_event ''timezone.offset_changed'' (PDict
            [(''old_offset_seconds'', PInt last_offset), (''new_offset_seconds'', PInt offset)]) ''warning'') (\<lambda>event.
          thenP (modify (\<lambda>e. e\<lparr>last_offset_seconds := offset\<rparr>)) (ret [event]))
     else ret [])"

text \<open>The boundary of a day change, and the elapsed time before and after it.\<close>

definition tick_split :: "string \<Rightarrow> real \<Rightarrow> engine \<Rightarrow> instant \<times> real \<times> real" where
  "tick_split new_day_key mono_delta e =
     (if new_day_key \<noteq> day_key e
      then let boundary = (case date_fromisoformat new_day_key of
                 None \<Rightarrow> now_utc e
               | Some day \<Rightarrow> accounting_day_start (c_timezone (cfg e)) (c_reset_at (cfg e)) day)
           in (boundary, split_elapsed_at_boundary mono_delta (last_tick_wall e) (now_utc e) boundary)
      else (now_utc e, mono_delta, 0))"

definition tick_account :: "real \<Rightarrow> bool \<Rightarrow> event_prog" where
  "tick_account mono_delta reliable =
     bindP (gets (\<lambda>e. (compute_day_key e, day_key e, now_utc e, last_tick_wall e, suspended e)))
       (\<lambda>(new_day_key, old_day_key, now, last_wall, susp).
     bindP (gets (tick_split new_day_key mono_delta)) (\<lambda>(boundary, split_before, split_after).
     thenP (whenP (\<not> susp) (account_game_elapsed split_before last_wall
              (if new_day_key \<noteq> old_day_key then boundary else now) reliable))
     (if new_day_key \<noteq> old_day_key
      then bindP (roll_day boundary new_day_key) (\<lambda>events.
           thenP (whenP (\<not> susp) (thenP (account_game_elapsed split_after boundary now reliable)
                                     flush_usage_buckets))
           (ret events))
      else ret [])))"

definition timer_counts :: "engine \<Rightarrow> bool" where
  "timer_counts e = (\<not> c_count_only_while_playing (cfg e) \<or> current_game e \<noteq> None)"

definition tick_timer :: "real \<Rightarrow> event_prog" where
  "tick_timer mono_delta =
     bindP (gets (\<lambda>e. t_state (timer e) = RUNNING \<and> \<not> suspended e \<and> timer_counts e)) (\<lambda>counting.
     if counting
     then thenP (modify (\<lambda>e. e\<lparr>timer := (timer e)\<lparr>t_remaining := max 0 (t_remaining (timer e) - mono_delta)\<rparr>\<rparr>))
       (bindP (gets (\<lambda>e. t_remaining (timer e) \<le> 0)) (\<lambda>done.
        if done
        then thenP (modify (\<lambda>e. e\<lparr>timer := (timer e)\<lparr>t_state := EXPIRED, t_updated_at := Some (utc_iso (now_utc e))\<rparr>\<rparr>))
          (bindP (gets timer) (\<lambda>t. thenP (store (save_timer t))
          (bindP (engine_record_event ''timer.expired'' (PDict []) ''warning'') (\<lambda>event. ret [event]))))
        else ret []))
     else ret [])"

definition tick_checkpoint :: "unit engine_prog" where
  "tick_checkpoint =
     bindP (gets (\<lambda>e. (real_of_int (c_checkpoint_seconds (cfg e)), monotonic e, now_utc e))) (\<lambda>(checkpoint_seconds, mono, now).
     thenP (bindP (gets (\<lambda>e. (session_id e, session_duration e, last_checkpoint_mono e))) (\<lambda>(sid, duration, last).
        whenP (truthy sid \<and> mono - last \<ge> checkpoint_seconds)
          (thenP (store (checkpoint_session (the sid) duration now))
          (thenP flush_usage_buckets
             (modify (\<lambda>e. e\<lparr>last_checkpoint_mono := mono\<rparr>))))))
     (bindP (gets (\<lambda>e. t_state (timer e) = RUNNING \<and> mono - last_timer_persist_mono e \<ge> checkpoint_seconds)) (\<lambda>due.
        whenP due
          (thenP (modify (\<lambda>e. e\<lparr>timer := (timer e)\<lparr>t_updated_at := Some (utc_iso now)\<rparr>\<rparr>))
          (bindP (gets timer) (\<lambda>t. thenP (store (save_timer t))
             (modify (\<lambda>e. e\<lparr>last_timer_persist_mono := mono\<rparr>))))))))"

definition tick_deltas :: "engine \<Rightarrow> real \<times> real \<times> bool" where
  "tick_deltas e =
     (let mono_delta = max 0 (monotonic e - last_tick_mono e);
          wall_delta = seconds_between (now_utc e) (last_tick_wall e)
      in (mono_delta, wall_delta,
          \<not> suspended e \<and> mono_delta > 0 \<and> wall_delta > 0 \<and> \<bar>wall_delta - mono_delta\<bar> \<le> 5))"

definition tick :: event_prog where
  "tick =
     bindP (gets warning_snapshot) (\<lambda>previous_remaining.
     bindP (gets tick_deltas) (\<lambda>(mono_delta, wall_delta, reliable).
     bindP (tick_clock wall_delta mono_delta) (\<lambda>ev1.
     bindP tick_offset (\<lambda>ev2.
     bindP (tick_account mono_delta reliable) (\<lambda>ev3.
     bindP (tick_timer mono_delta) (\<lambda>ev4.
     thenP tick_checkpoint
     (bindP (warning_events previous_remaining) (\<lambda>ev5.
     bindP (refresh_restriction True) (\<lambda>ev6.
     thenP (modify (\<lambda>e. e\<lparr>last_tick_mono := monotonic e, last_tick_wall := now_utc e\<rparr>))
     (ret (ev1 @ ev2 @ ev3 @ ev4 @ ev5 @ ev6)))))))))))"

section \<open>Start, configuration, sessions\<close>

definition base_engine :: "db \<Rightarrow> config \<Rightarrow> fake_clock \<Rightarrow> engine" where
  "base_engine d c k =
     (let now = current_utc k; mono = current_monotonic k;
          key = accounting_day_key (c_timezone c) (c_reset_at c) now
      in \<lparr>storage = d, cfg = c, clock = k, day_key = key, played_today = usage_for_day key d,
          current_game = None, session_id = None, session_duration = 0, timer = load_timer d,
          suspended = False, restriction_reason = NoReason, restriction_level = 0,
          last_tick_mono = mono, last_tick_wall = now, last_checkpoint_mono = mono,
          last_timer_persist_mono = mono, last_offset_seconds = zone_offset (c_timezone c) now,
          usage_bucket_timezone = c_timezone c, pending_usage_buckets = [], initial_events = []\<rparr>)"

definition announce_recovery :: "session_row option \<Rightarrow> unit engine_prog" where
  "announce_recovery recovered =
     (case recovered of
        None \<Rightarrow> ret ()
      | Some r \<Rightarrow> modify (\<lambda>e. e\<lparr>initial_events := initial_events e @ [engine_event ''session.recovered''
          (PDict [(''session_id'', PStr (s_id r)), (''duration_seconds'', PInt (py_trunc (s_duration r)))])
          ''warning'' e]\<rparr>))"

definition pause_restored_timer :: "unit engine_prog" where
  "pause_restored_timer =
     bindP (gets (\<lambda>e. t_state (timer e) = RUNNING)) (\<lambda>running.
     whenP running
       (thenP (modify (\<lambda>e. e\<lparr>timer := (timer e)\<lparr>t_state := PAUSED, t_updated_at := Some (utc_iso (now_utc e))\<rparr>\<rparr>))
       (bindP (gets timer) (\<lambda>t. thenP (store (save_timer t))
        (modify (\<lambda>e. e\<lparr>initial_events := initial_events e @ [engine_event ''timer.paused_after_restart''
           (PDict [(''remaining_seconds'', PInt (py_trunc (t_remaining (timer e))))]) ''warning'' e]\<rparr>))))))"

definition start_engine :: "unit engine_prog" where
  "start_engine =
     bindP (gets now_utc) (\<lambda>now.
     bindP (store (recover_open_session now)) (\<lambda>recovered.
     thenP (announce_recovery recovered)
     (thenP pause_restored_timer
     (thenP (refresh_restriction False) (ret ())))))"

definition new_engine :: "db \<Rightarrow> config \<Rightarrow> fake_clock \<Rightarrow> (py_exc + unit) \<times> engine" where
  "new_engine d c k = start_engine (base_engine d c k)"

definition take_initial_events :: event_prog where
  "take_initial_events =
     bindP (gets initial_events) (\<lambda>events. thenP (modify (\<lambda>e. e\<lparr>initial_events := []\<rparr>)) (ret events))"

definition update_config :: "config \<Rightarrow> event_prog" where
  "update_config config =
     bindP tick (\<lambda>ev1.
     bindP (gets warning_snapshot) (\<lambda>previous_remaining.
     thenP (modify (\<lambda>e. e\<lparr>cfg := config, usage_bucket_timezone := c_timezone config\<rparr>))
     (bindP (gets (\<lambda>e. (compute_day_key e, day_key e, now_utc e))) (\<lambda>(new_day_key, old_day_key, now).
     bindP (if new_day_key \<noteq> old_day_key then roll_day now new_day_key else ret []) (\<lambda>ev2.
     bindP (gets warning_snapshot) (\<lambda>current_remaining.
     thenP (mapP (\<lambda>((scope, scope_key), remaining).
              whenP (case map_of previous_remaining (scope, scope_key) of
                       None \<Rightarrow> False | Some previous \<Rightarrow> remaining > previous)
                (store (clear_notification_scope scope scope_key))) current_remaining)
     (bindP (warning_events previous_remaining) (\<lambda>ev3.
      bindP (refresh_restriction True) (\<lambda>ev4.
      bindP (gets (engine_event ''config.updated''
              (PDict [(''schema_version'', PInt (c_schema_version config))]) ''info'')) (\<lambda>event.
      ret (ev1 @ ev2 @ ev3 @ ev4 @ [event])))))))))))"

definition game_started_events :: "game_identity \<Rightarrow> string \<Rightarrow> engine \<Rightarrow> domain_event list" where
  "game_started_events game reason e =
     [engine_event ''game.started'' (PDict [(''game'', game_to_dict game),
        (''session_id'', popt PStr (session_id e)), (''reason'', PStr reason)]) ''info'' e]
     @ (if restriction_level e \<ge> 2
        then [engine_event (if restriction_level e \<ge> 3 then ''enforcement.new_game_blocked''
                            else ''enforcement.game_started_while_restricted'')
                (PDict [(''game'', game_to_dict game),
                        (''launch_grace_seconds'', PInt (c_launch_grace_seconds (cfg e)))]) ''warning'' e]
        else [])"

definition open_game_session :: "game_identity \<Rightarrow> instant \<Rightarrow> unit engine_prog" where
  "open_game_session game now =
     thenP (modify (\<lambda>e. e\<lparr>current_game := Some game\<rparr>))
     (bindP (gets day_key) (\<lambda>k.
      bindP (catchP (store (open_session k game now))
        (\<lambda>exc. case exc of
           DatabaseError m \<Rightarrow> thenP (modify (\<lambda>e. e\<lparr>current_game := None\<rparr>)) (raise (DomainError m))
         | _ \<Rightarrow> raise exc)) (\<lambda>sid.
      modify (\<lambda>e. e\<lparr>session_id := Some sid, session_duration := 0, last_checkpoint_mono := monotonic e\<rparr>))))"

definition set_game :: "game_identity \<Rightarrow> string \<Rightarrow> event_prog" where
  "set_game game reason =
     bindP (liftP (validate_game game)) (\<lambda>_.
     bindP tick (\<lambda>ev1.
     bindP (gets (\<lambda>e. (current_game e, now_utc e))) (\<lambda>(current, now).
     if (case current of None \<Rightarrow> False | Some g \<Rightarrow> same_game g game)
     then thenP (modify (\<lambda>e. e\<lparr>current_game := Some game\<rparr>))
           (bindP (gets (engine_event ''game.metadata_updated'' (game_to_dict game) ''info'')) (\<lambda>event.
            ret (ev1 @ [event])))
     else bindP (if current \<noteq> None then close_current_game now ''game_changed'' else ret []) (\<lambda>ev2.
          thenP (open_game_session game now)
          (bindP (gets (game_started_events game reason)) (\<lambda>ev3.
           ret (ev1 @ ev2 @ ev3)))))))"

definition stop_game :: "string \<Rightarrow> event_prog" where
  "stop_game reason =
     bindP (gets now_utc) (\<lambda>now.
     bindP tick (\<lambda>ev1.
     bindP (close_current_game now reason) (\<lambda>ev2.
     bindP (refresh_restriction True) (\<lambda>ev3.
     ret (ev1 @ ev2 @ ev3)))))"

definition suspend :: "string \<Rightarrow> event_prog" where
  "suspend source =
     bindP tick (\<lambda>ev1.
     bindP (gets suspended) (\<lambda>already.
     if already then ret ev1
     else thenP (modify (\<lambda>e. e\<lparr>suspended := True\<rparr>))
       (bindP (engine_record_event ''system.suspended'' (PDict [(''source'', PStr source)]) ''info'') (\<lambda>event.
        ret (ev1 @ [event])))))"

definition resume :: "string \<Rightarrow> event_prog" where
  "resume source =
     thenP (modify (\<lambda>e. e\<lparr>last_tick_wall := now_utc e, last_tick_mono := monotonic e\<rparr>))
     (bindP (gets (\<lambda>e. (compute_day_key e, day_key e, now_utc e))) (\<lambda>(new_day_key, old_day_key, now).
      bindP (if new_day_key \<noteq> old_day_key then roll_day now new_day_key else ret []) (\<lambda>ev1.
      bindP (gets suspended) (\<lambda>was.
      if was
      then thenP (modify (\<lambda>e. e\<lparr>suspended := False\<rparr>))
        (bindP (engine_record_event ''system.resumed'' (PDict [(''source'', PStr source)]) ''info'') (\<lambda>event.
         ret (ev1 @ [event])))
      else ret ev1))))"

section \<open>Timer operations\<close>

definition install_timer :: "timer_snapshot \<Rightarrow> unit engine_prog" where
  "install_timer t = thenP (modify (\<lambda>e. e\<lparr>timer := t\<rparr>)) (store (save_timer t))"

definition new_timer :: "int \<Rightarrow> string \<Rightarrow> string \<Rightarrow> instant \<Rightarrow> timer_snapshot" where
  "new_timer seconds action generation now =
     \<lparr>t_state = RUNNING, t_configured = seconds, t_remaining = real_of_int seconds, t_action = action,
      t_generation = Some generation, t_started_at = Some (utc_iso now), t_updated_at = Some (utc_iso now)\<rparr>"

definition start_timer :: "int \<Rightarrow> string \<Rightarrow> event_prog" where
  "start_timer seconds action =
     bindP tick (\<lambda>ev1.
     bindP (gets restriction_level) (\<lambda>level.
     thenP (guardP (level \<ge> 1) (DomainError ''cannot start a timer while play is restricted''))
     (thenP (guardP (\<not> (60 \<le> seconds \<and> seconds \<le> 24 * 3600))
        (DomainError ''timer duration must be between 60 seconds and 24 hours''))
     (thenP (guardP (action \<notin> set timer_actions) (DomainError (''unsupported timer action: '' @ action)))
     (bindP (gets now_utc) (\<lambda>now.
      bindP (store new_uuid) (\<lambda>generation.
      thenP (install_timer (new_timer seconds action generation now))
      (thenP (store (clear_notification_scope ''timer'' generation))
      (bindP (engine_record_event ''timer.started'' (timer_to_dict (new_timer seconds action generation now)) ''info'') (\<lambda>event.
       ret (ev1 @ [event])))))))))))"

definition with_state :: "timer_state \<Rightarrow> instant \<Rightarrow> timer_snapshot \<Rightarrow> timer_snapshot" where
  "with_state st now t = t\<lparr>t_state := st, t_updated_at := Some (utc_iso now)\<rparr>"

definition pause_timer :: event_prog where
  "pause_timer =
     bindP tick (\<lambda>ev1.
     bindP (gets timer) (\<lambda>t.
     thenP (guardP (t_state t \<noteq> RUNNING) (DomainError ''timer is not running''))
     (bindP (gets now_utc) (\<lambda>now.
      thenP (install_timer (with_state PAUSED now t))
      (bindP (engine_record_event ''timer.paused'' (timer_to_dict (with_state PAUSED now t)) ''info'') (\<lambda>event.
       ret (ev1 @ [event])))))))"

definition resume_timer :: event_prog where
  "resume_timer =
     bindP tick (\<lambda>ev1.
     bindP (gets restriction_level) (\<lambda>level.
     thenP (guardP (level \<ge> 1) (DomainError ''cannot resume a timer while play is restricted''))
     (bindP (gets timer) (\<lambda>t.
      thenP (guardP (t_state t \<noteq> PAUSED) (DomainError ''timer is not paused''))
      (bindP (gets now_utc) (\<lambda>now.
       thenP (install_timer (with_state RUNNING now t))
       (bindP (engine_record_event ''timer.resumed'' (timer_to_dict (with_state RUNNING now t)) ''info'') (\<lambda>event.
        ret (ev1 @ [event])))))))))"

definition cancel_timer :: event_prog where
  "cancel_timer =
     bindP tick (\<lambda>ev1.
     bindP (gets timer) (\<lambda>previous.
     if t_state previous = IDLE then ret ev1
     else thenP (install_timer idle_timer)
         (bindP (engine_record_event ''timer.cancelled'' (PDict [(''previous'', timer_to_dict previous)]) ''info'') (\<lambda>event.
          bindP (refresh_restriction True) (\<lambda>ev2.
          ret (ev1 @ [event] @ ev2))))))"

definition adjusted_timer :: "int \<Rightarrow> instant \<Rightarrow> timer_snapshot \<Rightarrow> timer_snapshot" where
  "adjusted_timer seconds now t =
     (let remaining = max 0 (min (24 * 3600) (t_remaining t + real_of_int seconds))
      in t\<lparr>t_remaining := remaining,
           t_state := (if remaining = 0 then EXPIRED else if t_state t = EXPIRED then PAUSED else t_state t),
           t_updated_at := Some (utc_iso now)\<rparr>)"

text \<open>Adding time clears the scope, and marks the thresholds the timer now stands on.\<close>

definition rearm_timer :: "timer_snapshot \<Rightarrow> unit engine_prog" where
  "rearm_timer t =
     bindP (gets (\<lambda>e. (cfg e, now_utc e))) (\<lambda>(c, now).
     thenP (store (clear_notification_scope ''timer'' (the (t_generation t))))
     (thenP (mapP (\<lambda>threshold.
        whenP (t_remaining t = real_of_int threshold)
          (thenP (store (mark_notification ''timer'' (the (t_generation t)) threshold now)) (ret ())))
        (thresholds_of c)) (ret ())))"

definition adjust_timer :: "int \<Rightarrow> event_prog" where
  "adjust_timer seconds =
     bindP tick (\<lambda>ev1.
     bindP (gets timer) (\<lambda>t.
     thenP (guardP (t_state t = IDLE) (DomainError ''there is no active timer''))
     (thenP (guardP (\<not> (-24 * 3600 \<le> seconds \<and> seconds \<le> 24 * 3600))
        (DomainError ''timer adjustment must be between -24h and +24h''))
     (thenP (guardP (seconds = 0) (DomainError ''timer adjustment must not be zero''))
     (bindP (gets (\<lambda>e. (warning_snapshot e, now_utc e))) (\<lambda>(previous_remaining, now).
      thenP (install_timer (adjusted_timer seconds now t))
      (thenP (whenP (seconds > 0 \<and> truthy (t_generation t)) (rearm_timer (adjusted_timer seconds now t)))
      (bindP (engine_record_event ''timer.adjusted'' (PDict [(''seconds'', PInt seconds),
          (''timer'', timer_to_dict (adjusted_timer seconds now t))]) ''info'') (\<lambda>event.
       bindP (warning_events previous_remaining) (\<lambda>ev2.
       bindP (refresh_restriction True) (\<lambda>ev3.
       ret (ev1 @ [event] @ ev2 @ ev3))))))))))))"

definition grant_daily_time :: "int \<Rightarrow> string \<Rightarrow> event_prog" where
  "grant_daily_time seconds reason =
     bindP tick (\<lambda>ev1.
     thenP (guardP (str_strip reason = []) (DomainError ''an adjustment reason is required''))
     (thenP (guardP (seconds = 0) (DomainError ''daily adjustment must not be zero''))
     (bindP (gets (\<lambda>e. (warning_snapshot e, day_key e, now_utc e))) (\<lambda>(previous_remaining, k, now).
      thenP (store (grant_adjustment k seconds (str_strip reason) now))
      (thenP (whenP (seconds > 0) (store (clear_notification_scope ''daily'' k)))
      (bindP (gets (engine_event ''daily.adjusted'' (PDict [(''day_key'', PStr k), (''seconds'', PInt seconds),
          (''reason'', PStr (str_strip reason))]) ''info'')) (\<lambda>event.
       bindP (warning_events previous_remaining) (\<lambda>ev2.
       bindP (refresh_restriction True) (\<lambda>ev3.
       ret (ev1 @ [event] @ ev2 @ ev3))))))))))"

definition shutdown :: "string \<Rightarrow> event_prog" where
  "shutdown reason =
     bindP (gets now_utc) (\<lambda>now.
     bindP tick (\<lambda>ev1.
     bindP (gets (\<lambda>e. (session_id e, session_duration e))) (\<lambda>(sid, duration).
     bindP (if truthy sid
            then thenP (store (checkpoint_session (the sid) duration now)) (close_current_game now reason)
            else ret []) (\<lambda>ev2.
     bindP (gets (\<lambda>e. t_state (timer e) = RUNNING)) (\<lambda>running.
     thenP (whenP running
        (thenP (modify (\<lambda>e. e\<lparr>timer := (timer e)\<lparr>t_updated_at := Some (utc_iso now)\<rparr>\<rparr>))
        (bindP (gets timer) (\<lambda>t. store (save_timer t)))))
     (ret (ev1 @ ev2)))))))"

section \<open>Status\<close>

record upcoming_warning =
  wc_scope :: string
  wc_threshold_seconds :: int
  wc_play_seconds_until :: int

definition warning_candidate :: "string \<Rightarrow> string \<Rightarrow> int \<Rightarrow> engine \<Rightarrow> upcoming_warning option" where
  "warning_candidate scope scope_key remaining e =
     (let marked = notification_thresholds scope scope_key (storage e);
          candidates = filter (\<lambda>threshold. threshold \<notin> marked \<and> threshold \<le> remaining) (due_thresholds (cfg e))
      in if candidates = [] then None
         else let threshold = Max (set candidates)
              in Some \<lparr>wc_scope = scope, wc_threshold_seconds = threshold,
                       wc_play_seconds_until = max 0 (remaining - threshold)\<rparr>)"

text \<open>\<open>min\<close> with a key keeps the first of the candidates that tie.\<close>

definition earlier :: "upcoming_warning \<Rightarrow> upcoming_warning \<Rightarrow> bool" where
  "earlier a b = (wc_play_seconds_until a < wc_play_seconds_until b
     \<or> wc_play_seconds_until a = wc_play_seconds_until b \<and> wc_threshold_seconds a \<le> wc_threshold_seconds b)"

definition next_warning_status :: "int option \<Rightarrow> engine \<Rightarrow> upcoming_warning option" where
  "next_warning_status daily_remaining e =
     (let daily = Option.bind daily_remaining (\<lambda>r. warning_candidate ''daily'' (day_key e) r e);
          timed = (if t_state (timer e) = RUNNING \<and> truthy (t_generation (timer e)) \<and> timer_counts e
                   then warning_candidate ''timer'' (the (t_generation (timer e)))
                          (max 0 (py_trunc (t_remaining (timer e)))) e
                   else None)
      in (case (daily, timed) of
            (None, x) \<Rightarrow> x
          | (x, None) \<Rightarrow> x
          | (Some a, Some b) \<Rightarrow> Some (if earlier a b then a else b)))"

record engine_status =
  st_now :: string
  st_day_key :: string
  st_played_today :: int
  st_daily_limit :: "int option"
  st_daily_adjustment :: int
  st_remaining_today :: "int option"
  st_seconds_until_reset :: int
  st_within_allowed_period :: bool
  st_game :: "game_identity option"
  st_timer :: pyval
  st_next_warning :: "upcoming_warning option"
  st_configured_level :: int
  st_effective_level :: int
  st_reason :: string
  st_force_kill_enabled :: bool
  st_suspended :: bool

definition status :: "engine \<Rightarrow> engine_status" where
  "status e =
     (let limit = effective_daily_limit e;
          remaining = map_option (\<lambda>l. max 0 (py_round (real_of_int l - played_today e))) limit
      in \<lparr>st_now = utc_iso (now_utc e), st_day_key = day_key e,
          st_played_today = max 0 (py_round (played_today e)), st_daily_limit = limit,
          st_daily_adjustment = adjustment_for_day (day_key e) (storage e), st_remaining_today = remaining,
          st_seconds_until_reset = seconds_until_reset (c_timezone (cfg e)) (c_reset_at (cfg e)) (now_utc e),
          st_within_allowed_period = (\<not> c_daily_enabled (cfg e) \<or> within_allowed_period (cfg e) (now_utc e)),
          st_game = current_game e, st_timer = timer_to_dict (timer e),
          st_next_warning = next_warning_status remaining e,
          st_configured_level = c_level (cfg e), st_effective_level = restriction_level e,
          st_reason = reason_value (restriction_reason e),
          st_force_kill_enabled = c_force_kill_enabled (cfg e), st_suspended = suspended e\<rparr>)"

end
