(* ===== verification/EngineInv.thy ===== *)
theory EngineInv
  imports Engine
begin

text \<open>
  The invariant of the engine and its preservation by every operation, raises included. It
  ties the memory to the tables: the session in memory is the one open row, the day's total
  covers the stored sessions, and the stored timer is the one in memory, with at least the
  remaining time. With \<open>exact\<close> set it also says that the day's total is exactly what the
  tables and the running session add up to.
\<close>

section \<open>The invariant\<close>

definition session_ok :: "engine \<Rightarrow> bool" where
  "session_ok e =
     ((session_id e = None \<longrightarrow> current_game e = None \<and> session_duration e = 0 \<and> current_session (storage e) = None)
      \<and> (\<forall>i. session_id e = Some i \<longrightarrow> i \<noteq> [] \<and> current_game e \<noteq> None
          \<and> (\<exists>u. current_session (storage e) = Some (i, day_key e, u) \<and> 0 \<le> u \<and> u \<le> session_duration e)))"

definition stored_total :: "engine \<Rightarrow> real" where
  "stored_total e = closed_usage (day_key e) (storage e) + session_duration e"

definition timer_ok :: "timer_snapshot \<Rightarrow> bool" where
  "timer_ok t = (0 \<le> t_remaining t \<and> t_remaining t \<le> 86400
     \<and> (t_state t = EXPIRED \<longrightarrow> t_remaining t = 0)
     \<and> (t_state t = RUNNING \<or> t_state t = PAUSED \<longrightarrow> 0 < t_remaining t)
     \<and> (t_state t = IDLE \<longrightarrow> t = idle_timer) \<and> (t_state t \<noteq> IDLE \<longrightarrow> truthy (t_generation t)))"

definition timer_saved :: "timer_snapshot \<Rightarrow> db \<Rightarrow> bool" where
  "timer_saved t d = (\<exists>x. t_remaining t \<le> x \<and> load_timer d = t\<lparr>t_remaining := x\<rparr> \<and> timer_ok (load_timer d))"

definition eng_inv :: "bool \<Rightarrow> engine \<Rightarrow> bool" where
  "eng_inv exact e =
     (db_inv (storage e) \<and> wf_config (cfg e) \<and> session_ok e \<and> 0 \<le> session_duration e
      \<and> stored_total e \<le> played_today e \<and> timer_ok (timer e) \<and> timer_saved (timer e) (storage e)
      \<and> (exact \<longrightarrow> played_today e = stored_total e \<and> compute_day_key e = day_key e))"

abbreviation keeps :: "bool \<Rightarrow> 'a engine_prog \<Rightarrow> bool" where
  "keeps exact \<equiv> holds (eng_inv exact)"

section \<open>Composition\<close>

lemma clock_storage [simp]:
  "now_utc (e\<lparr>storage := d\<rparr>) = now_utc e" "monotonic (e\<lparr>storage := d\<rparr>) = monotonic e"
  "engine_event k p s (e\<lparr>storage := d\<rparr>) = engine_event k p s e"
  by (simp_all add: now_utc_def monotonic_def engine_event_def)

lemma wp_store [wp_simps, simp]:
  "wp (store m) Q E
    = (\<lambda>e. wp m (\<lambda>a d. Q a (e\<lparr>storage := d\<rparr>)) (\<lambda>x d. E x (e\<lparr>storage := d\<rparr>)) (storage e))"
  by (auto simp: wp_def store_def fun_eq_iff split: prod.splits sum.splits)

section \<open>Storage methods that touch no session\<close>

text \<open>A step of the tables that keeps the sessions and the timer keeps the invariant.\<close>

lemma storage_step:
  assumes "eng_inv x e" and "db_inv d" and "same_sessions (storage e) d"
    and "timer_table d = timer_table (storage e)"
  shows "eng_inv x (e\<lparr>storage := d\<rparr>)"
  using assms
  by (simp add: eng_inv_def session_ok_def stored_total_def timer_saved_def load_timer_def
      same_sessions_def compute_day_key_def now_utc_def)

lemma keeps_record_event [inv_intros]: "keeps x (store (record_event k t p i a))"
proof (rule holdsI, unfold wp_store)
  fix e assume inv: "eng_inv x e"
  then have "db_inv (storage e)" by (simp add: eng_inv_def)
  then show "wp (record_event k t p i a) (\<lambda>_ d. eng_inv x (e\<lparr>storage := d\<rparr>)) (\<lambda>_ d. eng_inv x (e\<lparr>storage := d\<rparr>)) (storage e)"
    by (rule record_event_wp) (auto simp: other_tables_def intro: storage_step [OF inv])
qed

lemma keeps_mark [inv_intros]: "keeps x (store (mark_notification a b n t))"
proof (rule holdsI, unfold wp_store)
  fix e assume inv: "eng_inv x e"
  then have "db_inv (storage e)" by (simp add: eng_inv_def)
  then show "wp (mark_notification a b n t) (\<lambda>_ d. eng_inv x (e\<lparr>storage := d\<rparr>)) (\<lambda>_ d. eng_inv x (e\<lparr>storage := d\<rparr>)) (storage e)"
    by (rule mark_notification_wp) (auto intro: storage_step [OF inv])
qed

lemma keeps_clear_scope [inv_intros]: "keeps x (store (clear_notification_scope a b))"
proof (rule holdsI, unfold wp_store)
  fix e assume inv: "eng_inv x e"
  then have "db_inv (storage e)" by (simp add: eng_inv_def)
  then show "wp (clear_notification_scope a b) (\<lambda>_ d. eng_inv x (e\<lparr>storage := d\<rparr>)) (\<lambda>_ d. eng_inv x (e\<lparr>storage := d\<rparr>)) (storage e)"
    by (rule clear_scope_wp) (auto intro: storage_step [OF inv])
qed

lemma keeps_grant [inv_intros]: "keeps x (store (grant_adjustment k s r t))"
proof (rule holdsI, unfold wp_store)
  fix e assume inv: "eng_inv x e"
  then have d: "db_inv (storage e)" by (simp add: eng_inv_def)
  have "e\<lparr>storage := storage e\<rparr> = e" by simp
  with d inv show "wp (grant_adjustment k s r t) (\<lambda>_ d. eng_inv x (e\<lparr>storage := d\<rparr>)) (\<lambda>_ d. eng_inv x (e\<lparr>storage := d\<rparr>)) (storage e)"
    by (intro grant_adjustment_wp) (auto intro: storage_step [OF inv])
qed

lemma keeps_add_buckets [inv_intros]: "keeps x (store (add_usage_buckets es))"
proof (rule holdsI, unfold wp_store)
  fix e assume inv: "eng_inv x e"
  then have d: "db_inv (storage e)" by (simp add: eng_inv_def)
  have "e\<lparr>storage := storage e\<rparr> = e" by simp
  with d inv show "wp (add_usage_buckets es) (\<lambda>_ d. eng_inv x (e\<lparr>storage := d\<rparr>)) (\<lambda>_ d. eng_inv x (e\<lparr>storage := d\<rparr>)) (storage e)"
    by (intro add_usage_buckets_wp) (auto intro: storage_step [OF inv])
qed

lemma keeps_new_uuid [inv_intros]: "keeps x (store new_uuid)"
proof (rule holdsI, unfold wp_store)
  fix e assume inv: "eng_inv x e"
  then have "db_inv (storage e)" by (simp add: eng_inv_def)
  then show "wp new_uuid (\<lambda>_ d. eng_inv x (e\<lparr>storage := d\<rparr>)) (\<lambda>_ d. eng_inv x (e\<lparr>storage := d\<rparr>)) (storage e)"
    by (rule new_uuid_wp) (auto simp: other_tables_def intro: storage_step [OF inv])
qed

section \<open>Fields outside the invariant\<close>

lemma eng_inv_fields [simp]:
  "eng_inv x (e\<lparr>last_tick_mono := r1\<rparr>) = eng_inv x e"
  "eng_inv x (e\<lparr>last_tick_wall := i1\<rparr>) = eng_inv x e"
  "eng_inv x (e\<lparr>last_checkpoint_mono := r2\<rparr>) = eng_inv x e"
  "eng_inv x (e\<lparr>last_timer_persist_mono := r3\<rparr>) = eng_inv x e"
  "eng_inv x (e\<lparr>last_offset_seconds := i2\<rparr>) = eng_inv x e"
  "eng_inv x (e\<lparr>usage_bucket_timezone := z\<rparr>) = eng_inv x e"
  "eng_inv x (e\<lparr>pending_usage_buckets := p\<rparr>) = eng_inv x e"
  "eng_inv x (e\<lparr>initial_events := evs\<rparr>) = eng_inv x e"
  "eng_inv x (e\<lparr>suspended := b\<rparr>) = eng_inv x e"
  "eng_inv x (e\<lparr>restriction_reason := rr\<rparr>) = eng_inv x e"
  "eng_inv x (e\<lparr>restriction_level := i3\<rparr>) = eng_inv x e"
  by (simp_all add: eng_inv_def session_ok_def stored_total_def compute_day_key_def now_utc_def)

lemma keeps_engine_record_event [inv_intros]: "keeps x (engine_record_event k p s)"
  unfolding engine_record_event_def by (intro inv_intros)

text \<open>What the session operations leave alone, and the session in memory.\<close>

definition frame :: "engine \<Rightarrow> config \<times> fake_clock \<times> string \<times> real \<times> timer_snapshot \<times> bool" where
  "frame e = (cfg e, clock e, day_key e, played_today e, timer e, suspended e)"

definition session_of :: "engine \<Rightarrow> game_identity option \<times> string option \<times> real" where
  "session_of e = (current_game e, session_id e, session_duration e)"

text \<open>The raise of a flush: a pending entry that the storage layer rejects.\<close>

definition unflushable :: "engine \<Rightarrow> py_exc \<Rightarrow> bool" where
  "unflushable e exc = (usage_bucket_rows (map bucket_entry (pending_usage_buckets e)) = Inl exc)"

lemma flush_wp:
  assumes inv: "eng_inv x e"
    and post: "\<And>e'. eng_inv x e' \<Longrightarrow> frame e' = frame e \<Longrightarrow> session_of e' = session_of e \<Longrightarrow>
      same_sessions (storage e) (storage e') \<Longrightarrow> timer_table (storage e') = timer_table (storage e) \<Longrightarrow>
      adjustments (storage e') = adjustments (storage e) \<Longrightarrow> marks (storage e') = marks (storage e) \<Longrightarrow>
      pending_usage_buckets e' = [] \<Longrightarrow> Q () e'"
    and err: "\<And>exc. unflushable e exc \<Longrightarrow> E exc e"
  shows "wp flush_usage_buckets Q E e"
proof (cases "pending_usage_buckets e = []")
  case True
  with post [of e] inv show ?thesis by (simp add: flush_usage_buckets_def)
next
  case False
  have "db_inv (storage e)" using inv by (simp add: eng_inv_def)
  then have "wp (add_usage_buckets (map bucket_entry (pending_usage_buckets e)))
      (\<lambda>_ d. Q () (e\<lparr>storage := d, pending_usage_buckets := []\<rparr>)) (\<lambda>exc d. E exc (e\<lparr>storage := d\<rparr>)) (storage e)"
    by (rule add_usage_buckets_wp)
      (auto simp: frame_def session_of_def unflushable_def intro!: post err storage_step [OF inv])
  with False show ?thesis by (simp add: flush_usage_buckets_def)
qed

lemma keeps_flush [inv_intros]: "keeps x flush_usage_buckets"
  by (rule holdsI) (rule flush_wp, auto)

lemma keeps_refresh [inv_intros]: "keeps x (refresh_restriction emit)"
  unfolding refresh_restriction_def by (intro inv_intros holds_modify) simp

lemma keeps_warning_text [inv_intros]: "keeps x (warning_text l s n)"
  unfolding warning_text_def Let_def by (intro inv_intros)

lemma keeps_threshold_events [inv_intros]: "keeps x (threshold_events s k p r)"
  unfolding threshold_events_def Let_def by (intro inv_intros)

lemma keeps_warning_events [inv_intros]: "keeps x (warning_events p)"
  unfolding warning_events_def by (intro inv_intros)

lemma keeps_tick_clock [inv_intros]: "keeps x (tick_clock a b)"
  unfolding tick_clock_def record_suspend_gap_def Let_def by (intro inv_intros)

lemma keeps_tick_offset [inv_intros]: "keeps x tick_offset"
  unfolding tick_offset_def by (intro inv_intros holds_modify) simp

section \<open>Accounting and sessions\<close>

lemma account_inv:
  assumes "eng_inv x e" and "0 < s" and "current_game e \<noteq> None"
  shows "eng_inv x (e\<lparr>played_today := played_today e + s, session_duration := session_duration e + s\<rparr>)"
  using assms
  by (auto simp: eng_inv_def session_ok_def stored_total_def compute_day_key_def now_utc_def)

lemma keeps_account [inv_intros]: "keeps x (account_game_elapsed s a b r)"
proof (rule holdsI)
  fix e assume "eng_inv x e"
  then show "wp (account_game_elapsed s a b r) (\<lambda>_. eng_inv x) (\<lambda>_. eng_inv x) e"
    using account_inv [of x e s]
    by (auto simp: account_game_elapsed_def queue_usage_buckets_def split: option.splits)
qed

lemma session_of_inv:
  assumes "eng_inv x e" and "session_id e = Some i"
  obtains u where "current_session (storage e) = Some (i, day_key e, u)" "i \<noteq> []" "current_game e \<noteq> None"
  using assms by (auto simp: eng_inv_def session_ok_def)

lemma other_tables_timer: "other_tables d' = other_tables d \<Longrightarrow> timer_saved t d' = timer_saved t d"
  by (simp add: other_tables_def timer_saved_def load_timer_def)

lemma close_current_game_wp:
  assumes inv: "eng_inv x e"
    and post: "\<And>evs e'. eng_inv x e' \<Longrightarrow> frame e' = frame e \<Longrightarrow> session_of e' = (None, None, 0) \<Longrightarrow>
      (\<And>k. closed_usage k (storage e') = closed_usage k (storage e)
         + (if k = day_key e then session_duration e else 0)) \<Longrightarrow>
      pending_usage_buckets e' \<in> {[], pending_usage_buckets e} \<Longrightarrow> Q evs e'"
    and err: "\<And>exc. unflushable e exc \<Longrightarrow> E exc e"
  shows "wp (close_current_game now reason) Q E e"
proof (cases "session_id e")
  case None
  then have none: "current_game e = None" "session_duration e = 0"
    using inv by (auto simp: eng_inv_def session_ok_def)
  with None have same: "e\<lparr>current_game := None, session_id := None, session_duration := 0\<rparr> = e"
    by simp
  have "Q [] (e\<lparr>current_game := None, session_id := None, session_duration := 0\<rparr>)"
    unfolding same using None none by (intro post inv) (auto simp: session_of_def)
  then show ?thesis using None none(1) by (simp add: close_current_game_def)
next
  case (Some i)
  then obtain u where cur: "current_session (storage e) = Some (i, day_key e, u)" "i \<noteq> []" "current_game e \<noteq> None"
    using session_of_inv [OF inv] by blast
  have dur: "0 \<le> session_duration e" using inv by (simp add: eng_inv_def)
  have "wp flush_usage_buckets (\<lambda>_ e1. wp (close_session i (session_duration e) now reason)
      (\<lambda>_ d. \<forall>evs. Q evs (e1\<lparr>storage := d, current_game := None, session_id := None, session_duration := 0\<rparr>))
      (\<lambda>exc d. E exc (e1\<lparr>storage := d\<rparr>)) (storage e1)) E e"
  proof (rule flush_wp [OF inv])
    fix e1
    assume e1: "eng_inv x e1" "frame e1 = frame e" "session_of e1 = session_of e"
      "same_sessions (storage e) (storage e1)" "pending_usage_buckets e1 = []"
    then have d: "db_inv (storage e1)" "current_session (storage e1) = Some (i, day_key e, u)"
      using cur by (auto simp: eng_inv_def same_sessions_def)
    show "wp (close_session i (session_duration e) now reason)
      (\<lambda>_ d. \<forall>evs. Q evs (e1\<lparr>storage := d, current_game := None, session_id := None, session_duration := 0\<rparr>))
      (\<lambda>exc d. E exc (e1\<lparr>storage := d\<rparr>)) (storage e1)"
    proof (rule close_session_wp [OF d], intro allI post)
      fix d
      assume d: "db_inv d" "current_session d = None" "other_tables d = other_tables (storage e1)"
        "\<And>k. closed_usage k d = closed_usage k (storage e1) + (if k = day_key e then max 0 (session_duration e) else 0)"
      show "eng_inv x (e1\<lparr>storage := d, current_game := None, session_id := None, session_duration := 0\<rparr>)"
        using e1 d dur other_tables_timer [OF d(3)]
        by (simp add: eng_inv_def session_ok_def stored_total_def compute_day_key_def now_utc_def
            frame_def session_of_def)
      show "closed_usage k (storage (e1\<lparr>storage := d, current_game := None, session_id := None, session_duration := 0\<rparr>))
          = closed_usage k (storage e) + (if k = day_key e then session_duration e else 0)" for k
        using d(4) e1(4) dur by (simp add: same_sessions_def)
    qed (use e1 in \<open>simp_all add: frame_def session_of_def\<close>)
  qed (erule err)
  then have "wp flush_usage_buckets (\<lambda>_ e1. wp (close_session i (session_duration e) now reason)
      (\<lambda>_ d. Q (evs (e1\<lparr>storage := d, current_game := None, session_id := None, session_duration := 0\<rparr>))
        (e1\<lparr>storage := d, current_game := None, session_id := None, session_duration := 0\<rparr>))
      (\<lambda>exc d. E exc (e1\<lparr>storage := d\<rparr>)) (storage e1)) E e" for evs
    by (rule wp_mono) (auto elim: wp_mono)
  then show ?thesis
    using Some cur(2,3) by (auto simp: close_current_game_def)
qed

lemma keeps_close_current_game [inv_intros]: "keeps x (close_current_game now reason)"
  by (rule holdsI) (rule close_current_game_wp, auto)

section \<open>The day change\<close>

lemma rotate_wp:
  assumes inv: "eng_inv False e"
    and post: "\<And>evs e'. eng_inv False (e'\<lparr>day_key := k', played_today := usage_for_day k' (storage e')\<rparr>) \<Longrightarrow>
      frame e' = frame e \<Longrightarrow> current_game e' = current_game e \<Longrightarrow> session_duration e' = 0 \<Longrightarrow>
      (\<And>k. closed_usage k (storage e') = closed_usage k (storage e)
         + (if k = day_key e then session_duration e else 0)) \<Longrightarrow>
      pending_usage_buckets e' \<in> {[], pending_usage_buckets e} \<Longrightarrow> Q evs e'"
    and err: "\<And>exc. unflushable e exc \<Longrightarrow> E exc e"
  shows "wp (rotate_current_session now k') Q E e"
proof (cases "session_id e")
  case None
  then have none: "current_game e = None" "session_duration e = 0" "current_session (storage e) = None"
    using inv by (auto simp: eng_inv_def session_ok_def)
  have "eng_inv False (e\<lparr>day_key := k', played_today := usage_for_day k' (storage e)\<rparr>)"
    using inv None none
    by (simp add: eng_inv_def session_ok_def stored_total_def close_session_day)
  then have "Q [] e" by (rule post) (use none in simp_all)
  then show ?thesis using none(1) by (simp add: rotate_current_session_def)
next
  case (Some i)
  then obtain u where cur: "current_session (storage e) = Some (i, day_key e, u)" "i \<noteq> []" "current_game e \<noteq> None"
    using session_of_inv [OF inv] by blast
  have dur: "0 \<le> session_duration e" using inv by (simp add: eng_inv_def)
  have "wp flush_usage_buckets (\<lambda>_ e1. wp (close_session i (session_duration e) now ''daily_reset'')
      (\<lambda>_ d. wp (open_session k' (the (current_game e)) now)
        (\<lambda>sid d'. Q (evs e1) (e1\<lparr>storage := d', session_id := Some sid, session_duration := 0,
            last_checkpoint_mono := mono e1\<rparr>))
        (\<lambda>exc d'. E exc (e1\<lparr>storage := d'\<rparr>)) d)
      (\<lambda>exc d. E exc (e1\<lparr>storage := d\<rparr>)) (storage e1)) E e" for evs mono
  proof (rule flush_wp [OF inv])
    fix e1
    assume e1: "eng_inv False e1" "frame e1 = frame e" "session_of e1 = session_of e"
      "same_sessions (storage e) (storage e1)" "pending_usage_buckets e1 = []"
    then have d1: "db_inv (storage e1)" "current_session (storage e1) = Some (i, day_key e, u)"
      using cur by (auto simp: eng_inv_def same_sessions_def)
    show "wp (close_session i (session_duration e) now ''daily_reset'')
      (\<lambda>_ d. wp (open_session k' (the (current_game e)) now)
        (\<lambda>sid d'. Q (evs e1) (e1\<lparr>storage := d', session_id := Some sid, session_duration := 0,
            last_checkpoint_mono := mono e1\<rparr>))
        (\<lambda>exc d'. E exc (e1\<lparr>storage := d'\<rparr>)) d)
      (\<lambda>exc d. E exc (e1\<lparr>storage := d\<rparr>)) (storage e1)"
    proof (rule close_session_wp [OF d1], rule open_session_wp, assumption, assumption, rule post)
      fix d sid d'
      assume d: "db_inv d" "current_session d = None" "other_tables d = other_tables (storage e1)"
        "\<And>k. closed_usage k d = closed_usage k (storage e1) + (if k = day_key e then max 0 (session_duration e) else 0)"
      assume d': "db_inv d'" "current_session d' = Some (sid, k', 0)" "sid \<noteq> []"
        "\<And>k. closed_usage k d' = closed_usage k d" "other_tables d' = other_tables d"
      have "usage_for_day k' d' = closed_usage k' d'"
        using d' by (simp add: usage_for_day_split)
      moreover have "timer_saved (timer e1) d'"
        using e1 other_tables_timer [OF d(3)] other_tables_timer [OF d'(5)] by (simp add: eng_inv_def)
      ultimately show "eng_inv False ((e1\<lparr>storage := d', session_id := Some sid, session_duration := 0,
            last_checkpoint_mono := mono e1\<rparr>)\<lparr>day_key := k', played_today := usage_for_day k'
              (storage (e1\<lparr>storage := d', session_id := Some sid, session_duration := 0,
            last_checkpoint_mono := mono e1\<rparr>))\<rparr>)"
        using e1 d' cur
        by (simp add: eng_inv_def session_ok_def stored_total_def session_of_def)
      show "closed_usage k (storage (e1\<lparr>storage := d', session_id := Some sid, session_duration := 0,
            last_checkpoint_mono := mono e1\<rparr>))
          = closed_usage k (storage e) + (if k = day_key e then session_duration e else 0)" for k
        using d'(4) d(4) e1(4) dur by (simp add: same_sessions_def)
    qed (use e1 in \<open>simp_all add: frame_def session_of_def\<close>)
  qed (erule err)
  then show ?thesis
    using Some cur(2,3) by (auto simp: rotate_current_session_def)
qed

lemma retention_step:
  assumes "eng_inv False e"
  shows "eng_inv False (e\<lparr>storage := retained days now (storage e)\<rparr>)"
proof -
  have "db_inv (storage e)" using assms by (simp add: eng_inv_def)
  note retained_inv [OF this, of days now] retained_closed_le [OF this, of "day_key e" days now]
  with assms show ?thesis
    by (auto simp: eng_inv_def session_ok_def stored_total_def retained_current timer_saved_def load_timer_def
        retained_tables)
qed

text \<open>After the change the total of the new day is what the tables hold of it; it is exact unless
  retention removed a row of that very day.\<close>

lemma roll_day_wp:
  assumes inv: "eng_inv False e"
    and post: "\<And>evs e'. eng_inv False e' \<Longrightarrow> day_key e' = k' \<Longrightarrow> current_game e' = current_game e \<Longrightarrow>
      session_duration e' = 0 \<Longrightarrow> cfg e' = cfg e \<Longrightarrow> clock e' = clock e \<Longrightarrow> timer e' = timer e \<Longrightarrow>
      suspended e' = suspended e \<Longrightarrow>
      played_today e' = closed_usage k' (storage e) + (if k' = day_key e then session_duration e else 0) \<Longrightarrow>
      pending_usage_buckets e' \<in> {[], pending_usage_buckets e} \<Longrightarrow> Q evs e'"
    and err: "\<And>exc. unflushable e exc \<Longrightarrow> E exc e"
  shows "wp (roll_day now k') Q E e"
  unfolding roll_day_def
proof (simp, rule rotate_wp [OF inv, where k' = k'])
  fix evs e1
  assume e1: "eng_inv False (e1\<lparr>day_key := k', played_today := usage_for_day k' (storage e1)\<rparr>)"
    "frame e1 = frame e" "current_game e1 = current_game e" "session_duration e1 = 0"
    "\<And>k. closed_usage k (storage e1) = closed_usage k (storage e) + (if k = day_key e then session_duration e else 0)"
    "pending_usage_buckets e1 \<in> {[], pending_usage_buckets e}"
  define e2 where "e2 = e1\<lparr>day_key := k', played_today := usage_for_day k' (storage e1)\<rparr>"
  define e3 where "e3 = e2\<lparr>storage := retained (c_retention_days (cfg e1)) now (storage e2)\<rparr>"
  have e2: "eng_inv False e2" using e1(1) by (simp add: e2_def)
  then have e3: "eng_inv False e3" unfolding e3_def by (rule retention_step)
  have "played_today e2 = closed_usage k' (storage e1)"
    using e2 e1(4) by (auto simp: e2_def eng_inv_def session_ok_def usage_for_day_split split: option.splits)
  then have played: "played_today e2 = closed_usage k' (storage e) + (if k' = day_key e then session_duration e else 0)"
    using e1(5) by simp
  have "db_inv (storage e2)" using e2 by (simp add: eng_inv_def)
  then have "wp (enforce_retention (c_retention_days (cfg e1)) now)
     (\<lambda>_ d. \<forall>pl. wp (engine_record_event ''daily.reset'' pl ''info'') (\<lambda>event. Q (evs @ [event])) E (e2\<lparr>storage := d\<rparr>))
     (\<lambda>exc d. E exc (e2\<lparr>storage := d\<rparr>)) (storage e2)"
  proof (rule retention_wp, intro allI)
    fix pl
    have "wp (record_event k t pl i a) (\<lambda>_ d. Q evs' (e3\<lparr>storage := d\<rparr>)) (\<lambda>exc d. E exc (e3\<lparr>storage := d\<rparr>))
       (storage e3)" for k t i a evs'
    proof (rule record_event_wp)
      show "db_inv (storage e3)" using e3 by (simp add: eng_inv_def)
      fix n d
      assume d: "db_inv d" "same_sessions (storage e3) d" "other_tables d = other_tables (storage e3)"
      show "Q evs' (e3\<lparr>storage := d\<rparr>)"
        using storage_step [OF e3 d(1,2)] d(3) e1 played
        by (intro post) (auto simp: e3_def e2_def frame_def other_tables_def)
    qed
    then show "wp (engine_record_event ''daily.reset'' pl ''info'') (\<lambda>event. Q (evs @ [event])) E
        (e2\<lparr>storage := retained (c_retention_days (cfg e1)) now (storage e2)\<rparr>)"
      by (simp add: engine_record_event_def e3_def)
  qed
  then show "wp (enforce_retention (c_retention_days (cfg e1)) now)
        (\<lambda>a d. wp (engine_record_event ''daily.reset''
             (PDict [(''old_day_key'', PStr (day_key e)), (''new_day_key'', PStr k'), (''boundary_at'', PStr (utc_iso now))])
             ''info'') (\<lambda>a. Q (evs @ [a])) E
          (e1\<lparr>day_key := k', played_today := usage_for_day k' (storage e1), storage := d\<rparr>))
        (\<lambda>x d. E x (e1\<lparr>day_key := k', played_today := usage_for_day k' (storage e1), storage := d\<rparr>)) (storage e1)"
    unfolding e2_def by simp (erule wp_mono, auto)
qed (erule err)

lemma keeps_roll_day [inv_intros]: "keeps False (roll_day now k')"
  by (rule holdsI) (rule roll_day_wp, auto)

section \<open>The tick\<close>

lemma keeps_tick_account [inv_intros]: "keeps x (tick_account d r)"
proof (cases x)
  case True
  have "wp (tick_account d r) (\<lambda>_. eng_inv True) (\<lambda>_. eng_inv True) e" if "eng_inv True e" for e
  proof -
    have "compute_day_key e = day_key e" using that by (simp add: eng_inv_def)
    then show ?thesis using that holdsD [OF keeps_account that] by (simp add: tick_account_def tick_split_def)
  qed
  with True show ?thesis by (simp add: holdsI)
next
  case False
  have "keeps False (tick_account d r)"
    unfolding tick_account_def by (intro inv_intros)
  with False show ?thesis by simp
qed

lemma set_and_save:
  assumes inv: "eng_inv x e" and t: "timer_ok t"
    and post: "\<And>d. eng_inv x (e\<lparr>timer := t, storage := d\<rparr>) \<Longrightarrow> Q () d"
  shows "wp (save_timer t) Q E (storage e)"
proof (rule save_timer_wp)
  show "db_inv (storage e)" using inv by (simp add: eng_inv_def)
  fix d
  assume d: "db_inv d" "same_sessions (storage e) d" "0 \<le> t_remaining t \<longrightarrow> load_timer d = t"
  have "timer_saved t d"
    using t d(3) by (auto simp: timer_saved_def timer_ok_def intro!: exI [of _ "t_remaining t"])
  then show "Q () d"
    using inv t d(1,2)
    by (intro post) (simp add: eng_inv_def session_ok_def stored_total_def same_sessions_def compute_day_key_def now_utc_def)
qed

lemma timer_inv: "eng_inv x e \<Longrightarrow> timer_ok (timer e)"
  by (simp add: eng_inv_def)

lemma running_down:
  assumes "eng_inv x e" and "t_state (timer e) = RUNNING" and "0 \<le> r" "r \<le> t_remaining (timer e)" "0 < r"
  shows "eng_inv x (e\<lparr>timer := (timer e)\<lparr>t_remaining := r\<rparr>\<rparr>)"
proof -
  let ?t = "(timer e)\<lparr>t_remaining := r\<rparr>"
  have "timer_ok ?t" using assms by (auto simp: eng_inv_def timer_ok_def)
  moreover obtain y where "t_remaining (timer e) \<le> y" "load_timer (storage e) = (timer e)\<lparr>t_remaining := y\<rparr>"
    "timer_ok (load_timer (storage e))"
    using assms(1) by (auto simp: eng_inv_def timer_saved_def)
  with assms(4) have "timer_saved ?t (storage e)"
    unfolding timer_saved_def by (intro exI [of _ y]) simp
  ultimately show ?thesis
    using assms(1) by (simp add: eng_inv_def session_ok_def stored_total_def compute_day_key_def now_utc_def)
qed

lemma keeps_tick_timer [inv_intros]:
  assumes "0 \<le> delta"
  shows "keeps x (tick_timer delta)"
proof (rule holdsI)
  fix e assume inv: "eng_inv x e"
  show "wp (tick_timer delta) (\<lambda>_. eng_inv x) (\<lambda>_. eng_inv x) e"
  proof (cases "t_state (timer e) = RUNNING \<and> \<not> suspended e \<and> timer_counts e")
    case True
    then have run: "t_state (timer e) = RUNNING" by simp
    show ?thesis
    proof (cases "t_remaining (timer e) - delta \<le> 0")
      case False
      with run assms inv have "eng_inv x (e\<lparr>timer := (timer e)\<lparr>t_remaining := max 0 (t_remaining (timer e) - delta)\<rparr>\<rparr>)"
        by (intro running_down) auto
      with True False show ?thesis by (simp add: tick_timer_def)
    next
      case ended: True
      define t where "t = (timer e)\<lparr>t_remaining := 0, t_state := EXPIRED, t_updated_at := Some (utc_iso (now_utc e))\<rparr>"
      have "timer_ok t" using timer_inv [OF inv] run by (simp add: t_def timer_ok_def)
      then have "wp (save_timer t) (\<lambda>_ d. wp (engine_record_event ''timer.expired'' (PDict []) ''warning'')
          (\<lambda>_. eng_inv x) (\<lambda>_. eng_inv x) (e\<lparr>timer := t, storage := d\<rparr>)) (\<lambda>_ d. eng_inv x (e\<lparr>timer := t, storage := d\<rparr>)) (storage e)"
        by (rule set_and_save [OF inv]) (rule holdsD [OF keeps_engine_record_event])
      with True ended show ?thesis
        by (simp add: tick_timer_def t_def now_utc_def max_absorb1)
    qed
  next
    case False
    with inv show ?thesis by (auto simp: tick_timer_def)
  qed
qed

lemma checkpoint_wp:
  assumes inv: "eng_inv x e" and "truthy (session_id e)" and "\<And>d. eng_inv x (e\<lparr>storage := d\<rparr>) \<Longrightarrow> Q () d"
  shows "wp (checkpoint_session (the (session_id e)) (session_duration e) t) Q E (storage e)"
proof -
  obtain i where i: "session_id e = Some i" using assms(2) by (auto simp: truthy_Some)
  obtain u where cur: "current_session (storage e) = Some (i, day_key e, u)" "i \<noteq> []" "current_game e \<noteq> None"
    using session_of_inv [OF inv i] .
  have d: "db_inv (storage e)" using inv by (simp add: eng_inv_def)
  show ?thesis
    unfolding i option.sel
  proof (rule checkpoint_session_wp [OF d cur(1)], rule assms(3))
    fix d'
    assume d': "db_inv d'" "current_session d' = Some (i, day_key e, max 0 (session_duration e))"
      "\<And>k. closed_usage k d' = closed_usage k (storage e)" "other_tables d' = other_tables (storage e)"
    then show "eng_inv x (e\<lparr>storage := d'\<rparr>)"
      using inv i cur other_tables_timer [OF d'(4)]
      by (simp add: eng_inv_def session_ok_def stored_total_def compute_day_key_def now_utc_def)
  qed
qed

lemma touch_timer_ok: "timer_ok t \<Longrightarrow> t_state t \<noteq> IDLE \<Longrightarrow> timer_ok (t\<lparr>t_updated_at := u\<rparr>)"
  by (simp add: timer_ok_def)

lemma keeps_tick_checkpoint [inv_intros]: "keeps x tick_checkpoint"
  unfolding tick_checkpoint_def
proof (rule holds_bindP [OF holds_gets], rule holds_prod, rule holds_prod, rule holds_thenP, goal_cases)
  case (1 a cs b mono now)
  show ?case
  proof (rule holdsI)
    fix e assume inv: "eng_inv x e"
    have "wp flush_usage_buckets (\<lambda>_. eng_inv x) (\<lambda>_. eng_inv x) e'" if "eng_inv x e'" for e'
      using holdsD [OF keeps_flush that] .
    then show "wp (bindP (gets (\<lambda>e. (session_id e, session_duration e, last_checkpoint_mono e))) (\<lambda>(sid, duration, last).
        whenP (truthy sid \<and> mono - last \<ge> cs)
          (thenP (store (checkpoint_session (the sid) duration now))
          (thenP flush_usage_buckets (modify (\<lambda>e. e\<lparr>last_checkpoint_mono := mono\<rparr>)))))) (\<lambda>_. eng_inv x) (\<lambda>_. eng_inv x) e"
      using inv by (auto intro!: checkpoint_wp [OF inv])
  qed
next
  case (2 a cs b mono now)
  show ?case
  proof (rule holdsI)
    fix e assume inv: "eng_inv x e"
    have "wp (save_timer t) (\<lambda>_ d. eng_inv x (e\<lparr>timer := t, storage := d\<rparr>)) E (storage e)"
      if "t_state (timer e) = RUNNING" "t = (timer e)\<lparr>t_updated_at := u\<rparr>" for u t E
      using that touch_timer_ok [OF timer_inv [OF inv]] by (intro set_and_save [OF inv]) simp_all
    then show "wp (bindP (gets (\<lambda>e. t_state (timer e) = RUNNING \<and> mono - last_timer_persist_mono e \<ge> cs)) (\<lambda>due.
        whenP due
          (thenP (modify (\<lambda>e. e\<lparr>timer := (timer e)\<lparr>t_updated_at := Some (utc_iso now)\<rparr>\<rparr>))
          (bindP (gets timer) (\<lambda>t. thenP (store (save_timer t))
             (modify (\<lambda>e. e\<lparr>last_timer_persist_mono := mono\<rparr>))))))) (\<lambda>_. eng_inv x) (\<lambda>_. eng_inv x) e"
      using inv by simp
  qed
qed

lemma keeps_tick: "keeps x tick"
proof -
  have "keeps x (bindP (gets tick_deltas) f)" if "\<And>a b c. 0 \<le> a \<Longrightarrow> keeps x (f (a, b, c))" for f :: "_ \<Rightarrow> event_prog"
    using that by (auto simp: holds_def tick_deltas_def Let_def)
  note deltas = this
  show ?thesis
    unfolding tick_def
    by (intro holds_bindP [OF holds_gets] deltas) (auto intro!: inv_intros holds_modify)
qed

section \<open>The other operations\<close>

lemma keeps_stop_game: "keeps x (stop_game reason)"
  unfolding stop_game_def by (intro inv_intros keeps_tick)

lemma keeps_suspend: "keeps x (suspend source)"
  unfolding suspend_def by (intro inv_intros keeps_tick holds_modify) simp

lemma keeps_resume: "keeps False (resume source)"
  unfolding resume_def by (intro inv_intros holds_modify) simp_all

lemma keeps_grant_daily_time: "keeps x (grant_daily_time seconds reason)"
  unfolding grant_daily_time_def by (intro inv_intros keeps_tick)

section \<open>Timer operations\<close>

text \<open>What a read of the state is known to give.\<close>

lemma keeps_timer: "(\<And>t. timer_ok t \<Longrightarrow> keeps x (f t)) \<Longrightarrow> keeps x (bindP (gets timer) f)"
  by (simp add: holds_def timer_inv)

lemma keeps_uuid:
  assumes "\<And>g. g \<noteq> [] \<Longrightarrow> keeps x (f g)"
  shows "keeps x (bindP (store new_uuid) f)"
proof (rule holdsI)
  fix e assume inv: "eng_inv x e"
  have "db_inv (storage e)" using inv by (simp add: eng_inv_def)
  then have "wp new_uuid (\<lambda>g d. wp (f g) (\<lambda>_. eng_inv x) (\<lambda>_. eng_inv x) (e\<lparr>storage := d\<rparr>))
      (\<lambda>_ d. eng_inv x (e\<lparr>storage := d\<rparr>)) (storage e)"
    by (rule new_uuid_wp) (auto simp: other_tables_def intro!: holdsD [OF assms] storage_step [OF inv])
  then show "wp (bindP (store new_uuid) f) (\<lambda>_. eng_inv x) (\<lambda>_. eng_inv x) e" by simp
qed

lemma keeps_install: "timer_ok t \<Longrightarrow> keeps x (install_timer t)"
  by (rule holdsI) (auto simp: install_timer_def intro: set_and_save)

lemmas keeps_timer_op = keeps_tick holds_bindP [OF keeps_tick] keeps_timer holds_guard_then keeps_uuid
  holds_thenP [OF keeps_install]

lemma idle_ok [simp]: "timer_ok idle_timer"
  by (simp add: timer_ok_def idle_timer_def)

lemma new_timer_ok: "60 \<le> s \<Longrightarrow> s \<le> 24 * 3600 \<Longrightarrow> g \<noteq> [] \<Longrightarrow> timer_ok (new_timer s a g now)"
  by (simp add: timer_ok_def new_timer_def)

lemma with_state_ok:
  "timer_ok t \<Longrightarrow> t_state t \<in> {RUNNING, PAUSED} \<Longrightarrow> st \<in> {RUNNING, PAUSED} \<Longrightarrow> timer_ok (with_state st now t)"
  by (auto simp: timer_ok_def with_state_def)

lemma adjusted_timer_ok:
  "timer_ok t \<Longrightarrow> t_state t \<noteq> IDLE \<Longrightarrow> timer_ok (adjusted_timer s now t)"
  by (cases "t_state t") (auto simp: timer_ok_def adjusted_timer_def Let_def)

lemma keeps_start_timer: "keeps x (start_timer seconds action)"
  unfolding start_timer_def
  by (rule keeps_timer_op inv_intros new_timer_ok | simp)+

lemma keeps_pause_timer: "keeps x pause_timer"
  unfolding pause_timer_def
  by (rule keeps_timer_op inv_intros with_state_ok | simp)+

lemma keeps_resume_timer: "keeps x resume_timer"
  unfolding resume_timer_def
  by (rule keeps_timer_op inv_intros with_state_ok | simp)+

lemma keeps_cancel_timer: "keeps x cancel_timer"
  unfolding cancel_timer_def
  by (rule keeps_timer_op inv_intros | simp)+

lemma keeps_rearm_timer [inv_intros]: "keeps x (rearm_timer t)"
  unfolding rearm_timer_def by (intro inv_intros)

lemma keeps_adjust_timer: "keeps x (adjust_timer seconds)"
  unfolding adjust_timer_def
  by (rule keeps_timer_op inv_intros adjusted_timer_ok | simp)+

section \<open>Changing the game\<close>

lemma no_game_no_session: "eng_inv x e \<Longrightarrow> current_game e = None \<longleftrightarrow> session_id e = None"
  by (cases "session_id e") (auto simp: eng_inv_def session_ok_def)

lemma open_game_session_wp:
  assumes inv: "eng_inv x e" and none: "session_id e = None"
    and post: "\<And>e' i. eng_inv x e' \<Longrightarrow> frame e' = frame e \<Longrightarrow> session_of e' = (Some game, Some i, 0) \<Longrightarrow>
      (\<And>k. closed_usage k (storage e') = closed_usage k (storage e)) \<Longrightarrow> Q () e'"
  shows "wp (open_game_session game now) Q E e"
proof -
  have e: "db_inv (storage e)" "current_session (storage e) = None" "session_duration e = 0" "current_game e = None"
    using inv none by (auto simp: eng_inv_def session_ok_def)
  have "wp (open_session (day_key e) game now)
      (\<lambda>i d. Q () (e\<lparr>current_game := Some game, storage := d, session_id := Some i, session_duration := 0,
        last_checkpoint_mono := mono\<rparr>)) E' (storage e)" for mono E'
  proof (rule open_session_wp [OF e(1,2)], rule post)
    fix i d
    assume d: "db_inv d" "current_session d = Some (i, day_key e, 0)" "i \<noteq> []"
      "\<And>k. closed_usage k d = closed_usage k (storage e)" "other_tables d = other_tables (storage e)"
    show "eng_inv x (e\<lparr>current_game := Some game, storage := d, session_id := Some i, session_duration := 0,
        last_checkpoint_mono := mono\<rparr>)"
      using inv d e(3) other_tables_timer [OF d(5)]
      by (simp add: eng_inv_def session_ok_def stored_total_def compute_day_key_def now_utc_def)
  qed (simp_all add: frame_def session_of_def)
  then show ?thesis by (simp add: open_game_session_def monotonic_def)
qed

lemma keeps_set_game: "keeps x (set_game game reason)"
  unfolding set_game_def
proof (intro holds_bindP [OF holds_liftP] holds_bindP [OF keeps_tick], rule holdsI, goal_cases)
  case (1 u ev1 e)
  note inv = this
  have open_wp: "wp (open_game_session game now) (\<lambda>_. eng_inv x) (\<lambda>_. eng_inv x) e'"
    if "eng_inv x e'" "session_id e' = None" for e' now
    by (rule open_game_session_wp [OF that])
  show ?case
  proof (cases "case current_game e of None \<Rightarrow> False | Some g \<Rightarrow> same_game g game")
    case True
    then have "eng_inv x (e\<lparr>current_game := Some game\<rparr>)"
      using inv by (auto simp: eng_inv_def session_ok_def stored_total_def compute_day_key_def now_utc_def
          split: option.splits)
    with True show ?thesis by simp
  next
    case False
    show ?thesis
    proof (cases "current_game e")
      case None
      then have "session_id e = None" using no_game_no_session [OF inv] by simp
      with None open_wp [OF inv] show ?thesis by simp
    next
      case (Some g)
      have "wp (close_current_game (now_utc e) ''game_changed'')
        (\<lambda>_. wp (open_game_session game (now_utc e)) (\<lambda>_. eng_inv x) (\<lambda>_. eng_inv x)) (\<lambda>_. eng_inv x) e"
        by (rule close_current_game_wp [OF inv]) (auto simp: session_of_def inv intro!: open_wp)
      with Some False show ?thesis by simp
    qed
  qed
qed

section \<open>Start, configuration and shutdown\<close>

lemma config_step: "eng_inv x e \<Longrightarrow> wf_config c \<Longrightarrow> eng_inv False (e\<lparr>cfg := c\<rparr>)"
  by (simp add: eng_inv_def session_ok_def stored_total_def)

lemma keeps_update_config:
  assumes "wf_config c"
  shows "keeps False (update_config c)"
  unfolding update_config_def case_prod_beta
  by (intro holds_bindP [OF keeps_tick] inv_intros holds_modify) (simp add: config_step [OF _ assms])

lemma keeps_shutdown: "keeps x (shutdown reason)"
proof -
  have close: "keeps x (bindP (gets (\<lambda>e. (session_id e, session_duration e))) (\<lambda>(sid, duration).
      bindP (if truthy sid then thenP (store (checkpoint_session (the sid) duration now)) m else ret []) f))"
    if "keeps x m" "\<And>evs. keeps x (f evs)" for now m and f :: "domain_event list \<Rightarrow> event_prog"
  proof (rule holdsI)
    fix e assume inv: "eng_inv x e"
    have after: "wp m (\<lambda>a. wp (f a) (\<lambda>_. eng_inv x) (\<lambda>_. eng_inv x)) (\<lambda>_. eng_inv x) e'" if "eng_inv x e'" for e'
      using holdsD [OF holds_bindP [OF \<open>keeps x m\<close> \<open>\<And>evs. keeps x (f evs)\<close>] that] by simp
    show "wp (bindP (gets (\<lambda>e. (session_id e, session_duration e))) (\<lambda>(sid, duration).
      bindP (if truthy sid then thenP (store (checkpoint_session (the sid) duration now)) m else ret []) f))
      (\<lambda>_. eng_inv x) (\<lambda>_. eng_inv x) e"
      using holdsD [OF \<open>\<And>evs. keeps x (f evs)\<close> inv] by (auto intro!: checkpoint_wp [OF inv] after)
  qed
  have save: "keeps x (bindP (gets (\<lambda>e. t_state (timer e) = RUNNING)) (\<lambda>running. thenP (whenP running
      (thenP (modify (\<lambda>e. e\<lparr>timer := (timer e)\<lparr>t_updated_at := Some u\<rparr>\<rparr>)) (bindP (gets timer) (\<lambda>t. store (save_timer t)))))
      (ret evs)))" for u and evs :: "domain_event list"
  proof (rule holdsI)
    fix e assume inv: "eng_inv x e"
    have "wp (save_timer t) (\<lambda>_ d. eng_inv x (e\<lparr>timer := t, storage := d\<rparr>)) E (storage e)"
      if "t_state (timer e) = RUNNING" "t = (timer e)\<lparr>t_updated_at := Some u\<rparr>" for t E
      using that touch_timer_ok [OF timer_inv [OF inv]] by (intro set_and_save [OF inv]) simp_all
    with inv show "wp (bindP (gets (\<lambda>e. t_state (timer e) = RUNNING)) (\<lambda>running. thenP (whenP running
      (thenP (modify (\<lambda>e. e\<lparr>timer := (timer e)\<lparr>t_updated_at := Some u\<rparr>\<rparr>)) (bindP (gets timer) (\<lambda>t. store (save_timer t)))))
      (ret evs))) (\<lambda>_. eng_inv x) (\<lambda>_. eng_inv x) e"
      by simp
  qed
  show ?thesis
    unfolding shutdown_def
    by (intro holds_bindP [OF holds_gets] holds_bindP [OF keeps_tick] close keeps_close_current_game save)
qed

text \<open>The states of the start-up: what holds from the recovery on.\<close>

definition starting :: "db \<Rightarrow> config \<Rightarrow> fake_clock \<Rightarrow> engine \<Rightarrow> bool" where
  "starting d c k e =
     (eng_inv True e \<and> current_game e = None \<and> day_key e = compute_day_key (base_engine d c k)
      \<and> played_today e = usage_for_day (day_key e) d \<and> clock e = k \<and> cfg e = c
      \<and> t_remaining (timer e) = t_remaining (load_timer d))"

lemma starting_fields [simp]:
  "starting d c k (e\<lparr>initial_events := evs\<rparr>) = starting d c k e"
  "starting d c k (e\<lparr>restriction_reason := rr\<rparr>) = starting d c k e"
  "starting d c k (e\<lparr>restriction_level := i\<rparr>) = starting d c k e"
  by (simp_all add: starting_def)

lemma recovery_starts:
  assumes d: "db_inv d" and c: "wf_config c" and t: "timer_ok (load_timer d)"
  shows "wp (store (recover_open_session now)) (\<lambda>_. starting d c k) (\<lambda>_ _. False) (base_engine d c k)"
proof -
  have "wp (recover_open_session now) (\<lambda>r d'. starting d c k (base_engine d c k\<lparr>storage := d'\<rparr>)) (\<lambda>_ _. False) d"
  proof (rule recover_wp [OF d])
    fix d'
    assume d': "db_inv d'" "current_session d' = None" "\<And>j. closed_usage j d' = usage_for_day j d"
      "other_tables d' = other_tables d"
    have "load_timer d' = load_timer d" using d'(4) by (simp add: load_timer_def other_tables_def)
    then have "timer_saved (load_timer d) d'"
      using t unfolding timer_saved_def by (intro exI [of _ "t_remaining (load_timer d)"]) simp
    then show "starting d c k (base_engine d c k\<lparr>storage := d'\<rparr>)"
      using d' c t
      by (simp add: starting_def eng_inv_def session_ok_def stored_total_def compute_day_key_def now_utc_def
          base_engine_def Let_def)
  qed
  then show ?thesis by (simp add: base_engine_def Let_def)
qed

lemma pause_starts:
  assumes "starting d c k e"
  shows "wp pause_restored_timer (\<lambda>_ e. starting d c k e \<and> t_state (timer e) \<noteq> RUNNING) (\<lambda>_ _. False) e"
proof (cases "t_state (timer e) = RUNNING")
  case True
  define t where "t = (timer e)\<lparr>t_state := PAUSED, t_updated_at := Some (utc_iso (now_utc e))\<rparr>"
  have inv: "eng_inv True e" using assms by (simp add: starting_def)
  have "timer_ok t" using timer_inv [OF inv] True by (simp add: timer_ok_def t_def)
  then have "wp (save_timer t) (\<lambda>_ d'. starting d c k (e\<lparr>timer := t, storage := d'\<rparr>) \<and> t_state t \<noteq> RUNNING)
      (\<lambda>_ _. False) (storage e)"
    by (rule set_and_save [OF inv]) (use assms in \<open>simp add: starting_def t_def\<close>)
  then show ?thesis using True by (simp add: pause_restored_timer_def t_def)
qed (use assms in \<open>simp add: pause_restored_timer_def\<close>)

lemma start_engine_wp:
  assumes "db_inv d" and "wf_config c" and "timer_ok (load_timer d)"
  shows "wp start_engine (\<lambda>_ e. starting d c k e \<and> t_state (timer e) \<noteq> RUNNING) (\<lambda>_ _. False) (base_engine d c k)"
proof -
  have announce: "wp (announce_recovery r) (\<lambda>_. starting d c k) (\<lambda>_ _. False) e" if "starting d c k e" for r e
    using that by (cases r) (simp_all add: announce_recovery_def)
  have refresh: "wp (refresh_restriction False) (\<lambda>_ e. starting d c k e \<and> t_state (timer e) \<noteq> RUNNING) (\<lambda>_ _. False) e"
    if "starting d c k e \<and> t_state (timer e) \<noteq> RUNNING" for e
    using that by (simp add: refresh_restriction_def split: prod.splits)
  show ?thesis
    unfolding start_engine_def wp_bindP wp_gets wp_thenP wp_ret
    by (rule wp_mono [OF recovery_starts [OF assms]], rule wp_mono [OF announce], assumption,
        rule wp_mono [OF pause_starts], assumption, rule wp_mono [OF refresh]) simp_all
qed

lemma new_engine_inv:
  assumes "db_inv d" and "wf_config c" and "timer_ok (load_timer d)"
  shows "\<exists>e. new_engine d c k = (Inr (), e) \<and> starting d c k e \<and> t_state (timer e) \<noteq> RUNNING"
  using wp_returns [OF start_engine_wp [OF assms, of k]] by (auto simp: new_engine_def)

end
