(* ===== verification/EngineRun.thy ===== *)
theory EngineRun
  imports EngineInv
begin

text \<open>
  The engine over time: a step relation with the requests of the service, the passing of time
  (any new clock reading, backwards too) and restarts on the stored tables, and what holds in
  every reachable state. A request that raises is a step to the state the raise leaves.
\<close>

section \<open>Requests\<close>

datatype request =
    Tick
  | SetGame game_identity string
  | StopGame string
  | Suspend string
  | Resume string
  | StartTimer int string
  | PauseTimer
  | ResumeTimer
  | CancelTimer
  | AdjustTimer int
  | GrantDailyTime int string
  | UpdateConfig config
  | Shutdown string

fun run_request :: "request \<Rightarrow> event_prog" where
  "run_request Tick = tick"
| "run_request (SetGame g r) = set_game g r"
| "run_request (StopGame r) = stop_game r"
| "run_request (Suspend s) = suspend s"
| "run_request (Resume s) = resume s"
| "run_request (StartTimer n a) = start_timer n a"
| "run_request PauseTimer = pause_timer"
| "run_request ResumeTimer = resume_timer"
| "run_request CancelTimer = cancel_timer"
| "run_request (AdjustTimer n) = adjust_timer n"
| "run_request (GrantDailyTime n r) = grant_daily_time n r"
| "run_request (UpdateConfig c) = update_config c"
| "run_request (Shutdown r) = shutdown r"

text \<open>\<open>update_config\<close> gets a configuration that \<open>validate_config\<close> accepted.\<close>

definition request_ok :: "request \<Rightarrow> bool" where
  "request_ok r = (case r of UpdateConfig c \<Rightarrow> wf_config c | _ \<Rightarrow> True)"

inductive step :: "engine \<Rightarrow> engine \<Rightarrow> bool" where
  request: "request_ok r \<Longrightarrow> run_request r e = (res, e') \<Longrightarrow> step e e'"
| time: "step e (e\<lparr>clock := k\<rparr>)"
| restart: "wf_config c \<Longrightarrow> new_engine (storage e) c k = (res, e') \<Longrightarrow> step e e'"

inductive_cases step_cases: "step e e'"

inductive reachable :: "engine \<Rightarrow> bool" where
  install: "inj src \<Longrightarrow> \<forall>n. src n \<noteq> [] \<Longrightarrow> wf_config c \<Longrightarrow> new_engine (empty_db src) c k = (res, e) \<Longrightarrow> reachable e"
| step: "reachable e \<Longrightarrow> step e e' \<Longrightarrow> reachable e'"

section \<open>The invariant along a run\<close>

lemma keeps_request:
  assumes "request_ok r"
  shows "keeps False (run_request r)"
  using assms
  by (cases r) (simp_all add: request_ok_def keeps_tick keeps_set_game keeps_stop_game keeps_suspend keeps_resume
      keeps_start_timer keeps_pause_timer keeps_resume_timer keeps_cancel_timer keeps_adjust_timer
      keeps_grant_daily_time keeps_update_config keeps_shutdown)

lemma holds_run: "holds I m \<Longrightarrow> I s \<Longrightarrow> m s = (r, s') \<Longrightarrow> I s'"
  using holdsD [of I m s] by (auto simp: wp_def split: sum.splits)

lemma clock_inv: "eng_inv False e \<Longrightarrow> eng_inv False (e\<lparr>clock := k\<rparr>)"
  by (simp add: eng_inv_def session_ok_def stored_total_def)

lemma weaken_inv: "eng_inv x e \<Longrightarrow> eng_inv False e"
  by (simp add: eng_inv_def)

lemma new_engine_eng_inv:
  assumes "db_inv d" "wf_config c" "timer_ok (load_timer d)" "new_engine d c k = (res, e)"
  shows "eng_inv False e"
  using new_engine_inv [OF assms(1-3), of k] assms(4) by (auto simp: starting_def weaken_inv)

lemma stored_timer_ok: "eng_inv x e \<Longrightarrow> timer_ok (load_timer (storage e))"
  by (auto simp: eng_inv_def timer_saved_def)

lemma step_inv:
  assumes "step e e'" and "eng_inv False e"
  shows "eng_inv False e'"
  using assms
proof cases
  case (request r res)
  then show ?thesis using holds_run [OF keeps_request] assms(2) by blast
next
  case (time k)
  then show ?thesis using clock_inv assms(2) by simp
next
  case (restart c k res)
  have "db_inv (storage e)" using assms(2) by (simp add: eng_inv_def)
  then show ?thesis
    using restart stored_timer_ok [OF assms(2)] by (intro new_engine_eng_inv)
qed

lemma empty_timer: "load_timer (empty_db src) = idle_timer"
  by (simp add: load_timer_def empty_db_def)

lemma reachable_inv: "reachable e \<Longrightarrow> eng_inv False e"
proof (induction rule: reachable.induct)
  case (install src c k res e)
  then show ?case
    using new_engine_eng_inv [of "empty_db src" c k res e] empty_db_inv [of src] by (simp add: empty_timer)
next
  case (step e e')
  then show ?case using step_inv by blast
qed

section \<open>What the invariant says\<close>

lemma inv_one_session:
  assumes "eng_inv x e"
  shows "case session_id e of
      None \<Rightarrow> current_game e = None \<and> session_duration e = 0 \<and> filter is_open (sessions (storage e)) = []
    | Some i \<Rightarrow> current_game e \<noteq> None \<and> (\<exists>r. filter is_open (sessions (storage e)) = [r] \<and> s_id r = i
        \<and> s_day_key r = day_key e \<and> 0 \<le> s_duration r \<and> s_duration r \<le> session_duration e)"
proof -
  have inv: "session_ok e" "db_inv (storage e)"
    using assms by (simp_all add: eng_inv_def)
  show ?thesis
  proof (cases "session_id e")
    case None
    then have "open_row (storage e) = None" using inv(1) by (simp add: session_ok_def current_session_def)
    with None inv(1) show ?thesis by (simp add: session_ok_def open_row_None)
  next
    case (Some i)
    then obtain r where r: "open_row (storage e) = Some r" "s_id r = i" "s_day_key r = day_key e"
      "0 \<le> s_duration r" "s_duration r \<le> session_duration e"
      using inv(1) by (auto simp: session_ok_def current_session_def)
    obtain pre post where "sessions (storage e) = pre @ r # post" "is_open r"
      "\<forall>x \<in> set pre \<union> set post. \<not> is_open x \<and> s_id x \<noteq> s_id r"
      by (rule one_open [OF inv(2) r(1)])
    then have "filter is_open (sessions (storage e)) = [r]" by (simp add: filter_empty_conv)
    with r Some inv(1) show ?thesis by (auto simp: session_ok_def)
  qed
qed

lemma inv_usage_covered:
  assumes inv: "eng_inv x e"
  shows "0 \<le> usage_for_day (day_key e) (storage e) \<and> usage_for_day (day_key e) (storage e) \<le> played_today e"
proof
  have d: "db_inv (storage e)" using inv by (simp add: eng_inv_def)
  then show "0 \<le> usage_for_day (day_key e) (storage e)" by (rule usage_for_day_nonneg)
  have "usage_for_day (day_key e) (storage e) \<le> stored_total e"
    using inv unfolding usage_for_day_split [OF d] stored_total_def eng_inv_def session_ok_def
    by (cases "session_id e") auto
  then show "usage_for_day (day_key e) (storage e) \<le> played_today e" using inv by (simp add: eng_inv_def)
qed

lemma inv_timer:
  assumes "eng_inv x e"
  shows "0 \<le> t_remaining (timer e) \<and> t_remaining (timer e) \<le> 86400
    \<and> (case t_state (timer e) of IDLE \<Rightarrow> timer e = idle_timer | EXPIRED \<Rightarrow> t_remaining (timer e) = 0
       | _ \<Rightarrow> 0 < t_remaining (timer e) \<and> truthy (t_generation (timer e)))
    \<and> (\<exists>x \<ge> t_remaining (timer e). load_timer (storage e) = (timer e)\<lparr>t_remaining := x\<rparr>)"
proof -
  have ok: "timer_ok (timer e)" and saved: "timer_saved (timer e) (storage e)"
    using assms by (simp_all add: eng_inv_def)
  have "case t_state (timer e) of IDLE \<Rightarrow> timer e = idle_timer | EXPIRED \<Rightarrow> t_remaining (timer e) = 0
       | _ \<Rightarrow> 0 < t_remaining (timer e) \<and> truthy (t_generation (timer e))"
    using ok by (cases "t_state (timer e)") (simp_all add: timer_ok_def)
  moreover have "\<exists>x \<ge> t_remaining (timer e). load_timer (storage e) = (timer e)\<lparr>t_remaining := x\<rparr>"
    using saved unfolding timer_saved_def by blast
  ultimately show ?thesis using ok by (simp add: timer_ok_def)
qed

end
