(* ===== verification/Tick.thy ===== *)
theory Tick
  imports EngineRun
begin

text \<open>
  What a tick does to the counters: the elapsed time it charges, how it runs the timer down,
  the state it settles in, and that a second tick at the same clock reading changes nothing.
\<close>

section \<open>Frames\<close>

type_synonym usage_view = "config \<times> fake_clock \<times> string \<times> real \<times> real \<times> game_identity option \<times> string option
  \<times> bool \<times> real \<times> instant"

definition usage_view :: "engine \<Rightarrow> usage_view" where
  "usage_view e = (cfg e, clock e, day_key e, played_today e, session_duration e, current_game e, session_id e,
     suspended e, last_tick_mono e, last_tick_wall e)"

lemma holds_store: "(\<And>e d. I e \<Longrightarrow> I (e\<lparr>storage := d\<rparr>)) \<Longrightarrow> holds I (store m)"
  by (auto simp: holds_def wp_def store_def split: prod.splits sum.splits)

text \<open>A predicate that looks at no table, at no bucket and not at the restriction.\<close>

definition deaf :: "(engine \<Rightarrow> bool) \<Rightarrow> bool" where
  "deaf I = (\<forall>e. (\<forall>d. I (e\<lparr>storage := d\<rparr>) = I e) \<and> (\<forall>p. I (e\<lparr>pending_usage_buckets := p\<rparr>) = I e)
     \<and> (\<forall>r. I (e\<lparr>restriction_reason := r\<rparr>) = I e) \<and> (\<forall>l. I (e\<lparr>restriction_level := l\<rparr>) = I e)
     \<and> (\<forall>n. I (e\<lparr>last_checkpoint_mono := n\<rparr>) = I e))"

lemma deaf_store [inv_intros]: "deaf I \<Longrightarrow> holds I (store m)"
  by (rule holds_store) (simp add: deaf_def)

lemma deaf_record [inv_intros]: "deaf I \<Longrightarrow> holds I (engine_record_event k p s)"
  unfolding engine_record_event_def by (intro inv_intros)

lemma deaf_flush [inv_intros]: "deaf I \<Longrightarrow> holds I flush_usage_buckets"
  unfolding flush_usage_buckets_def by (intro inv_intros holds_modify) (simp_all add: deaf_def)

lemma deaf_refresh [inv_intros]: "deaf I \<Longrightarrow> holds I (refresh_restriction b)"
  unfolding refresh_restriction_def by (intro inv_intros holds_modify) (simp_all add: deaf_def)

lemma deaf_warning_text [inv_intros]: "holds I (warning_text l s n)"
  unfolding warning_text_def Let_def by (intro inv_intros)

lemma deaf_threshold [inv_intros]: "deaf I \<Longrightarrow> holds I (threshold_events s k p r)"
  unfolding threshold_events_def Let_def by (intro inv_intros)

lemma deaf_warnings [inv_intros]: "deaf I \<Longrightarrow> holds I (warning_events p)"
  unfolding warning_events_def by (intro inv_intros)

lemma deaf_tick_clock [inv_intros]: "deaf I \<Longrightarrow> holds I (tick_clock a b)"
  unfolding tick_clock_def record_suspend_gap_def Let_def by (intro inv_intros)

lemma deaf_usage_view: "deaf (\<lambda>e. usage_view e = v \<and> timer e = t)" "deaf (\<lambda>e. usage_view e = v)"
  by (simp_all add: deaf_def usage_view_def)

lemma usage_view_offset [inv_intros]: "holds (\<lambda>e. usage_view e = v \<and> timer e = t) tick_offset"
  unfolding tick_offset_def by (intro inv_intros holds_modify deaf_usage_view) (simp add: usage_view_def)

lemma usage_view_timer [inv_intros]: "holds (\<lambda>e. usage_view e = v) (tick_timer delta)"
  unfolding tick_timer_def by (intro inv_intros holds_modify deaf_usage_view) (simp_all add: usage_view_def)

lemma usage_view_checkpoint [inv_intros]: "holds (\<lambda>e. usage_view e = v) tick_checkpoint"
  unfolding tick_checkpoint_def by (intro inv_intros holds_modify deaf_usage_view) (simp_all add: usage_view_def)

section \<open>The time a tick charges\<close>

definition active_seconds :: "engine \<Rightarrow> real" where
  "active_seconds e = (if suspended e \<or> current_game e = None then 0 else max 0 (monotonic e - last_tick_mono e))"

definition charged :: "engine \<Rightarrow> usage_view" where
  "charged e = (cfg e, clock e, day_key e, played_today e + active_seconds e, session_duration e + active_seconds e,
     current_game e, session_id e, suspended e, last_tick_mono e, last_tick_wall e)"

lemma account_charges:
  assumes "\<not> suspended e"
  shows "wp (account_game_elapsed (max 0 (monotonic e - last_tick_mono e)) a b r)
    (\<lambda>_ e'. usage_view e' = charged e \<and> timer e' = timer e) E e"
  using assms
  by (cases "current_game e")
    (auto simp: account_game_elapsed_def queue_usage_buckets_def usage_view_def charged_def active_seconds_def max_def)

lemma tick_account_charges:
  assumes "compute_day_key e = day_key e" and "delta = max 0 (monotonic e - last_tick_mono e)"
  shows "wp (tick_account delta r) (\<lambda>_ e'. usage_view e' = charged e \<and> timer e' = timer e) E e"
proof (cases "suspended e")
  case True
  then show ?thesis
    using assms(1) by (simp add: tick_account_def tick_split_def usage_view_def charged_def active_seconds_def)
next
  case False
  with account_charges [OF False, where E = E] assms show ?thesis
    by (simp add: tick_account_def tick_split_def)
qed

definition settled_view :: "engine \<Rightarrow> usage_view" where
  "settled_view e = (cfg e, clock e, day_key e, played_today e + active_seconds e, session_duration e + active_seconds e,
     current_game e, session_id e, suspended e, monotonic e, now_utc e)"

lemma tick_charges:
  assumes day: "compute_day_key e = day_key e"
  shows "wp tick (\<lambda>_ e'. usage_view e' = settled_view e) (\<lambda>_ _. True) e"
proof -
  define Pre where "Pre e1 = (usage_view e1 = usage_view e \<and> timer e1 = timer e)" for e1
  define Post where "Post e1 = (usage_view e1 = charged e)" for e1
  have pre: "Pre e" by (simp add: Pre_def)
  have clk: "holds Pre (tick_clock a b)" for a b
    unfolding Pre_def by (intro inv_intros deaf_usage_view)
  have off: "holds Pre tick_offset" unfolding Pre_def by (rule inv_intros)
  have acc: "wp (tick_account delta r) (\<lambda>_. Post) (\<lambda>_ _. True) e1"
    if "Pre e1" "delta = max 0 (monotonic e - last_tick_mono e)" for e1 delta r
  proof (rule wp_mono [OF tick_account_charges])
    show "compute_day_key e1 = day_key e1" "delta = max 0 (monotonic e1 - last_tick_mono e1)"
      using that day by (auto simp: Pre_def usage_view_def compute_day_key_def now_utc_def monotonic_def)
    fix e' assume "usage_view e' = charged e1 \<and> timer e' = timer e1"
    with that(1) show "Post e'"
      by (auto simp: Post_def Pre_def usage_view_def charged_def active_seconds_def monotonic_def)
  qed simp
  have rest: "holds Post (tick_timer a)" "holds Post tick_checkpoint" "holds Post (warning_events p)"
    "holds Post (refresh_restriction True)" for a p
    unfolding Post_def by (intro inv_intros deaf_usage_view)+
  have final: "usage_view (e1\<lparr>last_tick_mono := monotonic e1, last_tick_wall := now_utc e1\<rparr>) = settled_view e"
    if "Post e1" for e1
    using that by (auto simp: Post_def usage_view_def charged_def settled_view_def monotonic_def now_utc_def)
  have delta: "fst (tick_deltas e) = max 0 (monotonic e - last_tick_mono e)"
    by (simp add: tick_deltas_def Let_def)
  show ?thesis
    unfolding tick_def wp_bindP [of "gets _"] wp_gets case_prod_beta
    by (rule wp_bindI [OF holds_post [OF clk pre]], rule wp_bindI [OF holds_post [OF off]], assumption,
        rule wp_bindI [OF acc [OF _ delta]], assumption, rule wp_bindI [OF holds_post [OF rest(1)]], assumption,
        rule wp_thenI [OF holds_post [OF rest(2)]], assumption,
        rule wp_bindI [OF holds_post [OF rest(3)]], assumption,
        rule wp_bindI [OF holds_post [OF rest(4)]], assumption) (simp add: final)
qed

section \<open>The timer over a tick\<close>

type_synonym timer_view = "config \<times> fake_clock \<times> game_identity option \<times> bool \<times> real \<times> timer_snapshot"

definition timer_view :: "engine \<Rightarrow> timer_view" where
  "timer_view e = (cfg e, clock e, current_game e, suspended e, last_tick_mono e, timer e)"

lemma deaf_timer_view: "deaf (\<lambda>e. timer_view e = v)"
  by (simp add: deaf_def timer_view_def)

lemma timer_view_offset [inv_intros]: "holds (\<lambda>e. timer_view e = v) tick_offset"
  unfolding tick_offset_def by (intro inv_intros holds_modify deaf_timer_view) (simp_all add: timer_view_def)

lemma timer_view_rotate [inv_intros]: "holds (\<lambda>e. timer_view e = v) (rotate_current_session now k)"
  unfolding rotate_current_session_def
  by (intro inv_intros holds_modify deaf_timer_view) (simp_all add: timer_view_def)

lemma timer_view_roll [inv_intros]: "holds (\<lambda>e. timer_view e = v) (roll_day now k)"
  unfolding roll_day_def by (intro inv_intros holds_modify deaf_timer_view) (simp_all add: timer_view_def)

lemma timer_view_account [inv_intros]: "holds (\<lambda>e. timer_view e = v) (tick_account d r)"
  unfolding tick_account_def account_game_elapsed_def queue_usage_buckets_def
  by (intro inv_intros holds_modify deaf_timer_view) (simp_all add: timer_view_def)

definition ticked_timer :: "engine \<Rightarrow> timer_snapshot" where
  "ticked_timer e =
     (let t = timer e; r = max 0 (t_remaining t - max 0 (monotonic e - last_tick_mono e))
      in if t_state t = RUNNING \<and> \<not> suspended e \<and> timer_counts e
         then t\<lparr>t_remaining := r, t_state := (if r = 0 then EXPIRED else RUNNING)\<rparr> else t)"

text \<open>The timer but for the time of its last change.\<close>

definition timer_core :: "timer_snapshot \<Rightarrow> timer_snapshot" where
  "timer_core t = t\<lparr>t_updated_at := None\<rparr>"

lemma timer_core_fields:
  "timer_core a = timer_core b \<Longrightarrow> t_remaining a = t_remaining b \<and> t_state a = t_state b
     \<and> t_generation a = t_generation b"
  by (cases a, cases b) (simp add: timer_core_def)

lemma deaf_core: "deaf (\<lambda>e. timer_core (timer e) = t)"
  by (simp add: deaf_def)

lemma core_checkpoint [inv_intros]: "holds (\<lambda>e. timer_core (timer e) = t) tick_checkpoint"
  unfolding tick_checkpoint_def by (intro inv_intros holds_modify deaf_core) (simp_all add: timer_core_def)

lemma tick_timer_runs:
  assumes "delta = max 0 (monotonic e - last_tick_mono e)"
  shows "wp (tick_timer delta) (\<lambda>_ e'. timer_core (timer e') = timer_core (ticked_timer e)) (\<lambda>_ _. True) e"
proof (cases "t_state (timer e) = RUNNING \<and> \<not> suspended e \<and> timer_counts e")
  case True
  note run = this
  show ?thesis
  proof (cases "t_remaining (timer e) \<le> delta")
    case True
    define t where "t = (timer e)\<lparr>t_remaining := 0, t_state := EXPIRED, t_updated_at := Some (utc_iso (now_utc e))\<rparr>"
    have "wp (engine_record_event ''timer.expired'' (PDict []) ''warning'')
        (\<lambda>_ e'. timer_core (timer e') = timer_core t) (\<lambda>_ _. True) e1" if "timer e1 = t" for e1
      by (rule holds_post, intro inv_intros deaf_core) (simp add: that)
    then have "wp (save_timer t) (\<lambda>_ d. wp (engine_record_event ''timer.expired'' (PDict []) ''warning'')
        (\<lambda>_ e'. timer_core (timer e') = timer_core t) (\<lambda>_ _. True) (e\<lparr>timer := t, storage := d\<rparr>)) E (storage e)" for E
      by (simp add: save_timer_def)
    moreover have "timer_core (ticked_timer e) = timer_core t"
      using run True assms by (simp add: ticked_timer_def Let_def t_def timer_core_def)
    ultimately show ?thesis
      using run True by (simp add: tick_timer_def t_def now_utc_def max_absorb1)
  next
    case False
    then show ?thesis
      using run assms by (simp add: tick_timer_def ticked_timer_def Let_def timer_core_def)
  qed
next
  case False
  then have "ticked_timer e = timer e" by (auto simp: ticked_timer_def Let_def)
  with False show ?thesis by (auto simp: tick_timer_def)
qed

lemma ticked_timer_view: "timer_view e1 = timer_view e \<Longrightarrow> ticked_timer e1 = ticked_timer e"
  by (simp add: timer_view_def ticked_timer_def timer_counts_def monotonic_def)

lemma tick_runs_timer:
  "wp tick (\<lambda>_ e'. timer_core (timer e') = timer_core (ticked_timer e)) (\<lambda>_ _. True) e"
proof -
  define Pre where "Pre e1 = (timer_view e1 = timer_view e)" for e1
  define Post where "Post e1 = (timer_core (timer e1) = timer_core (ticked_timer e))" for e1 :: engine
  have pre: "Pre e" by (simp add: Pre_def)
  have clk: "holds Pre (tick_clock a b)" "holds Pre tick_offset" "holds Pre (tick_account a r)" for a b r
    unfolding Pre_def by (intro inv_intros deaf_timer_view)+
  have run: "wp (tick_timer delta) (\<lambda>_. Post) (\<lambda>_ _. True) e1"
    if "Pre e1" "delta = max 0 (monotonic e - last_tick_mono e)" for e1 delta
  proof -
    have view: "timer_view e1 = timer_view e" using that(1) by (simp add: Pre_def)
    then have "delta = max 0 (monotonic e1 - last_tick_mono e1)"
      using that(2) by (simp add: timer_view_def monotonic_def)
    from tick_timer_runs [OF this] show ?thesis
      unfolding Post_def ticked_timer_view [OF view] .
  qed
  have rest: "holds Post tick_checkpoint" "holds Post (warning_events p)" "holds Post (refresh_restriction True)" for p
    unfolding Post_def by (intro inv_intros deaf_core)+
  have final: "Post (e1\<lparr>last_tick_mono := m, last_tick_wall := w\<rparr>) = Post e1" for e1 m w
    by (simp add: Post_def)
  have delta: "fst (tick_deltas e) = max 0 (monotonic e - last_tick_mono e)"
    by (simp add: tick_deltas_def Let_def)
  show ?thesis
    unfolding tick_def wp_bindP [of "gets _"] wp_gets case_prod_beta Post_def [symmetric]
    by (rule wp_bindI [OF holds_post [OF clk(1) pre]], rule wp_bindI [OF holds_post [OF clk(2)]], assumption,
        rule wp_bindI [OF holds_post [OF clk(3)]], assumption,
        rule wp_bindI [OF run [OF _ delta]], assumption,
        rule wp_thenI [OF holds_post [OF rest(1)]], assumption,
        rule wp_bindI [OF holds_post [OF rest(2)]], assumption,
        rule wp_bindI [OF holds_post [OF rest(3)]], assumption) (simp add: final)
qed

section \<open>The state a tick settles in\<close>

definition settled :: "engine \<Rightarrow> bool" where
  "settled e = (last_tick_mono e = monotonic e \<and> last_tick_wall e = now_utc e \<and> last_offset_seconds e = utc_offset e
     \<and> day_key e = compute_day_key e \<and> restriction_of e = (restriction_reason e, restriction_level e))"

text \<open>What the limit, the snapshot and the restriction depend on.\<close>

type_synonym policy_view = "config \<times> fake_clock \<times> string \<times> real \<times> timer_state \<times> real \<times> string \<times> string option
  \<times> adjustment_row list"

definition policy_view :: "engine \<Rightarrow> policy_view" where
  "policy_view e = (cfg e, clock e, day_key e, played_today e, t_state (timer e), t_remaining (timer e), t_action (timer e),
     t_generation (timer e), adjustments (storage e))"

lemma policy_cong:
  assumes "policy_view e' = policy_view e"
  shows "effective_daily_limit e' = effective_daily_limit e" "restriction_of e' = restriction_of e"
    "warning_snapshot e' = warning_snapshot e"
proof -
  have eqs: "cfg e' = cfg e" "now_utc e' = now_utc e" "day_key e' = day_key e" "played_today e' = played_today e"
    "t_state (timer e') = t_state (timer e)" "t_remaining (timer e') = t_remaining (timer e)"
    "t_action (timer e') = t_action (timer e)" "t_generation (timer e') = t_generation (timer e)"
    "adjustment_for_day k (storage e') = adjustment_for_day k (storage e)" for k
    using assms by (simp_all add: policy_view_def now_utc_def adjustment_for_day_def)
  show limit: "effective_daily_limit e' = effective_daily_limit e"
    by (simp only: effective_daily_limit_def eqs)
  show "restriction_of e' = restriction_of e" by (simp only: restriction_of_def limit eqs)
  show "warning_snapshot e' = warning_snapshot e" by (simp only: warning_snapshot_def limit eqs)
qed

lemma refresh_settles:
  "wp (refresh_restriction b) (\<lambda>_ e'. restriction_of e' = (restriction_reason e', restriction_level e')) E e"
proof -
  have "wp (engine_record_event k p s) (\<lambda>_ e'. restriction_of e' = (restriction_reason e', restriction_level e')) E e1"
    if "restriction_of e1 = (restriction_reason e1, restriction_level e1)" for k p s e1
  proof -
    have "policy_view (e1\<lparr>storage := (storage e1)\<lparr>events := x, next_event_id := n\<rparr>\<rparr>) = policy_view e1" for x n
      by (simp add: policy_view_def)
    from policy_cong(2) [OF this] that show ?thesis by (simp add: engine_record_event_def)
  qed
  moreover have "policy_view (e\<lparr>restriction_reason := r, restriction_level := l\<rparr>) = policy_view e" for r l
    by (simp add: policy_view_def)
  note policy_cong(2) [OF this]
  ultimately show ?thesis
    by (cases "restriction_of e") (auto simp: refresh_restriction_def)
qed

type_synonym calendar_view = "config \<times> fake_clock \<times> int"

definition calendar_view :: "engine \<Rightarrow> calendar_view" where
  "calendar_view e = (cfg e, clock e, last_offset_seconds e)"

lemma calendar_keeps:
  "calendar_view e' = calendar_view e \<Longrightarrow> utc_offset e' = utc_offset e \<and> compute_day_key e' = compute_day_key e
     \<and> monotonic e' = monotonic e \<and> now_utc e' = now_utc e"
  by (simp add: calendar_view_def utc_offset_def compute_day_key_def now_utc_def monotonic_def)

definition on_day :: "calendar_view \<Rightarrow> string \<Rightarrow> engine \<Rightarrow> bool" where
  "on_day v k e = (calendar_view e = v \<and> day_key e = k)"

lemma deaf_on_day: "deaf (on_day v k)"
  by (simp add: deaf_def on_day_def calendar_view_def)

lemma deaf_calendar: "deaf (\<lambda>e. calendar_view e = v)"
  by (simp add: deaf_def calendar_view_def)

lemma on_day_account [inv_intros]: "holds (on_day v k) (account_game_elapsed s a b r)"
  unfolding account_game_elapsed_def queue_usage_buckets_def
  by (intro inv_intros holds_modify) (simp_all add: on_day_def calendar_view_def)

lemma on_day_timer [inv_intros]: "holds (on_day v k) (tick_timer d)"
  unfolding tick_timer_def
  by (intro inv_intros holds_modify deaf_on_day) (simp_all add: on_day_def calendar_view_def)

lemma on_day_checkpoint [inv_intros]: "holds (on_day v k) tick_checkpoint"
  unfolding tick_checkpoint_def
  by (intro inv_intros holds_modify deaf_on_day) (simp_all add: on_day_def calendar_view_def)

lemma calendar_rotate: "holds (\<lambda>e. calendar_view e = v) (rotate_current_session now k)"
  unfolding rotate_current_session_def
  by (intro inv_intros holds_modify deaf_calendar) (simp_all add: calendar_view_def)

lemma roll_on_day:
  assumes "calendar_view e = v"
  shows "wp (roll_day now k) (\<lambda>_. on_day v k) (\<lambda>_ _. True) e"
proof -
  have tail: "holds (on_day v k) (bindP (gets f) (\<lambda>days. thenP (store (m days)) (bindP (engine_record_event a b c) (\<lambda>event.
      ret (g event)))))" for m :: "int \<Rightarrow> retention_counts db_prog" and a b c f and g :: "_ \<Rightarrow> domain_event list"
    by (intro inv_intros deaf_on_day)
  have key: "wp (modify (\<lambda>e. e\<lparr>day_key := k, played_today := p e\<rparr>)) (\<lambda>_. on_day v k) (\<lambda>_ _. True) e1"
    if "calendar_view e1 = v" for e1 p
    using that by (simp add: on_day_def calendar_view_def)
  show ?thesis
    unfolding roll_day_def wp_bindP [of "gets day_key"] wp_gets
    by (rule wp_bindI [OF holds_post [OF calendar_rotate assms]], rule wp_thenI [OF key], assumption,
        rule holds_post [OF tail])
qed

lemma tick_account_day:
  assumes "calendar_view e = v"
  shows "wp (tick_account d r) (\<lambda>_. on_day v (compute_day_key e)) (\<lambda>_ _. True) e"
proof (cases "compute_day_key e = day_key e")
  case True
  then have "on_day v (compute_day_key e) e" using assms by (simp add: on_day_def)
  note account = holds_post [OF on_day_account this]
  then show ?thesis
    using True \<open>on_day v (compute_day_key e) e\<close> by (simp add: tick_account_def tick_split_def)
next
  case False
  have "holds (\<lambda>e. calendar_view e = v) (account_game_elapsed s a b c)" for s a b c
    unfolding account_game_elapsed_def queue_usage_buckets_def
    by (intro inv_intros holds_modify) (simp_all add: calendar_view_def)
  then have first: "wp (whenP b (account_game_elapsed s a a' c)) (\<lambda>_ e'. calendar_view e' = v) (\<lambda>_ _. True) e" for b s a a' c
    using assms by (intro holds_post inv_intros)
  have last: "wp (whenP b (thenP (account_game_elapsed s a a' c) flush_usage_buckets)) (\<lambda>_. on_day v k) (\<lambda>_ _. True) e1"
    if "on_day v k e1" for b s a a' c e1 k
    using that by (intro holds_post inv_intros deaf_on_day)
  obtain boundary before_part after_part where split: "tick_split (compute_day_key e) d e = (boundary, before_part, after_part)"
    by (cases "tick_split (compute_day_key e) d e")
  show ?thesis
    unfolding tick_account_def wp_bindP [of "gets _"] wp_gets prod.case split
    by (rule wp_thenI [OF first], simp only: False not_False_eq_True if_True,
        rule wp_bindI [OF roll_on_day], assumption, rule wp_thenI [OF last], assumption) simp
qed

text \<open>The offset last seen is the current one after \<open>tick_offset\<close>.\<close>

lemma tick_offset_sets:
  "wp tick_offset (\<lambda>_ e'. calendar_view e' = (cfg e, clock e, utc_offset e)) (\<lambda>_ _. True) e"
proof -
  define v where "v = (cfg e, clock e)"
  have "holds (\<lambda>e1. (cfg e1, clock e1) = v) (engine_record_event a b c)" for a b c
    by (intro inv_intros) (simp add: deaf_def)
  from holds_post [OF this, of e] show ?thesis
    by (auto simp: tick_offset_def calendar_view_def v_def intro: wp_mono)
qed

definition today :: "engine \<Rightarrow> engine \<Rightarrow> bool" where
  "today e = on_day (cfg e, clock e, utc_offset e) (compute_day_key e)"

lemma tick_settles: "wp tick (\<lambda>_ e'. settled e' \<and> cfg e' = cfg e \<and> clock e' = clock e) (\<lambda>_ _. True) e"
proof -
  define Pre where "Pre e1 = ((cfg e1, clock e1) = (cfg e, clock e))" for e1 :: engine
  have clk: "holds Pre (tick_clock a b)" for a b
    unfolding Pre_def by (intro inv_intros) (simp add: deaf_def)
  have off: "wp tick_offset (\<lambda>_ e2. calendar_view e2 = (cfg e, clock e, utc_offset e)) (\<lambda>_ _. True) e1" if "Pre e1" for e1
    using tick_offset_sets [of e1] that by (simp add: Pre_def utc_offset_def now_utc_def)
  have acc: "wp (tick_account a r) (\<lambda>_. today e) (\<lambda>_ _. True) e1"
    if "calendar_view e1 = (cfg e, clock e, utc_offset e)" for a r e1
    using tick_account_day [OF that, of a r] that
    by (simp add: today_def calendar_view_def compute_day_key_def now_utc_def)
  have rest: "holds (today e) (tick_timer a)" "holds (today e) tick_checkpoint" "holds (today e) (warning_events p)" for a p
    unfolding today_def by (intro inv_intros deaf_on_day)+
  have ref: "wp (refresh_restriction True) (\<lambda>_ e2. today e e2
      \<and> restriction_of e2 = (restriction_reason e2, restriction_level e2)) (\<lambda>_ _. True) e1" if "today e e1" for e1
  proof -
    have "holds (today e) (refresh_restriction True)" unfolding today_def by (intro inv_intros deaf_on_day)
    note wp_holds [OF this that refresh_settles [where E = "\<lambda>_ _. True"]]
    then show ?thesis by (rule wp_mono) simp_all
  qed
  have final: "settled (e1\<lparr>last_tick_mono := monotonic e1, last_tick_wall := now_utc e1\<rparr>) \<and> cfg e1 = cfg e \<and> clock e1 = clock e"
    if "today e e1" "restriction_of e1 = (restriction_reason e1, restriction_level e1)" for e1
  proof -
    have "policy_view (e1\<lparr>last_tick_mono := monotonic e1, last_tick_wall := now_utc e1\<rparr>) = policy_view e1"
      by (simp add: policy_view_def)
    from policy_cong(2) [OF this] that show ?thesis
      by (simp add: settled_def today_def on_day_def calendar_view_def utc_offset_def compute_day_key_def now_utc_def
          monotonic_def)
  qed
  show ?thesis
    unfolding tick_def wp_bindP [of "gets _"] wp_gets case_prod_beta
    by (rule wp_bindI [OF holds_post [OF clk]], simp add: Pre_def, rule wp_bindI [OF off], assumption,
        rule wp_bindI [OF acc], assumption, rule wp_bindI [OF holds_post [OF rest(1)]], assumption,
        rule wp_thenI [OF holds_post [OF rest(2)]], assumption,
        rule wp_bindI [OF holds_post [OF rest(3)]], assumption,
        rule wp_bindI [OF ref], assumption) (simp add: final)
qed

section \<open>A second tick\<close>

lemma adjustments_kept:
  "holds (\<lambda>d. adjustments d = a) (checkpoint_session i v t)"
  "holds (\<lambda>d. adjustments d = a) (save_timer tm)"
  "holds (\<lambda>d. adjustments d = a) (add_usage_buckets es)"
  "holds (\<lambda>d. adjustments d = a) (mark_notification s k n t)"
proof -
  show "holds (\<lambda>d. adjustments d = a) (checkpoint_session i v t)"
    unfolding checkpoint_session_def Let_def by (intro inv_intros holds_modify) (simp add: update_rows_def)
  show "holds (\<lambda>d. adjustments d = a) (save_timer tm)"
    unfolding save_timer_def by (intro holds_modify) simp
  show "holds (\<lambda>d. adjustments d = a) (add_usage_buckets es)"
    by (cases "usage_bucket_rows es") (simp_all add: add_usage_buckets_def holds_def)
  show "holds (\<lambda>d. adjustments d = a) (mark_notification s k n t)"
    by (simp add: holds_def wp_def mark_notification_def)
qed

lemma holds_store_view:
  assumes "\<And>a. holds (\<lambda>d. adjustments d = a) m"
    and "\<And>e d. adjustments d = adjustments (storage e) \<Longrightarrow> I e \<Longrightarrow> I (e\<lparr>storage := d\<rparr>)"
  shows "holds I (store m)"
proof (rule holdsI)
  fix e assume I: "I e"
  have "wp m (\<lambda>_ d. adjustments d = adjustments (storage e)) (\<lambda>_ d. adjustments d = adjustments (storage e)) (storage e)"
    by (rule holdsD [OF assms(1)]) simp
  then show "wp (store m) (\<lambda>_. I) (\<lambda>_. I) e" by (simp, rule wp_mono) (auto intro: assms(2) I)
qed

lemma policy_checkpoint: "holds (\<lambda>e. policy_view e = v) tick_checkpoint"
  unfolding tick_checkpoint_def flush_usage_buckets_def
  by (intro inv_intros holds_modify holds_store_view adjustments_kept) (simp_all add: policy_view_def)

lemma quiet_thresholds: "threshold_events s k (Some r) r e = (Inr [], e)"
  by (simp add: threshold_events_def crossed_thresholds_def prog_simps)

lemma quiet_warnings: "warning_events (warning_snapshot e) e = (Inr [], e)"
  by (auto simp: warning_events_def prog_simps quiet_thresholds split: option.splits)

lemma quiet_refresh:
  "restriction_of e = (restriction_reason e, restriction_level e) \<Longrightarrow> refresh_restriction True e = (Inr [], e)"
  by (simp add: refresh_restriction_def prog_simps)

lemma second_tick:
  assumes inv: "eng_inv x e" and settled: "settled e"
  shows "wp tick (\<lambda>evs e'. evs = [] \<and> usage_view e' = usage_view e \<and> timer_core (timer e') = timer_core (timer e)
      \<and> (restriction_reason e', restriction_level e') = (restriction_reason e, restriction_level e))
    (\<lambda>_ _. True) e"
proof -
  have deltas: "tick_deltas e = (0, 0, False)"
    using settled by (simp add: tick_deltas_def settled_def seconds_between_def Let_def)
  have clock: "tick_clock 0 0 e = (Inr [], e)" by (simp add: tick_clock_def Let_def)
  have offset: "tick_offset e = (Inr [], e)" using settled by (simp add: tick_offset_def settled_def prog_simps)
  have account: "tick_account 0 False e = (Inr [], e)"
    using settled
    by (auto simp: tick_account_def settled_def prog_simps tick_split_def account_game_elapsed_def split: option.splits)
  have "e\<lparr>timer := (timer e)\<lparr>t_remaining := max 0 (t_remaining (timer e))\<rparr>\<rparr> = e"
    using timer_inv [OF inv] by (simp add: timer_ok_def max_absorb2)
  moreover have "t_state (timer e) = RUNNING \<Longrightarrow> \<not> t_remaining (timer e) \<le> 0"
    using timer_inv [OF inv] by (simp add: timer_ok_def)
  ultimately have run: "tick_timer 0 e = (Inr [], e)"
    by (auto simp: tick_timer_def prog_simps)
  have check: "wp tick_checkpoint (\<lambda>_ e'. policy_view e' = policy_view e \<and> (usage_view e' = usage_view e
      \<and> timer_core (timer e') = timer_core (timer e) \<and> restriction_reason e' = restriction_reason e
      \<and> restriction_level e' = restriction_level e)) (\<lambda>_ _. True) e"
  proof -
    have "holds (\<lambda>e'. (restriction_reason e', restriction_level e') = r) tick_checkpoint" for r
      unfolding tick_checkpoint_def flush_usage_buckets_def
      by (intro inv_intros holds_modify holds_store) simp_all
    from wp_holds [OF policy_checkpoint refl wp_holds [OF this refl wp_holds [OF usage_view_checkpoint refl
      holds_post [OF core_checkpoint refl]]]]
    show ?thesis by (rule wp_mono) auto
  qed
  have last: "wp (bindP (warning_events (warning_snapshot e)) (\<lambda>ev5. bindP (refresh_restriction True) (\<lambda>ev6.
      thenP (modify (\<lambda>e. e\<lparr>last_tick_mono := monotonic e, last_tick_wall := now_utc e\<rparr>)) (ret (ev5 @ ev6)))))
      (\<lambda>evs e'. evs = [] \<and> usage_view e' = usage_view e \<and> timer_core (timer e') = timer_core (timer e)
      \<and> (restriction_reason e', restriction_level e') = (restriction_reason e, restriction_level e)) (\<lambda>_ _. True) e'"
    if e': "policy_view e' = policy_view e \<and> (usage_view e' = usage_view e
      \<and> timer_core (timer e') = timer_core (timer e) \<and> restriction_reason e' = restriction_reason e
      \<and> restriction_level e' = restriction_level e)" for e'
  proof -
    have "warning_events (warning_snapshot e) e' = (Inr [], e')"
      using quiet_warnings [of e'] policy_cong(3) [of e' e] e' by simp
    moreover have "refresh_restriction True e' = (Inr [], e')"
      using quiet_refresh [of e'] policy_cong(2) [of e' e] e' settled by (simp add: settled_def)
    moreover have "monotonic e' = last_tick_mono e" "now_utc e' = last_tick_wall e"
      using e' settled by (simp_all add: usage_view_def settled_def monotonic_def now_utc_def)
    ultimately show ?thesis using e' by (simp add: wp_def prog_simps usage_view_def)
  qed
  have "wp (thenP tick_checkpoint (bindP (warning_events (warning_snapshot e)) (\<lambda>ev5. bindP (refresh_restriction True) (\<lambda>ev6.
      thenP (modify (\<lambda>e. e\<lparr>last_tick_mono := monotonic e, last_tick_wall := now_utc e\<rparr>)) (ret (ev5 @ ev6))))))
      (\<lambda>evs e'. evs = [] \<and> usage_view e' = usage_view e \<and> timer_core (timer e') = timer_core (timer e)
      \<and> (restriction_reason e', restriction_level e') = (restriction_reason e, restriction_level e)) (\<lambda>_ _. True) e"
    by (rule wp_thenI [OF check]) (rule last)
  moreover have "tick e = thenP tick_checkpoint (bindP (warning_events (warning_snapshot e)) (\<lambda>ev5.
      bindP (refresh_restriction True) (\<lambda>ev6.
      thenP (modify (\<lambda>e. e\<lparr>last_tick_mono := monotonic e, last_tick_wall := now_utc e\<rparr>)) (ret (ev5 @ ev6))))) e"
    by (simp add: tick_def bindP_run [of _ _ e] deltas clock offset account run)
  ultimately show ?thesis by (simp only: wp_def)
qed

end
