(* ===== verification/Buckets.thy ===== *)
theory Buckets
  imports Tick
begin

text \<open>
  The activity buckets: the queue loop allocates exactly the seconds it is given, to blocks
  0 to 5, and the flush hands every pending second to the table. For a game whose names the
  storage layer accepts, no tick raises.
\<close>

section \<open>The queue loop\<close>

lemma seconds_between_pos: "0 < seconds_between b a \<longleftrightarrow> a < b"
  by (simp add: seconds_between_def)

lemma seconds_between_add: "seconds_between c b + seconds_between b a = seconds_between c a"
  by (simp add: seconds_between_def diff_divide_distrib)

lemma probe_block_ge: "probe_block z block n p = Some q \<Longrightarrow> p \<le> q"
  by (induction z block n p rule: probe_block.induct) (auto simp: Let_def split: if_splits)

lemma next_boundary_later: "v < next_usage_bucket_boundary z v"
proof -
  have "v < v - v mod 60000000 + 60000000" using pos_mod_bound [of 60000000 v] by linarith
  then show ?thesis
    by (auto simp: next_usage_bucket_boundary_def Let_def dest!: probe_block_ge split: option.splits)
qed

definition pending_total :: "pending \<Rightarrow> real" where
  "pending_total p = sum_list (map snd p)"

lemma pending_add:
  "pending_total (alist_set key (pending_get key p + x) p) = pending_total p + x"
  by (induction p) (auto simp: pending_total_def pending_get_def)

declare queue_loop.simps [simp del]

definition block_key :: "zone \<Rightarrow> game_identity \<Rightarrow> string \<Rightarrow> instant \<Rightarrow> string \<times> int \<times> string \<times> string option \<times> string" where
  "block_key z g k a = (k, hour_of (to_local z a) div 4, app_key_of g, g_app_id g, g_name g)"

lemma queue_loop_done: "\<not> (a < stop \<and> 0 < r) \<Longrightarrow> queue_loop z g k s w stop a r p = p"
  by (subst queue_loop.simps) simp

lemma queue_loop_last:
  assumes "a < stop" "0 < r" "stop \<le> next_usage_bucket_boundary z a"
  shows "queue_loop z g k s w stop a r p = alist_set (block_key z g k a) (pending_get (block_key z g k a) p + r) p"
  using assms
  by (subst queue_loop.simps) (simp add: Let_def min_absorb2 queue_loop_done block_key_def)

lemma queue_loop_step:
  fixes s w :: real
  assumes "a < stop" "0 < r" "next_usage_bucket_boundary z a < stop"
  defines "b \<equiv> next_usage_bucket_boundary z a"
  defines "x \<equiv> s * seconds_between b a / w"
  shows "queue_loop z g k s w stop a r p = queue_loop z g k s w stop b (max 0 (r - x))
    (alist_set (block_key z g k a) (pending_get (block_key z g k a) p + x) p)"
  using assms(1-3) next_boundary_later [of a z] unfolding b_def x_def
  by (subst queue_loop.simps) (simp add: Let_def min_absorb1 block_key_def)

text \<open>As long as what remains is the share of the wall interval that is left, the loop spends it.\<close>

lemma queue_loop_total:
  assumes "a < stop" and "0 < s" and "0 < w" and "r = s * seconds_between stop a / w"
  shows "pending_total (queue_loop z g k s w stop a r p) = pending_total p + r"
  using assms
proof (induction "nat (stop - a)" arbitrary: a r p rule: less_induct)
  case less
  have pos: "0 < r" using less.prems by (simp add: seconds_between_pos)
  show ?case
  proof (cases "next_usage_bucket_boundary z a < stop")
    case False
    then show ?thesis using less.prems(1) pos by (simp add: queue_loop_last pending_add)
  next
    case True
    define b where "b = next_usage_bucket_boundary z a"
    define x where "x = s * seconds_between b a / w"
    have b: "a < b" "b < stop" using True next_boundary_later by (simp_all add: b_def)
    have rest: "r - x = s * seconds_between stop b / w"
      using seconds_between_add [of stop b a] less.prems(4)
      by (simp add: x_def diff_divide_distrib [symmetric] right_diff_distrib [symmetric])
    moreover have "0 < s * seconds_between stop b / w"
      using b(2) less.prems(2,3) by (simp add: seconds_between_pos)
    ultimately have "max 0 (r - x) = r - x" by simp
    moreover have "pending_total (queue_loop z g k s w stop b (r - x) q) = pending_total q + (r - x)" for q
      using b less.prems(2,3) rest by (intro less.hyps) auto
    ultimately show ?thesis
      using queue_loop_step [OF less.prems(1) pos True] by (simp add: b_def x_def pending_add)
  qed
qed

text \<open>Every entry the loop writes belongs to the day, to the game and to a block of the day.\<close>

lemma block_key_index: "0 \<le> hour_of (to_local z a) div 4" "hour_of (to_local z a) div 4 < 6"
proof -
  have "0 \<le> time_of (to_local z a)" "time_of (to_local z a) < 24 * 3600000000"
    using time_of_bounds [of "to_local z a"] by (simp_all add: day_us_def)
  then have "0 \<le> hour_of (to_local z a)" "hour_of (to_local z a) < 24"
    by (auto simp: hour_of_def pos_imp_zdiv_nonneg_iff div_less_iff_less_mult)
  then show "0 \<le> hour_of (to_local z a) div 4" "hour_of (to_local z a) div 4 < 6"
    by auto
qed

definition entry_for :: "string \<Rightarrow> game_identity \<Rightarrow> (string \<times> int \<times> string \<times> string option \<times> string) \<times> real \<Rightarrow> bool" where
  "entry_for k g p = (\<exists>i x. p = ((k, i, app_key_of g, g_app_id g, g_name g), x) \<and> 0 \<le> i \<and> i < 6 \<and> 0 < x)"

lemma pending_get_nonneg: "\<forall>p \<in> set ps. 0 < snd p \<Longrightarrow> 0 \<le> pending_get key ps"
  by (auto simp: pending_get_def split: option.splits dest!: map_of_SomeD)

lemma queue_loop_entries:
  assumes "0 < s" and "0 < w" and "\<forall>p \<in> set ps. 0 < snd p"
  shows "\<forall>p \<in> set (queue_loop z g k s w stop a r ps). p \<in> set ps \<or> entry_for k g p"
  using assms(3)
proof (induction "nat (stop - a)" arbitrary: a r ps rule: less_induct)
  case less
  have new: "\<forall>p \<in> set (alist_set (block_key z g k a) (pending_get (block_key z g k a) ps + x) ps).
      p \<in> set ps \<or> entry_for k g p" if "0 < x" for x
    using set_alist_set [of "block_key z g k a" "pending_get (block_key z g k a) ps + x" ps] that block_key_index [of z a]
      pending_get_nonneg [OF less.prems, of "block_key z g k a"]
    by (fastforce simp: block_key_def entry_for_def)
  consider "\<not> (a < stop \<and> 0 < r)" | "a < stop" "0 < r" "stop \<le> next_usage_bucket_boundary z a"
    | "a < stop" "0 < r" "next_usage_bucket_boundary z a < stop" by fastforce
  then show ?case
  proof cases
    case 1 then show ?thesis by (simp add: queue_loop_done)
  next
    case 2 then show ?thesis using new by (simp add: queue_loop_last)
  next
    case 3
    define b where "b = next_usage_bucket_boundary z a"
    define x where "x = s * seconds_between b a / w"
    define qs where "qs = alist_set (block_key z g k a) (pending_get (block_key z g k a) ps + x) ps"
    have "a < b" using next_boundary_later by (simp add: b_def)
    then have x: "0 < x" using assms(1,2) by (simp add: x_def seconds_between_pos)
    have qs: "\<forall>p \<in> set qs. p \<in> set ps \<or> entry_for k g p" using new [OF x] by (simp add: qs_def)
    then have "\<forall>p \<in> set qs. 0 < snd p" using less.prems by (auto simp: entry_for_def)
    moreover have "nat (stop - b) < nat (stop - a)" using \<open>a < b\<close> 3(1) by simp
    ultimately have "\<forall>p \<in> set (queue_loop z g k s w stop b (max 0 (r - x)) qs). p \<in> set qs \<or> entry_for k g p"
      by (intro less.hyps)
    with qs show ?thesis using queue_loop_step [OF 3] by (auto simp: b_def x_def qs_def)
  qed
qed

section \<open>Games the buckets can hold\<close>

text \<open>
  \<open>validate_game\<close> accepts more than \<open>_usage_bucket_row\<close>: digits that are not decimal, and
  names whose folding is too long for the key.
\<close>

definition bucketable :: "game_identity \<Rightarrow> bool" where
  "bucketable g = (validate_game g = Inr () \<and> (\<forall>a. g_app_id g = Some a \<longrightarrow> str_isdecimal a)
     \<and> length (str_casefold (g_name g)) \<le> 251)"

definition day_ok :: "string \<Rightarrow> bool" where
  "day_ok k = (iso_day (PStr k) = Some k)"

lemma strip_nonempty:
  assumes "\<not> ch_isspace c" and "c \<in> set s"
  shows "str_strip s \<noteq> []"
proof (cases "dropWhile ch_isspace s")
  case Nil
  with assms show ?thesis by (auto simp: dropWhile_eq_Nil_conv)
next
  case (Cons x xs)
  then have "\<not> ch_isspace x" using hd_dropWhile [of ch_isspace s] by simp
  then show ?thesis by (auto simp: str_strip_def Cons dropWhile_eq_Nil_conv)
qed

lemma app_key_ok:
  assumes "bucketable g"
  shows "text_up_to 256 (PStr (app_key_of g)) = Some (app_key_of g)"
proof -
  have "\<exists>c s. app_key_of g = c # s \<and> \<not> ch_isspace c"
    by (auto simp: app_key_of_def ch_isspace_def)
  then have "str_strip (app_key_of g) \<noteq> []"
    by (metis list.set_intros(1) strip_nonempty)
  moreover have "length (app_key_of g) \<le> 256"
    using assms by (auto simp: bucketable_def app_key_of_def truthy_Some validate_game_def split: if_splits)
  ultimately show ?thesis by (simp add: text_up_to_def)
qed

lemma entry_accepted:
  assumes "day_ok k" and "bucketable g" and "entry_for k g p"
  shows "\<exists>r. usage_bucket_row (bucket_entry p) = Inr r"
proof -
  obtain i x where p: "p = ((k, i, app_key_of g, g_app_id g, g_name g), x)" "0 \<le> i" "i < 6" "0 < x"
    using assms(3) by (auto simp: entry_for_def)
  have name: "text_up_to 200 (PStr (g_name g)) = Some (g_name g)"
    using assms(2) by (auto simp: bucketable_def validate_game_def text_up_to_def split: if_splits)
  have id: "decimal_or_none (popt PStr (g_app_id g)) = Some (g_app_id g)"
    using assms(2)
    by (cases "g_app_id g") (auto simp: bucketable_def validate_game_def decimal_or_none_def popt_def split: if_splits)
  show ?thesis
    using assms(1) app_key_ok [OF assms(2)] name id p
    by (simp add: usage_bucket_row_def bucket_entry_def get_or_none_def dict_get_def day_ok_def Let_def)
qed

lemma accepted_positive:
  "usage_bucket_row (bucket_entry p) = Inr r \<Longrightarrow> 0 < snd p"
  by (cases p; cases "fst p")
    (auto simp: usage_bucket_row_def bucket_entry_def get_or_none_def dict_get_def Let_def
      split: option.splits pyval.splits if_splits)

definition pend_ok :: "pending \<Rightarrow> bool" where
  "pend_ok ps = (\<forall>p \<in> set ps. \<exists>r. usage_bucket_row (bucket_entry p) = Inr r)"

lemma pend_ok_Nil [simp]: "pend_ok []"
  by (simp add: pend_ok_def)

lemma pend_ok_rows: "pend_ok ps \<Longrightarrow> \<exists>rs. usage_bucket_rows (map bucket_entry ps) = Inr rs"
  by (induction ps) (auto simp: pend_ok_def)

lemma pend_ok_queue:
  assumes "pend_ok ps" "day_ok k" "bucketable g" "0 < s" "0 < w"
  shows "pend_ok (queue_loop z g k s w stop a r ps)"
proof -
  have "\<forall>p \<in> set ps. 0 < snd p" using assms(1) accepted_positive by (auto simp: pend_ok_def)
  from queue_loop_entries [OF assms(4,5) this] show ?thesis
    using assms(1) entry_accepted [OF assms(2,3)] by (fastforce simp: pend_ok_def)
qed

section \<open>A tick that does not raise\<close>

definition ready_extra :: "engine \<Rightarrow> bool" where
  "ready_extra e = (pend_ok (pending_usage_buckets e) \<and> (\<forall>g. current_game e = Some g \<longrightarrow> bucketable g)
     \<and> day_ok (day_key e) \<and> day_ok (compute_day_key e))"

definition ready :: "engine \<Rightarrow> bool" where
  "ready e = (eng_inv False e \<and> ready_extra e)"

lemma ready_extra_fields [simp]:
  "ready_extra (e\<lparr>storage := d\<rparr>) = ready_extra e"
  "ready_extra (e\<lparr>timer := t\<rparr>) = ready_extra e"
  "ready_extra (e\<lparr>restriction_reason := rr\<rparr>) = ready_extra e"
  "ready_extra (e\<lparr>restriction_level := l\<rparr>) = ready_extra e"
  "ready_extra (e\<lparr>last_checkpoint_mono := m1\<rparr>) = ready_extra e"
  "ready_extra (e\<lparr>last_timer_persist_mono := m2\<rparr>) = ready_extra e"
  "ready_extra (e\<lparr>last_offset_seconds := i\<rparr>) = ready_extra e"
  "ready_extra (e\<lparr>last_tick_mono := m3\<rparr>) = ready_extra e"
  "ready_extra (e\<lparr>last_tick_wall := w\<rparr>) = ready_extra e"
  by (simp_all add: ready_extra_def compute_day_key_def now_utc_def)

lemma ready_not_unflushable: "ready e \<Longrightarrow> \<not> unflushable e exc"
  using pend_ok_rows by (fastforce simp: ready_def ready_extra_def unflushable_def)

lemma ready_after:
  assumes "ready e" "eng_inv False e'" "frame e' = frame e" "current_game e' \<in> {None, current_game e}"
    "pending_usage_buckets e' \<in> {[], pending_usage_buckets e}"
  shows "ready e'"
  using assms by (auto simp: ready_def ready_extra_def frame_def compute_day_key_def now_utc_def)

lemma sure_flush [sure_intros]: "surely ready flush_usage_buckets"
proof (rule surelyI)
  fix e assume e: "ready e"
  then have "eng_inv False e" by (simp add: ready_def)
  then show "wp flush_usage_buckets (\<lambda>_. ready) (\<lambda>_ _. False) e"
  proof (rule flush_wp)
    fix e' assume "eng_inv False e'" "frame e' = frame e" "session_of e' = session_of e" "pending_usage_buckets e' = []"
    then show "ready e'" by (intro ready_after [OF e]) (simp_all add: session_of_def)
  qed (use ready_not_unflushable [OF e] in simp)
qed

lemma sure_close [sure_intros]: "surely ready (close_current_game now reason)"
proof (rule surelyI)
  fix e assume e: "ready e"
  then have "eng_inv False e" by (simp add: ready_def)
  then show "wp (close_current_game now reason) (\<lambda>_. ready) (\<lambda>_ _. False) e"
  proof (rule close_current_game_wp)
    fix e' assume "eng_inv False e'" "frame e' = frame e" "session_of e' = (None, None, 0)"
      "pending_usage_buckets e' \<in> {[], pending_usage_buckets e}"
    then show "ready e'" by (intro ready_after [OF e]) (simp_all add: session_of_def)
  qed (use ready_not_unflushable [OF e] in simp)
qed

lemma surely_both:
  assumes "keeps False m" and "holds ready_extra m" and "\<And>e. ready e \<Longrightarrow> wp m (\<lambda>_ _. True) (\<lambda>_ _. False) e"
  shows "surely ready m"
proof (rule surelyI)
  fix e assume e: "ready e"
  then have "wp m (\<lambda>_ e'. (True \<and> ready_extra e') \<and> eng_inv False e') (\<lambda>_ e'. (False \<and> ready_extra e') \<and> eng_inv False e') e"
    by (intro wp_holds [OF assms(1)] wp_holds [OF assms(2)] assms(3)) (simp_all add: ready_def)
  then show "wp m (\<lambda>_. ready) (\<lambda>_ _. False) e" by (rule wp_mono) (simp_all add: ready_def)
qed

lemma sure_record [sure_intros]: "surely ready (engine_record_event k p s)"
  by (rule surely_both [OF keeps_engine_record_event])
    (auto simp: engine_record_event_def intro!: inv_intros holds_store)

lemma sure_mark [sure_intros]: "surely ready (store (mark_notification a b n t))"
  by (rule surely_both [OF keeps_mark]) (auto simp: mark_notification_def wp_def intro!: holds_store)

lemma sure_refresh [sure_intros]: "surely ready (refresh_restriction b)"
  unfolding refresh_restriction_def
  by (intro sure_intros surely_modify) (simp_all add: ready_def)

lemma sure_tick_clock [sure_intros]: "surely ready (tick_clock a b)"
proof -
  have "surely ready (store (record_event k t p i c))" for k t p i c
    by (rule surely_both [OF keeps_record_event]) (auto intro!: holds_store)
  then show ?thesis unfolding tick_clock_def record_suspend_gap_def Let_def by (intro sure_intros)
qed

lemma sure_tick_offset [sure_intros]: "surely ready tick_offset"
  unfolding tick_offset_def by (intro sure_intros surely_modify) (simp_all add: ready_def)

lemma bind_ret: "bindP (ret a) f = f a"
  by (simp add: bindP_def fun_eq_iff)

lemma warning_text_returns:
  assumes "scope = ''daily'' \<or> scope = ''timer''"
  shows "\<exists>w. warning_text l scope n = ret w"
proof -
  obtain title where title: "tr l ''warning_exhausted_title'' [] = Inr title"
    using warning_key_exhausted by blast
  have "\<exists>body. tr l (''warning_exhausted_'' @ scope) [] = Inr body" "\<exists>rest. tr l (''warning_remaining_'' @ scope) [] = Inr rest"
    using assms by (elim disjE; simp add: warning_key_body)+
  then obtain body rest where body: "tr l (''warning_exhausted_'' @ scope) [] = Inr body"
    and rest: "tr l (''warning_remaining_'' @ scope) [] = Inr rest" by blast
  have "\<forall>m::int. \<exists>u. tr l (if m = 1 then ''minute_one'' else ''minute_many'') [] = Inr u"
    by (simp add: warning_key_unit)
  from choice [OF this] obtain unit where
    unit: "\<And>m::int. tr l (if m = 1 then ''minute_one'' else ''minute_many'') [] = Inr (unit m)" by blast
  have "\<forall>m::int. \<exists>u. tr l (if m = 1 then ''warning_remaining_title_one'' else ''warning_remaining_title_many'')
      [(''minutes'', int_str m), (''unit'', unit m)] = Inr u"
    by (simp add: warning_key_title)
  from choice [OF this] obtain message where
    message: "\<And>m::int. tr l (if m = 1 then ''warning_remaining_title_one'' else ''warning_remaining_title_many'')
      [(''minutes'', int_str m), (''unit'', unit m)] = Inr (message m)" by blast
  define m where "m = max 1 (n div 60)"
  show ?thesis
  proof (cases "n = 0")
    case True
    then show ?thesis
      unfolding warning_text_def
      by (simp only: refl if_True title body liftP_Inr bind_ret) blast
  next
    case False
    then show ?thesis
      unfolding warning_text_def Let_def m_def [symmetric]
      by (simp only: if_False unit liftP_Inr bind_ret message rest) blast
  qed
qed

lemma sure_threshold [sure_intros]:
  assumes "s = ''daily'' \<or> s = ''timer''"
  shows "surely ready (threshold_events s k p r)"
proof -
  have "surely ready (warning_text l s n)" for l n
    using warning_text_returns [OF assms] by (metis surely_ret)
  moreover have "surely ready (liftP (tr l (if s = ''daily'' then ''daily_limit'' else ''timer'') []))" for l
    using warning_key_scope [of l] by (auto simp: surely_ret)
  ultimately show ?thesis
    unfolding threshold_events_def Let_def by (intro sure_intros)
qed

lemma sure_warnings [sure_intros]: "surely ready (warning_events p)"
  unfolding warning_events_def by (intro sure_intros) simp_all

lemma sure_account: "surely ready (account_game_elapsed s a b r)"
proof (rule surelyI)
  fix e assume e: "ready e"
  show "wp (account_game_elapsed s a b r) (\<lambda>_. ready) (\<lambda>_ _. False) e"
  proof (cases "current_game e")
    case (Some g)
    let ?e = "e\<lparr>played_today := played_today e + s, session_duration := session_duration e + s\<rparr>"
    have charged: "ready ?e" if "0 < s"
      using e account_inv [of False e s] that Some
      by (simp add: ready_def ready_extra_def compute_day_key_def now_utc_def)
    have "pend_ok (queue_loop z g (day_key e) s (seconds_between b a) b a s (pending_usage_buckets e))"
      if "0 < s" "a < b" for z
      using e Some that by (intro pend_ok_queue) (auto simp: ready_def ready_extra_def seconds_between_pos)
    then have "ready (?e\<lparr>pending_usage_buckets := queue_loop z g (day_key e) s (seconds_between b a) b a s
        (pending_usage_buckets e)\<rparr>)" if "0 < s" "a < b" for z
      using charged that by (simp add: ready_def ready_extra_def compute_day_key_def now_utc_def)
    with charged e Some show ?thesis
      by (simp add: account_game_elapsed_def queue_usage_buckets_def)
  qed (use e in \<open>simp add: account_game_elapsed_def\<close>)
qed

lemma sure_roll:
  assumes "ready e" and "day_ok k'"
  shows "wp (roll_day now k') (\<lambda>_. ready) (\<lambda>_ _. False) e"
proof (rule roll_day_wp)
  show "eng_inv False e" using assms(1) by (simp add: ready_def)
  fix e' assume "eng_inv False e'" "day_key e' = k'" "current_game e' = current_game e" "cfg e' = cfg e"
    "clock e' = clock e" "pending_usage_buckets e' \<in> {[], pending_usage_buckets e}"
  then show "ready e'"
    using assms by (auto simp: ready_def ready_extra_def compute_day_key_def now_utc_def)
qed (use ready_not_unflushable [OF assms(1)] in simp)

lemma sure_tick_account [sure_intros]: "surely ready (tick_account d r)"
proof (rule surelyI)
  fix e assume e: "ready e"
  obtain boundary s1 s2 where split: "tick_split (compute_day_key e) d e = (boundary, s1, s2)"
    by (cases "tick_split (compute_day_key e) d e")
  have k: "day_ok (compute_day_key e)" using e by (simp add: ready_def ready_extra_def)
  have first: "wp (whenP b (account_game_elapsed s a a' r)) (\<lambda>_. ready) (\<lambda>_ _. False) e" for b s a a' r
  proof -
    have "surely ready (whenP b (account_game_elapsed s a a' r))" by (intro sure_intros sure_account)
    from surelyD [OF this e] show ?thesis .
  qed
  have last: "wp (whenP b (thenP (account_game_elapsed s a a' r) flush_usage_buckets)) (\<lambda>_. ready) (\<lambda>_ _. False) e'"
    if "ready e'" for b s a a' r e'
  proof -
    have "surely ready (whenP b (thenP (account_game_elapsed s a a' r) flush_usage_buckets))"
      by (intro sure_intros sure_account)
    from surelyD [OF this that] show ?thesis .
  qed
  show "wp (tick_account d r) (\<lambda>_. ready) (\<lambda>_ _. False) e"
  proof (cases "compute_day_key e = day_key e")
    case True
    show ?thesis
      unfolding tick_account_def wp_bindP [of "gets _"] wp_gets prod.case split
      by (rule wp_thenI [OF first]) (simp add: True)
  next
    case False
    show ?thesis
      unfolding tick_account_def wp_bindP [of "gets _"] wp_gets prod.case split
      by (rule wp_thenI [OF first], simp only: False not_False_eq_True if_True,
          rule wp_bindI [OF sure_roll [OF _ k]], assumption, rule wp_thenI [OF last], assumption) simp
  qed
qed

lemma sure_tick_timer [sure_intros]:
  assumes "0 \<le> d"
  shows "surely ready (tick_timer d)"
proof (rule surely_both [OF keeps_tick_timer [OF assms]])
  show "holds ready_extra (tick_timer d)"
    unfolding tick_timer_def engine_record_event_def by (intro inv_intros holds_modify holds_store) simp_all
  show "wp (tick_timer d) (\<lambda>_ _. True) (\<lambda>_ _. False) e" for e
    by (auto simp: tick_timer_def save_timer_def engine_record_event_def)
qed

lemma sure_tick_checkpoint [sure_intros]: "surely ready tick_checkpoint"
proof -
  have session: "surely ready (bindP (gets (\<lambda>e. (session_id e, session_duration e, last_checkpoint_mono e)))
      (\<lambda>(sid, duration, last). whenP (truthy sid \<and> mono - last \<ge> cs)
          (thenP (store (checkpoint_session (the sid) duration now))
          (thenP flush_usage_buckets (modify (\<lambda>e. e\<lparr>last_checkpoint_mono := mono\<rparr>))))))" for mono cs now
  proof (rule surelyI)
    fix e assume e: "ready e"
    then have inv: "eng_inv False e" by (simp add: ready_def)
    have flush: "wp flush_usage_buckets (\<lambda>_. ready) (\<lambda>_ _. False) e'" if "ready e'" for e'
      using surelyD [OF sure_flush that] .
    have "wp flush_usage_buckets (\<lambda>_ e'. ready (e'\<lparr>last_checkpoint_mono := mono\<rparr>)) (\<lambda>_ _. False) e'" if "ready e'" for e'
      by (rule wp_mono [OF flush [OF that]]) (simp_all add: ready_def)
    moreover have "ready (e\<lparr>storage := d\<rparr>)" if "eng_inv False (e\<lparr>storage := d\<rparr>)" for d
      using that e by (simp add: ready_def)
    ultimately show "wp (bindP (gets (\<lambda>e. (session_id e, session_duration e, last_checkpoint_mono e)))
      (\<lambda>(sid, duration, last). whenP (truthy sid \<and> mono - last \<ge> cs)
          (thenP (store (checkpoint_session (the sid) duration now))
          (thenP flush_usage_buckets (modify (\<lambda>e. e\<lparr>last_checkpoint_mono := mono\<rparr>)))))) (\<lambda>_. ready) (\<lambda>_ _. False) e"
      using e by (auto intro!: checkpoint_wp [OF inv])
  qed
  have timer: "surely ready (bindP (gets (\<lambda>e. t_state (timer e) = RUNNING \<and> mono - last_timer_persist_mono e \<ge> cs)) (\<lambda>due.
        whenP due
          (thenP (modify (\<lambda>e. e\<lparr>timer := (timer e)\<lparr>t_updated_at := Some (utc_iso now)\<rparr>\<rparr>))
          (bindP (gets timer) (\<lambda>t. thenP (store (save_timer t))
             (modify (\<lambda>e. e\<lparr>last_timer_persist_mono := mono\<rparr>)))))))" for mono cs now
  proof (rule surelyI)
    fix e assume e: "ready e"
    then have inv: "eng_inv False e" by (simp add: ready_def)
    have "wp (save_timer t) (\<lambda>_ d. ready (e\<lparr>timer := t, storage := d, last_timer_persist_mono := mono\<rparr>)) E (storage e)"
      if "t_state (timer e) = RUNNING" "t = (timer e)\<lparr>t_updated_at := u\<rparr>" for u t E
      using that touch_timer_ok [OF timer_inv [OF inv]] e by (intro set_and_save [OF inv]) (simp_all add: ready_def)
    with e show "wp (bindP (gets (\<lambda>e. t_state (timer e) = RUNNING \<and> mono - last_timer_persist_mono e \<ge> cs)) (\<lambda>due.
        whenP due
          (thenP (modify (\<lambda>e. e\<lparr>timer := (timer e)\<lparr>t_updated_at := Some (utc_iso now)\<rparr>\<rparr>))
          (bindP (gets timer) (\<lambda>t. thenP (store (save_timer t))
             (modify (\<lambda>e. e\<lparr>last_timer_persist_mono := mono\<rparr>))))))) (\<lambda>_. ready) (\<lambda>_ _. False) e"
      by simp
  qed
  show ?thesis
    unfolding tick_checkpoint_def
    by (intro surely_bindP [OF surely_gets] surely_prod surely_thenP session timer)
qed

lemma sure_tick: "surely ready tick"
proof -
  have "surely ready (bindP (gets tick_deltas) f)" if "\<And>a b c. 0 \<le> a \<Longrightarrow> surely ready (f (a, b, c))" for f :: "_ \<Rightarrow> event_prog"
    using that by (auto simp: surely_def tick_deltas_def Let_def)
  note deltas = this
  show ?thesis
    unfolding tick_def
    by (intro surely_bindP [OF surely_gets] deltas) (auto intro!: sure_intros surely_modify simp: ready_def)
qed

end
