(* ===== verification/Demo.thy ===== *)
theory Demo
  imports Buckets EngineRun
begin

text \<open>
  Concrete inputs the properties are applied to: the shipped default configuration, a
  numbered supply of identifiers, a game, and engines started on empty tables.
\<close>

definition demo_ids :: "nat \<Rightarrow> string" where
  "demo_ids n = replicate (Suc n) CHR ''u''"

definition demo_config :: config where
  "demo_config = \<lparr>c_schema_version = 2, c_language = ''en'', c_daily_enabled = True, c_reset_at = 0,
     c_timezone = utc_zone, c_weekly = (\<lambda>_. \<lparr>dl_minutes = 120, dl_unlimited = False\<rparr>), c_allowed_periods = [],
     c_threshold_minutes = [30, 15, 5, 1], c_notify_at_exhaustion = True, c_native_notifications = True,
     c_count_only_while_playing = True, c_default_action = ''inherit'', c_level = 0, c_grace_seconds = 60,
     c_close_timeout_seconds = 20, c_force_kill_enabled = False, c_launch_grace_seconds = 5,
     c_safe_process_fallback = True, c_decky_signal_ttl_seconds = 20, c_retention_days = 90,
     c_checkpoint_seconds = 30\<rparr>"

definition demo_clock :: fake_clock where
  "demo_clock = \<lparr>current_utc = at_time 738000 (12 * 3600000000), current_monotonic = 0\<rparr>"

definition demo_game :: game_identity where
  "demo_game = \<lparr>g_app_id = Some ''620'', g_name = ''Portal 2'', g_source = ''steam_log'', g_pids = [4242],
     g_confidence = 1, g_instance_id = None\<rparr>"

definition demo_engine :: engine where
  "demo_engine = snd (new_engine (empty_db demo_ids) demo_config demo_clock)"

lemma demo_ids_ok: "inj demo_ids" "\<forall>n. demo_ids n \<noteq> []"
  by (auto simp: demo_ids_def inj_def dest: arg_cong [of _ _ length])

lemma demo_config_ok: "wf_config demo_config"
  by (simp add: wf_config_def demo_config_def wf_zone_def utc_zone_def WEEKDAYS_def day_us_def)

lemma demo_db_ok: "db_inv (empty_db demo_ids)" "timer_ok (load_timer (empty_db demo_ids))"
  using empty_db_inv [OF demo_ids_ok] by (simp_all add: empty_timer timer_ok_def idle_timer_def)

lemma demo_engine_starts:
  "new_engine (empty_db demo_ids) demo_config demo_clock = (Inr (), demo_engine)"
  "starting (empty_db demo_ids) demo_config demo_clock demo_engine"
  using new_engine_inv [OF demo_db_ok(1) demo_config_ok demo_db_ok(2), of demo_clock]
  by (auto simp: demo_engine_def)

lemma demo_engine_reachable: "reachable demo_engine"
  using reachable.install [OF demo_ids_ok demo_config_ok demo_engine_starts(1)] .

lemma demo_engine_fields:
  "cfg demo_engine = demo_config" "clock demo_engine = demo_clock" "current_game demo_engine = None"
  "day_key demo_engine = compute_day_key demo_engine" "eng_inv True demo_engine"
  using demo_engine_starts(2)
  by (simp_all add: starting_def compute_day_key_def now_utc_def base_engine_def Let_def)

text \<open>The day the demonstration clock shows, and the engine after a game was set.\<close>

lemma demo_day: "compute_day_key demo_engine = date_isoformat 738000"
  by (simp add: compute_day_key_def accounting_day_key_def accounting_day_def demo_engine_fields now_utc_def
      demo_config_def demo_clock_def to_local_def zone_offset_def utc_zone_def Let_def day_us_def)

lemma demo_day_ok: "day_ok (date_isoformat 738000)"
  by (simp add: day_ok_def iso_day_def date_iso_roundtrip valid_date_def max_ordinal_def)

lemma start_queues_nothing: "holds (\<lambda>e. pending_usage_buckets e = []) start_engine"
proof -
  have store: "holds (\<lambda>e. pending_usage_buckets e = []) (store m)" for m :: "'a db_prog"
    by (intro holds_store) simp
  show ?thesis
    unfolding start_engine_def announce_recovery_def pause_restored_timer_def refresh_restriction_def
      engine_record_event_def
    by ((rule store | rule inv_intros | (rule holds_modify, simp; fail) | simp)+)
qed

lemma demo_engine_ready: "ready demo_engine"
proof -
  have "pending_usage_buckets (base_engine (empty_db demo_ids) demo_config demo_clock) = []"
    by (simp add: base_engine_def Let_def)
  from holds_run [OF start_queues_nothing this] have "pending_usage_buckets demo_engine = []"
    using demo_engine_starts(1) by (simp add: new_engine_def)
  then show ?thesis
    using demo_engine_fields demo_day demo_day_ok by (simp add: ready_def weaken_inv ready_extra_def)
qed

text \<open>A game that started ten seconds ago.\<close>

definition demo_tables :: db where
  "demo_tables = (empty_db demo_ids)\<lparr>uuid_next := 1,
     sessions := [new_session_row ''u'' (date_isoformat 738000) demo_game (current_utc demo_clock)]\<rparr>"

definition demo_playing :: engine where
  "demo_playing = (base_engine demo_tables demo_config demo_clock)\<lparr>current_game := Some demo_game,
     session_id := Some ''u'', clock := clock_advance 10 None demo_clock\<rparr>"

lemma demo_tables_fields:
  "current_session demo_tables = Some (''u'', date_isoformat 738000, 0)" "closed_usage k demo_tables = 0"
  "usage_for_day k demo_tables = 0" "load_timer demo_tables = idle_timer"
  by (simp_all add: demo_tables_def current_session_def open_row_def new_session_row_def is_open_def closed_usage_def
      usage_for_day_def load_timer_def empty_db_def)

lemma demo_tables_ok: "db_inv demo_tables"
proof -
  have "''u'' \<noteq> demo_ids n" if "1 \<le> n" for n using that by (cases n) (simp_all add: demo_ids_def)
  then show ?thesis
    using empty_db_inv [OF demo_ids_ok] demo_ids_ok
    by (auto simp: db_inv_def demo_tables_def uuids_fresh_def new_session_row_def empty_db_def is_open_def)
qed

lemma demo_noon:
  assumes "0 \<le> s" "s < 43200"
  shows "accounting_day_key utc_zone 0 (at_time 738000 (12 * 3600000000) + s * 1000000) = date_isoformat 738000"
proof -
  have "at_time 738000 (12 * 3600000000) + s * 1000000 = at_time 738000 (12 * 3600000000 + s * 1000000)"
    by (simp add: at_time_def)
  then show ?thesis
    using assms by (simp add: accounting_day_key_def accounting_day_def to_local_def zone_offset_def utc_zone_def Let_def
        day_us_def)
qed

lemma demo_playing_fields:
  "storage demo_playing = demo_tables" "cfg demo_playing = demo_config" "current_game demo_playing = Some demo_game"
  "session_id demo_playing = Some ''u''" "session_duration demo_playing = 0" "played_today demo_playing = 0"
  "timer demo_playing = idle_timer" "suspended demo_playing = False" "pending_usage_buckets demo_playing = []"
  "day_key demo_playing = date_isoformat 738000" "compute_day_key demo_playing = date_isoformat 738000"
  "monotonic demo_playing = 10" "last_tick_mono demo_playing = 0"
  using demo_noon [of 0] demo_noon [of 10]
  by (simp_all add: demo_playing_def base_engine_def Let_def demo_tables_fields compute_day_key_def now_utc_def
      monotonic_def clock_advance_def demo_clock_def demo_config_def timedelta_seconds_def py_round_def)

lemma demo_playing_inv: "eng_inv True demo_playing"
  using demo_tables_ok demo_config_ok
  by (auto simp: eng_inv_def demo_playing_fields session_ok_def demo_tables_fields demo_game_def stored_total_def
      timer_ok_def idle_timer_def timer_saved_def)

lemma demo_game_bucketable: "bucketable demo_game"
  by (simp add: bucketable_def demo_game_def validate_game_def str_isdigit_def str_isdecimal_def ch_isdigit_def
      ch_isdecimal_def str_strip_def ch_isspace_def str_casefold_def ch_casefold_def Let_def)

lemma demo_playing_ready: "ready demo_playing"
  using demo_playing_inv demo_game_bucketable demo_day_ok
  by (simp add: ready_def weaken_inv ready_extra_def demo_playing_fields)

end
