(* ===== verification/Components.thy ===== *)
theory Components
  imports Demo
begin

text \<open>
  The properties of the single components: calendar and schedule, texts, tables, activity
  buckets.
\<close>

section \<open>Dates, times and zones\<close>

text \<open>Writing a date in ISO format and reading it back gives the date, for every date.\<close>

theorem date_round_trip:
  assumes "valid_date n"
  shows "date_fromisoformat (date_isoformat n) = Some n"
  using assms by (rule date_iso_roundtrip)

theorem date_round_trip_demo: "date_fromisoformat (date_isoformat 738000) = Some 738000"
  by (rule date_round_trip) (simp add: valid_date_def max_ordinal_def)

text \<open>The stored time texts order as the instants do, with and without microseconds, so the
  comparisons the SQL statements make on TEXT columns compare times.\<close>

theorem stored_times_order:
  assumes "valid_instant i" and "valid_instant j"
  shows "(utc_iso i < utc_iso j \<longleftrightarrow> i < j) \<and> (utc_iso i = utc_iso j \<longleftrightarrow> i = j)"
  using utc_iso_less [OF assms] utc_iso_eq [OF assms] by blast

theorem stored_times_order_demo: "utc_iso (at_time 738000 0) < utc_iso (at_time 738000 1)"
proof -
  have v: "valid_instant (at_time 738000 0)" "valid_instant (at_time 738000 1)"
    by (simp_all add: valid_instant_def valid_date_def max_ordinal_def day_us_def)
  show ?thesis using stored_times_order [OF v] by (simp add: at_time_def)
qed

text \<open>Converting an instant to a zone's local clock and back, with the fold the reading has,
  gives the instant, at every offset change of the zone.\<close>

theorem local_time_round_trip:
  assumes "wf_zone z"
  shows "to_utc z (local_fold z u) (to_local z u) = u"
  using assms by (rule local_roundtrip)

text \<open>A zone that springs forward by an hour at a given instant.\<close>

definition demo_zone :: zone where
  "demo_zone = \<lparr>base_offset = 3600, transitions = [(at_time 738000 3600000000, 7200)]\<rparr>"

lemma demo_zone_ok: "wf_zone demo_zone"
  by (simp add: wf_zone_def demo_zone_def)

theorem local_time_round_trip_demo:
  "to_utc demo_zone (local_fold demo_zone (at_time 738000 3600000000)) (to_local demo_zone (at_time 738000 3600000000))
    = at_time 738000 3600000000"
  by (rule local_time_round_trip [OF demo_zone_ok])

text \<open>C9: The accounting day is the date of the local clock turned back by the reset time; when
  some instant shows the reset time on a day, the computed start of that day is the first such
  instant and belongs to the day.\<close>

theorem accounting_day_and_start:
  assumes "wf_zone z" "0 \<le> reset" "reset < day_us"
  shows "accounting_day z reset now = date_of (to_local z now - reset)
    \<and> (to_local z u = at_time day reset \<longrightarrow>
         to_local z (accounting_day_start z reset day) = at_time day reset
         \<and> accounting_day_start z reset day \<le> u
         \<and> accounting_day z reset (accounting_day_start z reset day) = day)"
  using accounting_day_eq [OF assms(2,3)] accounting_day_start_shown [OF assms] by blast

theorem accounting_day_and_start_demo:
  "accounting_day demo_zone 14400000000 (at_time 738000 0) = date_of (to_local demo_zone (at_time 738000 0) - 14400000000)"
proof -
  have r: "(0::int) \<le> 14400000000" "14400000000 < day_us" by (simp_all add: day_us_def)
  show ?thesis using accounting_day_and_start [OF demo_zone_ok r] by blast
qed

text \<open>Where the zone skips the reset time, the start of the accounting day is not the first
  instant of the day: in a zone that springs from 02:00 to 03:00, with a reset at 02:30, the
  computed start shows 03:30, and the half hour before it already belongs to the day.\<close>

theorem gap_day_start:
  "let start = accounting_day_start demo_zone (150 * 60000000) 738000;
       early = start - 30 * 60000000
   in to_local demo_zone start = at_time 738000 (210 * 60000000)
      \<and> early < start \<and> accounting_day demo_zone (150 * 60000000) early = 738000
      \<and> accounting_day demo_zone (150 * 60000000) (early - 1) = 737999"
  by (simp add: Let_def accounting_day_start_def accounting_day_def to_utc_def to_local_def zone_offset_def demo_zone_def
      at_time_def date_of_def time_of_def day_us_def local_fold_def)

text \<open>Reading back a canonical HH:MM text gives the minute it names, and whatever text is
  accepted names a whole minute of the day.\<close>

theorem hhmm_reading:
  assumes "0 \<le> h" "h \<le> 23" "0 \<le> m" "m \<le> 59"
  shows "parse_hhmm (pad_int 2 h @ '':'' @ pad_int 2 m) = Inr (clock_time h m)
    \<and> (parse_hhmm v = Inr t \<longrightarrow> 0 \<le> t \<and> t < day_us \<and> 60000000 dvd t)"
  using parse_hhmm_canonical [OF assms] parse_hhmm_range [of v t] by blast

theorem hhmm_reading_demo: "parse_hhmm (pad_int 2 7 @ '':'' @ pad_int 2 5) = Inr (clock_time 7 5)"
  using hhmm_reading [of 7 5 "[]" 0] by simp

text \<open>C10: An instant is inside the allowed periods exactly when none is configured, or a window
  one of the listed days opened is still running, windows past midnight included.\<close>

theorem allowed_periods_are_windows:
  assumes "list_all wf_period (c_allowed_periods c)"
  shows "within_allowed_period c now \<longleftrightarrow> c_allowed_periods c = []
    \<or> (\<exists>p \<in> set (c_allowed_periods c). \<exists>day. window_open p day (to_local (c_timezone c) now))"
  using assms by (rule within_allowed_period_iff)

definition demo_night :: config where
  "demo_night = demo_config\<lparr>c_allowed_periods := [\<lparr>ap_days = [Monday], ap_start = clock_time 22 0, ap_end = clock_time 2 0\<rparr>]\<rparr>"

theorem allowed_periods_are_windows_demo:
  "within_allowed_period demo_night (at_time 737998 (clock_time 1 30))
    \<longleftrightarrow> (\<exists>day. window_open \<lparr>ap_days = [Monday], ap_start = clock_time 22 0, ap_end = clock_time 2 0\<rparr> day
          (to_local utc_zone (at_time 737998 (clock_time 1 30))))"
proof -
  have ok: "list_all wf_period (c_allowed_periods demo_night)"
    by (simp add: demo_night_def wf_period_def clock_time_def day_us_def)
  show ?thesis
    using allowed_periods_are_windows [OF ok, of "at_time 737998 (clock_time 1 30)"]
    by (simp add: demo_night_def demo_config_def)
qed

section \<open>Texts\<close>

text \<open>Every message key has a text in both languages that use the same fields, and
  rendering it with values for those fields never raises.\<close>

theorem texts_render:
  assumes "key \<in> fst ` set TEXT_en" and "set (field_names None (template EN key)) \<subseteq> fst ` set vs"
  shows "(key, template l' key) \<in> set (TEXT l')
    \<and> field_names None (template ES key) = field_names None (template EN key)
    \<and> (\<exists>r. tr l key vs = Inr r)"
  using template_in_text [OF assms(1)] fields_agree [OF assms(1)] tr_renders [OF assms] by blast

theorem texts_render_demo: "\<exists>r. tr (Some ''es'') ''unlimited'' [] = Inr r"
proof -
  have "''unlimited'' \<in> fst ` set TEXT_en" by (simp add: TEXT_en_def TEXT_en_states_def)
  moreover have "field_names None (template EN ''unlimited'') = []"
    by (simp add: template_def TEXT_def TEXT_en_def TEXT_en_states_def)
  ultimately show ?thesis using texts_render [of "''unlimited''" "[]"] by simp
qed

section \<open>The tables\<close>

lemma session_usage:
  assumes "db_inv d" "current_session d = None" "db_inv d'" "current_session d' = None"
    and "\<forall>j. closed_usage j d' = closed_usage j d + (if j = k then v else 0)"
  shows "usage_for_day j d' = usage_for_day j d + (if j = k then v else 0)"
  using assms by (simp add: usage_for_day_split)

text \<open>A session that is opened, checkpointed any number of times and closed charges its day
  with exactly the duration it was closed with, no other day with anything, and leaves no open
  row; every one of the steps returns.\<close>

theorem session_charged_once:
  assumes "db_inv d" and "open_row d = None"
  shows "\<exists>d'. bindP (open_session k g t) (\<lambda>i. thenP (mapP (\<lambda>(v, t). checkpoint_session i v t) checkpoints)
        (close_session i v t' why)) d = (Inr (), d')
    \<and> db_inv d' \<and> open_row d' = None
    \<and> (\<forall>j. usage_for_day j d' = usage_for_day j d + (if j = k then max 0 v else 0))"
proof -
  have none: "current_session d = None" using assms(2) by (simp add: current_session_def)
  from tables.lifetime [OF assms(1) none, of k g t checkpoints v t' why] obtain d' where
    d': "bindP (open_session k g t) (\<lambda>i. thenP (mapP (\<lambda>(v, t). checkpoint_session i v t) checkpoints)
        (close_session i v t' why)) d = (Inr (), d')" "db_inv d'" "current_session d' = None"
      "\<forall>j. closed_usage j d' = closed_usage j d + (if j = k then max 0 v else 0)"
    by blast
  then show ?thesis using session_usage [OF assms(1) none d'(2-4)] by (auto simp: current_session_def)
qed

theorem session_charged_once_demo:
  "\<exists>d'. bindP (open_session ''2024-01-01'' demo_game 0) (\<lambda>i. thenP
        (mapP (\<lambda>(v, t). checkpoint_session i v t) [(5, 5), (9, 9)]) (close_session i 12 12 ''x'')) (empty_db demo_ids)
      = (Inr (), d') \<and> usage_for_day ''2024-01-01'' d' = 12"
proof -
  have none: "open_row (empty_db demo_ids) = None" by (simp add: open_row_def empty_db_def)
  have zero: "usage_for_day k (empty_db demo_ids) = 0" for k by (simp add: usage_for_day_def empty_db_def)
  show ?thesis
    using session_charged_once [OF demo_db_ok(1) none, of "''2024-01-01''" demo_game 0 "[(5, 5), (9, 9)]" 12 12 "''x''"]
    by (auto simp: zero)
qed

text \<open>Rotating a session at a day boundary closes it on its day with the duration given and
  opens one for the new day with nothing on it: each second is charged to one day.\<close>

theorem rotation_charges_old_day:
  assumes "db_inv d" and "current_session d = Some (i, k, u)"
  shows "\<exists>i' d'. rotate_session_day i v boundary k' g d = (Inr i', d') \<and> db_inv d'
    \<and> current_session d' = Some (i', k', 0)
    \<and> (\<forall>j. usage_for_day j d' = usage_for_day j d + (if j = k then max 0 v - u else 0))"
proof -
  from tables.rotation [OF assms, of v boundary "''daily_reset''" k' g] obtain i' d' where
    d': "rotate_session_day i v boundary k' g d = (Inr i', d')" "db_inv d'" "current_session d' = Some (i', k', 0)"
      "\<forall>j. closed_usage j d' = closed_usage j d + (if j = k then max 0 v else 0)"
    unfolding rotate_session_day_def by blast
  then have "usage_for_day j d' = usage_for_day j d + (if j = k then max 0 v - u else 0)" for j
    using assms by (simp add: usage_for_day_split)
  with d' show ?thesis by blast
qed

theorem rotation_charges_old_day_demo:
  "\<exists>i' d'. rotate_session_day ''u'' 600 0 ''2024-01-02'' demo_game demo_tables = (Inr i', d')
    \<and> usage_for_day (date_isoformat 738000) d' = 600"
  using rotation_charges_old_day [OF demo_tables_ok demo_tables_fields(1), of 600 0 "''2024-01-02''" demo_game]
  by (auto simp: demo_tables_fields)

text \<open>A second session cannot be opened while one is open: the call raises and the tables
  keep their rows.\<close>

theorem second_session_refused:
  assumes "open_row d = Some r"
  shows "open_session k g t d
    = (Inl (DatabaseError (''an open session already exists: '' @ s_id r)), d\<lparr>uuid_next := Suc (uuid_next d)\<rparr>)"
proof -
  have "open_row (d\<lparr>uuid_next := Suc (uuid_next d)\<rparr>) = Some r" using assms by (simp add: open_row_def)
  then show ?thesis by (simp add: open_session_def bindP_def new_uuid_def transaction_def thenP_def gets_def raise_def)
qed

theorem second_session_refused_demo:
  "fst (open_session ''2024-01-02'' demo_game 0 demo_tables)
    = Inl (DatabaseError (''an open session already exists: '' @ ''u''))"
proof -
  have "open_row demo_tables = Some (new_session_row ''u'' (date_isoformat 738000) demo_game (current_utc demo_clock))"
    by (simp add: demo_tables_def open_row_def is_open_def new_session_row_def)
  from second_session_refused [OF this] show ?thesis by (simp add: new_session_row_def)
qed

text \<open>Recovery after a crash closes the open session with its last stored duration: no day's
  play time changes, the interrupted row is returned, and a second recovery finds nothing.\<close>

theorem recovery_keeps_usage:
  assumes "db_inv d"
  shows "\<exists>d'. recover_open_session t d = (Inr (open_row d), d') \<and> db_inv d' \<and> open_row d' = None
    \<and> (\<forall>k. usage_for_day k d' = usage_for_day k d) \<and> recover_open_session t' d' = (Inr None, d')"
proof -
  have "wp (recover_open_session t) (\<lambda>r d'. r = open_row d \<and> db_inv d' \<and> current_session d' = None
      \<and> (\<forall>k. closed_usage k d' = usage_for_day k d)) (\<lambda>_ _. False) d"
    by (rule recover_wp [OF assms]) simp
  from wp_returns [OF this] obtain d' where d': "recover_open_session t d = (Inr (open_row d), d')" "db_inv d'"
    "current_session d' = None" "\<forall>k. closed_usage k d' = usage_for_day k d"
    by blast
  then have "open_row d' = None" by (simp add: current_session_def)
  then have "recover_open_session t' d' = (Inr None, d')"
    by (simp add: recover_open_session_def bindP_def gets_def ret_def)
  with d' show ?thesis by (auto simp: usage_for_day_split current_session_def)
qed

theorem recovery_keeps_usage_demo:
  "\<exists>d'. recover_open_session 99 demo_tables = (Inr (open_row demo_tables), d') \<and> open_row d' = None"
  using recovery_keeps_usage [OF demo_tables_ok] by blast

text \<open>Marking thresholds reports each one as new at most once per scope and key: of any list
  exactly the thresholds not yet marked come back, marking them again yields none, and after the
  scope is cleared all of them are new again.\<close>

theorem warnings_marked_once:
  "\<exists>news d' d''. filterP (\<lambda>n. mark_notification a b n t) ns d = (Inr news, d')
    \<and> distinct news \<and> set news = {n \<in> set ns. n \<notin> notification_thresholds a b d}
    \<and> filterP (\<lambda>n. mark_notification a b n t') ns d' = (Inr [], d'')
    \<and> (\<exists>again d3. thenP (clear_notification_scope a b) (filterP (\<lambda>n. mark_notification a b n t) ns) d''
          = (Inr again, d3) \<and> set again = set ns)"
proof -
  have marked: "(a, b, n) \<in> marked_set d \<longleftrightarrow> n \<in> notification_thresholds a b d" for n
    by (auto simp: marked_set_def notification_thresholds_def mark_key_def image_iff)
  obtain news d' where news: "filterP (\<lambda>n. mark_notification a b n t) ns d = (Inr news, d')" "distinct news"
    "set news = {n \<in> set ns. (a, b, n) \<notin> marked_set d}"
    using table_marks.mark_all by blast
  obtain d'' where again: "filterP (\<lambda>n. mark_notification a b n t') ns d' = (Inr [], d'')"
    using table_marks.mark_again [OF news(1)] by blast
  show ?thesis
    using news again table_marks.rearm [of a b t ns d''] unfolding marked by blast
qed

text \<open>A timer saved with a remaining time that is not negative is loaded back unchanged, in
  each of its states, and the tables of sessions, events, adjustments and marks stay as they were.\<close>

theorem timer_round_trip:
  assumes "0 \<le> t_remaining t"
  shows "\<exists>d'. save_timer t d = (Inr (), d') \<and> load_timer d' = t \<and> sessions d' = sessions d
    \<and> events d' = events d \<and> adjustments d' = adjustments d \<and> marks d' = marks d"
  using load_save_timer [OF assms, of d] by (auto simp: save_timer_def modify_def)

theorem timer_round_trip_demo:
  "\<exists>d'. save_timer (new_timer 600 ''soft'' ''g'' 0) (empty_db demo_ids) = (Inr (), d')
    \<and> load_timer d' = new_timer 600 ''soft'' ''g'' 0"
proof -
  have "0 \<le> t_remaining (new_timer 600 ''soft'' ''g'' 0)" by (simp add: new_timer_def)
  from timer_round_trip [OF this] show ?thesis by blast
qed

text \<open>Retention deletes exactly the sessions that ended before the cutoff instant: a session
  that ended at or after it stays, the open one stays whatever its age, and no table gains a row.\<close>

theorem retention_cutoff:
  assumes "valid_instant (now - days * day_us)"
  shows "\<exists>counts d'. enforce_retention days now d = (Inr counts, d')
    \<and> (\<forall>r t. s_ended_at r = Some (utc_iso t) \<and> valid_instant t \<longrightarrow>
         r \<in> set (sessions d') = (r \<in> set (sessions d) \<and> now - days * day_us \<le> t))
    \<and> (\<forall>r. is_open r \<longrightarrow> r \<in> set (sessions d') = (r \<in> set (sessions d)))
    \<and> set (sessions d') \<subseteq> set (sessions d) \<and> rc_sessions counts = int (length (sessions d)) - int (length (sessions d'))
    \<and> timer_table d' = timer_table d"
proof -
  let ?c = "utc_iso (now - days * day_us)"
  obtain counts where counts: "enforce_retention days now d = (Inr counts, retained days now d)"
    "rc_sessions counts = int (length (filter (ended_before ?c) (sessions d)))"
    by (simp add: retained_def enforce_retention_def transaction_def Let_def count_if_def)
  have "rc_sessions counts = int (length (sessions d)) - int (length (sessions (retained days now d)))"
    using counts(2) sum_length_filter_compl [of "ended_before ?c" "sessions d"] by (simp add: retained_tables)
  moreover have "ended_before ?c r \<longleftrightarrow> t < now - days * day_us"
    if "s_ended_at r = Some (utc_iso t)" "valid_instant t" for r t
    using that utc_iso_less [OF that(2) assms] by (simp add: ended_before_def)
  moreover have "\<not> ended_before ?c r" if "is_open r" for r
    using that by (simp add: ended_before_def is_open_def)
  ultimately show ?thesis
    using counts(1)
    by (intro exI [of _ counts] exI [of _ "retained days now d"] conjI)
      (auto simp: retained_tables not_less)
qed

theorem retention_cutoff_demo:
  "\<exists>counts d'. enforce_retention 90 (current_utc demo_clock) demo_tables = (Inr counts, d')
    \<and> timer_table d' = timer_table demo_tables"
proof -
  have v: "valid_instant (current_utc demo_clock - 90 * day_us)"
    by (simp add: valid_instant_def valid_date_def max_ordinal_def demo_clock_def at_time_def date_of_def day_us_def)
  show ?thesis using retention_cutoff [OF v, of demo_tables] by blast
qed

text \<open>Clearing the history is refused, and changes nothing, while a session is open;
  otherwise it empties the five history tables and keeps the timer.\<close>

theorem clear_history_guarded:
  "clear_history d =
    (if open_row d = None
     then (Inr (), d\<lparr>sessions := [], events := [], adjustments := [], marks := [], buckets := []\<rparr>)
     else (Inl (DatabaseError ''history cannot be cleared while a game session is active''), d))"
  by (simp add: clear_history_def transaction_def bindP_def gets_def thenP_def guardP_def raise_def ret_def modify_def)

section \<open>Activity buckets\<close>

text \<open>C11: The activity queue hands out exactly the seconds it is given: the pending total grows by
  the played seconds, over the four-hour blocks the interval crosses, daylight changes included,
  and every entry it adds is positive, of this day and game, in a block from 0 to 5.\<close>

theorem queue_conserves_seconds:
  assumes "a < b" and "0 < s" and "\<forall>p \<in> set (pending_usage_buckets e). 0 < snd p"
  shows "\<exists>e'. queue_usage_buckets g k a b s e = (Inr (), e')
    \<and> pending_total (pending_usage_buckets e') = pending_total (pending_usage_buckets e) + s
    \<and> (\<forall>p \<in> set (pending_usage_buckets e'). p \<in> set (pending_usage_buckets e) \<or> entry_for k g p)"
proof -
  have w: "0 < seconds_between b a" using assms(1) by (simp add: seconds_between_pos)
  then have r: "s = s * seconds_between b a / seconds_between b a" by simp
  show ?thesis
    using assms queue_loop_total [OF assms(1,2) w r, of "usage_bucket_timezone e" g k "pending_usage_buckets e"]
      queue_loop_entries [OF assms(2) w assms(3), of "usage_bucket_timezone e" g k b a s]
    by (simp add: queue_usage_buckets_def modify_def)
qed

theorem queue_conserves_seconds_demo:
  "\<exists>e'. queue_usage_buckets demo_game ''2024-01-01'' 0 10000000 10 demo_playing = (Inr (), e')
    \<and> pending_total (pending_usage_buckets e') = 10"
  using queue_conserves_seconds [of 0 10000000 10 demo_playing demo_game "''2024-01-01''"]
  by (auto simp: demo_playing_fields pending_total_def)

lemma upsert_total:
  "sum_list (map b_seconds (upsert_bucket r bs)) = sum_list (map b_seconds bs) + b_seconds r"
  by (induction r bs rule: upsert_bucket.induct) simp_all

lemma upserts_total:
  "sum_list (map b_seconds (foldl (\<lambda>bs r. upsert_bucket r bs) bs rs))
    = sum_list (map b_seconds bs) + sum_list (map b_seconds rs)"
  by (induction rs arbitrary: bs) (simp_all add: upsert_total)

lemma entry_seconds: "usage_bucket_row (bucket_entry p) = Inr r \<Longrightarrow> b_seconds r = snd p"
proof -
  assume row: "usage_bucket_row (bucket_entry p) = Inr r"
  obtain k i ak ai an x where p: "p = ((k, i, ak, ai, an), x)" by (cases p) auto
  have "get_or_none ''seconds'' (bucket_entry p) = PFloat x" "get_or_none ''bucket_index'' (bucket_entry p) = PInt i"
    by (simp_all add: p bucket_entry_def get_or_none_def dict_get_def)
  with row show "b_seconds r = snd p"
    unfolding usage_bucket_row_def Let_def by (simp add: p split: option.splits if_splits) auto
qed

lemma rows_seconds:
  "usage_bucket_rows (map bucket_entry ps) = Inr rs \<Longrightarrow> sum_list (map b_seconds rs) = pending_total ps"
  by (induction ps arbitrary: rs) (auto simp: pending_total_def entry_seconds split: sum.splits)

text \<open>A flush moves every pending second into the buckets table, keeps one row per day, block
  and application, and empties the queue; when the storage layer refuses an entry it raises and
  neither the table nor the queue changes.\<close>

theorem flush_conserves_seconds:
  assumes "db_inv (storage e)"
  shows "case flush_usage_buckets e of
      (Inr _, e') \<Rightarrow> pending_usage_buckets e' = []
        \<and> sum_list (map b_seconds (buckets (storage e')))
          = sum_list (map b_seconds (buckets (storage e))) + pending_total (pending_usage_buckets e)
        \<and> distinct (map bucket_key (buckets (storage e')))
    | (Inl x, e') \<Rightarrow> e' = e \<and> usage_bucket_rows (map bucket_entry (pending_usage_buckets e)) = Inl x"
proof (cases "pending_usage_buckets e = []")
  case True
  with assms show ?thesis
    by (simp add: flush_usage_buckets_def bindP_def gets_def ret_def pending_total_def db_inv_def)
next
  case False
  have keys: "distinct (map bucket_key (buckets (storage e)))" "\<forall>b \<in> set (buckets (storage e)). bucket_ok b"
    using assms by (simp_all add: db_inv_def bucket_ok_def)
  show ?thesis
  proof (cases "usage_bucket_rows (map bucket_entry (pending_usage_buckets e))")
    case (Inl x)
    with False show ?thesis
      by (simp add: flush_usage_buckets_def bindP_def gets_def thenP_def store_def add_usage_buckets_def raise_def)
  next
    case (Inr rs)
    then have "rs \<noteq> []" using False by (cases "pending_usage_buckets e") (auto split: sum.splits)
    then show ?thesis
      using False Inr rows_seconds [OF Inr] upserts [OF keys usage_bucket_rows_ok [OF Inr]]
      by (simp add: flush_usage_buckets_def bindP_def gets_def thenP_def store_def add_usage_buckets_def
          transaction_def modify_def ret_def upserts_total)
  qed
qed

theorem flush_conserves_seconds_demo: "\<exists>e'. flush_usage_buckets demo_playing = (Inr (), e') \<and> pending_usage_buckets e' = []"
proof -
  have inv: "db_inv (storage demo_playing)" by (simp add: demo_playing_fields demo_tables_ok)
  have run: "flush_usage_buckets demo_playing = (Inr (), demo_playing)"
    by (simp add: flush_usage_buckets_def bindP_def gets_def ret_def demo_playing_fields)
  show ?thesis using flush_conserves_seconds [OF inv] run by simp
qed

definition superscript_game :: game_identity where
  "superscript_game = demo_game\<lparr>g_app_id := Some [CHR 0xB2]\<rparr>"

text \<open>A game whose app id is a superscript digit passes the engine's validation, but every
  bucket entry it queues is refused by the storage layer, so a flush with such an entry raises.\<close>

theorem superscript_app_id_unflushable:
  "validate_game superscript_game = Inr ()
    \<and> (\<forall>k i x. \<exists>err. usage_bucket_row (bucket_entry
         ((k, i, app_key_of superscript_game, g_app_id superscript_game, g_name superscript_game), x)) = Inl (ValueError err))"
proof -
  have id: "decimal_or_none (get_or_none ''app_id'' (bucket_entry
      ((k, i, app_key_of superscript_game, g_app_id superscript_game, g_name superscript_game), x))) = None" for k i x
    by (simp add: bucket_entry_def get_or_none_def dict_get_def superscript_game_def popt_def decimal_or_none_def
        str_isdecimal_def ch_isdecimal_def)
  have "\<exists>err. usage_bucket_row (bucket_entry
      ((k, i, app_key_of superscript_game, g_app_id superscript_game, g_name superscript_game), x)) = Inl (ValueError err)"
    for k i x
    unfolding usage_bucket_row_def id by (simp split: option.splits pyval.splits)
  then show ?thesis
    by (simp add: superscript_game_def demo_game_def validate_game_def str_isdigit_def ch_isdigit_def str_strip_def
        ch_isspace_def)
qed

end
