(* ===== verification/Process.thy ===== *)
theory Process
  imports Models
begin

text \<open>
  \<open>SafeProcessController\<close> of \<open>enforcement.py\<close>: which processes may be signalled. The
  \<open>/proc\<close> directory is a value of the model: what each read returns, or that it fails
  (\<open>None\<close> for an \<open>OSError\<close>). The lemmas characterise the verified processes and show
  that the daemon's ancestors are found up to the depth the code looks.
\<close>

section \<open>The process table\<close>

record proc_entry =
  pr_uid :: "int option"
  pr_comm :: "string option"
  pr_environ :: "string option"
  pr_stat :: "string option"

record proc_fs =
  pf_listing :: "string list option"
  pf_entry :: "string \<Rightarrow> proc_entry"

definition PROTECTED_PROCESS_NAMES :: "string list" where
  "PROTECTED_PROCESS_NAMES =
     [''systemd'', ''systemd --user'', ''steam'', ''steamwebhelper'', ''gamescope'', ''kwin_wayland'', ''plasmashell'',
      ''konsole'', ''sshd'', ''bash'', ''zsh'', ''fish'', ''python'', ''python3'', ''steamos-time-guardian'']"

record controller =
  ct_protected :: "string list"
  ct_uid :: int
  ct_pid :: int

definition default_controller :: "int \<Rightarrow> int \<Rightarrow> controller" where
  "default_controller uid pid = \<lparr>ct_protected = PROTECTED_PROCESS_NAMES, ct_uid = uid, ct_pid = pid\<rparr>"

section \<open>Reading an environment\<close>

text \<open>\<open>str.encode()\<close>, \<open>bytes.split(sep)\<close> and \<open>bytes.partition(sep)\<close>.\<close>

definition utf8 :: "string \<Rightarrow> string" where
  "utf8 s = concat (map (\<lambda>c. let n = code c
     in if n < 128 then [c] else [char_of (192 + n div 64), char_of (128 + n mod 64)]) s)"

fun split_on :: "char \<Rightarrow> string \<Rightarrow> string list" where
  "split_on c [] = [[]]"
| "split_on c (x # xs) =
     (if x = c then [] # split_on c xs
      else (case split_on c xs of [] \<Rightarrow> [[x]] | w # ws \<Rightarrow> (x # w) # ws))"

fun partition_on :: "char \<Rightarrow> string \<Rightarrow> string \<times> bool \<times> string" where
  "partition_on c [] = ([], False, [])"
| "partition_on c (x # xs) =
     (if x = c then ([], True, xs)
      else (case partition_on c xs of (k, found, v) \<Rightarrow> (x # k, found, v)))"

definition env_keys :: "string list" where
  "env_keys = [''SteamAppId'', ''SteamGameId'', ''STEAM_COMPAT_APP_ID'']"

definition environment_matches :: "string \<Rightarrow> string \<Rightarrow> bool" where
  "environment_matches raw app_id =
     list_ex (\<lambda>item. case partition_on CHR ''='' item of
         (key, separator, value) \<Rightarrow> separator \<and> key \<in> set env_keys \<and> value = utf8 app_id)
       (split_on (char_of (0::nat)) raw)"

section \<open>The daemon's ancestors\<close>

definition after_last_paren :: "string \<Rightarrow> string option" where
  "after_last_paren s =
     (if CHR '')'' \<in> set s then Some (rev (takeWhile (\<lambda>c. c \<noteq> CHR '')'') (rev s))) else None)"

text \<open>\<open>str.split()\<close>: the words between runs of white space.\<close>

fun str_words :: "string \<Rightarrow> string list" where
  "str_words [] = []"
| "str_words (c # cs) =
     (if ch_isspace c then str_words cs
      else (case cs of
              [] \<Rightarrow> [[c]]
            | d # _ \<Rightarrow> if ch_isspace d then [c] # str_words cs
                       else (case str_words cs of [] \<Rightarrow> [[c]] | w # ws \<Rightarrow> (c # w) # ws)))"

definition parent_of :: "proc_fs \<Rightarrow> int \<Rightarrow> int option" where
  "parent_of fs pid =
     (case pr_stat (pf_entry fs (int_str pid)) of
        None \<Rightarrow> None
      | Some stat \<Rightarrow>
          (case after_last_paren stat of
             None \<Rightarrow> None
           | Some rest \<Rightarrow>
               (case str_words (str_strip rest) of
                  _ # parent # _ \<Rightarrow> py_int parent
                | _ \<Rightarrow> None)))"

fun ancestors_loop :: "nat \<Rightarrow> proc_fs \<Rightarrow> int \<Rightarrow> int list \<Rightarrow> int list" where
  "ancestors_loop 0 fs current ancestors = ancestors"
| "ancestors_loop (Suc n) fs current ancestors =
     (case parent_of fs current of
        None \<Rightarrow> ancestors
      | Some parent \<Rightarrow>
          if parent \<le> 1 \<or> parent \<in> set ancestors then ancestors
          else ancestors_loop n fs parent (parent # ancestors))"

definition ancestor_pids :: "proc_fs \<Rightarrow> int \<Rightarrow> int list" where
  "ancestor_pids fs pid = ancestors_loop 64 fs pid []"

section \<open>The processes of an application\<close>

definition scan_entry :: "controller \<Rightarrow> proc_fs \<Rightarrow> string \<Rightarrow> string \<Rightarrow> int option" where
  "scan_entry ct fs app_id name =
     (if \<not> str_isdigit name then None
      else (let p = pf_entry fs name
            in if pr_uid p = Some (ct_uid ct)
                  \<and> (case pr_environ p of None \<Rightarrow> False | Some raw \<Rightarrow> environment_matches raw app_id)
               then py_int name else None))"

definition scan_app_pids :: "controller \<Rightarrow> proc_fs \<Rightarrow> string \<Rightarrow> int list" where
  "scan_app_pids ct fs app_id =
     (case pf_listing fs of None \<Rightarrow> [] | Some entries \<Rightarrow> List.map_filter (scan_entry ct fs app_id) entries)"

definition may_signal :: "controller \<Rightarrow> proc_fs \<Rightarrow> string \<Rightarrow> int \<Rightarrow> bool" where
  "may_signal ct fs app_id pid =
     (if pid \<le> 1 \<or> pid = ct_pid ct \<or> pid \<in> set (ancestor_pids fs (ct_pid ct)) then False
      else (let p = pf_entry fs (int_str pid)
            in if pr_uid p \<noteq> Some (ct_uid ct) then False
               else (case pr_comm p of
                       None \<Rightarrow> False
                     | Some comm \<Rightarrow>
                         if str_casefold (str_strip comm) \<in> str_casefold ` set (ct_protected ct) then False
                         else (case pr_environ p of None \<Rightarrow> False | Some raw \<Rightarrow> environment_matches raw app_id))))"

definition verified_pids :: "controller \<Rightarrow> proc_fs \<Rightarrow> game_identity \<Rightarrow> int list" where
  "verified_pids ct fs game =
     (case g_app_id game of
        None \<Rightarrow> []
      | Some app_id \<Rightarrow>
          if app_id = [] \<or> app_id = ''0'' \<or> \<not> str_isdigit app_id then []
          else filter (may_signal ct fs app_id)
                 (sort (remdups (g_pids game @ scan_app_pids ct fs app_id))))"

text \<open>\<open>terminate\<close>: \<open>kill\<close> says which signals the kernel accepts.\<close>

definition terminate :: "controller \<Rightarrow> proc_fs \<Rightarrow> (int \<Rightarrow> bool \<Rightarrow> bool) \<Rightarrow> game_identity \<Rightarrow> bool \<Rightarrow> int list" where
  "terminate ct fs kill game force = filter (\<lambda>pid. kill pid force) (verified_pids ct fs game)"

section \<open>What may be signalled\<close>

lemma may_signal_iff:
  "may_signal ct fs app_id pid \<longleftrightarrow>
     1 < pid \<and> pid \<noteq> ct_pid ct \<and> pid \<notin> set (ancestor_pids fs (ct_pid ct))
     \<and> pr_uid (pf_entry fs (int_str pid)) = Some (ct_uid ct)
     \<and> (\<exists>comm. pr_comm (pf_entry fs (int_str pid)) = Some comm
          \<and> (\<forall>name \<in> set (ct_protected ct). str_casefold (str_strip comm) \<noteq> str_casefold name))
     \<and> (\<exists>raw. pr_environ (pf_entry fs (int_str pid)) = Some raw \<and> environment_matches raw app_id)"
  by (auto simp: may_signal_def Let_def split: option.splits if_splits)

lemma verified_iff:
  "pid \<in> set (verified_pids ct fs game) \<longleftrightarrow>
     (\<exists>app_id. g_app_id game = Some app_id \<and> app_id \<noteq> ''0'' \<and> str_isdigit app_id \<and> may_signal ct fs app_id pid
        \<and> (pid \<in> set (g_pids game) \<or> pid \<in> set (scan_app_pids ct fs app_id)))"
proof (cases "g_app_id game")
  case (Some app_id)
  have "app_id = [] \<or> app_id = ''0'' \<or> \<not> str_isdigit app_id \<longleftrightarrow> \<not> (app_id \<noteq> ''0'' \<and> str_isdigit app_id)"
    by (auto simp: str_isdigit_def)
  with Some show ?thesis by (auto simp: verified_pids_def)
qed (simp add: verified_pids_def)

lemma verified_sorted: "sorted (verified_pids ct fs game) \<and> distinct (verified_pids ct fs game)"
  by (simp add: verified_pids_def sorted_wrt_filter split: option.split)

section \<open>Fields\<close>

lemma partition_on_iff: "partition_on c xs = (k, True, v) \<longleftrightarrow> xs = k @ c # v \<and> c \<notin> set k"
proof (induction xs arbitrary: k)
  case (Cons x xs)
  show ?case
  proof (cases "x = c")
    case False
    obtain k' f v' where p: "partition_on c xs = (k', f, v')" by (cases "partition_on c xs")
    show ?thesis
    proof (cases k)
      case (Cons y ys)
      have "partition_on c xs = (ys, True, v) \<longleftrightarrow> xs = ys @ c # v \<and> c \<notin> set ys" by (rule Cons.IH)
      with False Cons p show ?thesis by auto
    qed (use False p in auto)
  qed (cases k; auto)
qed simp

text \<open>A field of the environment must be one of the keys with exactly the app id as its value.\<close>

lemma environment_matches_iff:
  "environment_matches raw app_id \<longleftrightarrow>
     (\<exists>key \<in> set env_keys. key @ CHR ''='' # utf8 app_id \<in> set (split_on (char_of (0::nat)) raw))"
proof -
  have key: "CHR ''='' \<notin> set key" if "key \<in> set env_keys" for key
    using that by (auto simp: env_keys_def)
  have "(case partition_on CHR ''='' item of (k, f, v) \<Rightarrow> f \<and> k \<in> set env_keys \<and> v = utf8 app_id)
      \<longleftrightarrow> (\<exists>k \<in> set env_keys. partition_on CHR ''='' item = (k, True, utf8 app_id))" for item
    by (auto split: prod.splits)
  then show ?thesis
    unfolding environment_matches_def list_ex_iff partition_on_iff using key by auto
qed

section \<open>The chain of ancestors\<close>

text \<open>\<open>chain fs p qs\<close>: \<open>qs\<close> are the parent, grandparent, \<dots> of \<open>p\<close>.\<close>

fun chain :: "proc_fs \<Rightarrow> int \<Rightarrow> int list \<Rightarrow> bool" where
  "chain fs p [] = True"
| "chain fs p (q # qs) = (parent_of fs p = Some q \<and> 1 < q \<and> chain fs q qs)"

lemma ancestors_keep: "set seen \<subseteq> set (ancestors_loop n fs p seen)"
  by (induction n fs p seen rule: ancestors_loop.induct) (auto split: option.splits)

lemma ancestors_chain:
  "chain fs p qs \<Longrightarrow> length qs \<le> n \<Longrightarrow> distinct (qs @ seen) \<Longrightarrow> set qs \<subseteq> set (ancestors_loop n fs p seen)"
proof (induction n fs p seen arbitrary: qs rule: ancestors_loop.induct)
  case (2 n fs p seen)
  then show ?case
  proof (cases qs)
    case (Cons q qs')
    have "q \<in> set (ancestors_loop n fs q (q # seen))" using ancestors_keep [of "q # seen"] by auto
    with 2 Cons show ?thesis by auto
  qed simp
qed simp

lemma ancestors_sound:
  "a \<in> set (ancestors_loop n fs p seen) \<Longrightarrow> a \<in> set seen \<or> (\<exists>qs. chain fs p qs \<and> a \<in> set qs)"
proof (induction n fs p seen rule: ancestors_loop.induct)
  case (2 n fs p seen)
  show ?case
  proof (cases "parent_of fs p")
    case (Some q)
    show ?thesis
    proof (cases "q \<le> 1 \<or> q \<in> set seen")
      case False
      then have "a \<in> set (q # seen) \<or> (\<exists>qs. chain fs q qs \<and> a \<in> set qs)" using 2 Some by auto
      moreover have "chain fs p [q]" "chain fs q qs \<Longrightarrow> chain fs p (q # qs)" for qs using False Some by auto
      ultimately show ?thesis by (metis list.set_intros set_ConsD)
    qed (use 2 Some in auto)
  qed (use 2 in auto)
qed simp

end
