(* ===== verification/Enforcement.thy ===== *)
theory Enforcement
  imports Engine Process "HOL-Library.Sublist"
begin

text \<open>
  \<open>EnforcementManager\<close> of \<open>enforcement.py\<close>. A flow (the coroutine \<open>_run\<close>) is cut at its
  awaits: \<open>stage\<close> names the await it is suspended at and \<open>advance\<close> runs it to the next
  one. A cancelled task never runs again, so the manager holds the one live flow. The world
  around it is a step relation: arming, cancelling, time, any change of the engine's status,
  and the flow's own progress once its sleep is over; it logs what the flow records.
\<close>

section \<open>Plans\<close>

record enforcement_plan =
  pl_level :: int
  pl_grace_seconds :: int
  pl_close_timeout_seconds :: int
  pl_request_steam_close :: bool
  pl_process_fallback :: bool
  pl_allow_force_kill :: bool

definition build_plan :: "config \<Rightarrow> int \<Rightarrow> enforcement_plan" where
  "build_plan c level = \<lparr>pl_level = level, pl_grace_seconds = c_grace_seconds c,
     pl_close_timeout_seconds = c_close_timeout_seconds c, pl_request_steam_close = (level \<ge> 2),
     pl_process_fallback = (level \<ge> 2 \<and> c_safe_process_fallback c),
     pl_allow_force_kill = (level \<ge> 2 \<and> c_force_kill_enabled c)\<rparr>"

section \<open>The manager\<close>

datatype stage = Started | Grace | CloseWait | TermScan | TermWait | KillScan

record flow =
  fl_generation :: int
  fl_game :: game_identity
  fl_plan :: enforcement_plan
  fl_reason :: string
  fl_delay :: int
  fl_stage :: stage
  fl_due :: real

record manager =
  generation :: int
  task :: "flow option"

definition new_manager :: manager where
  "new_manager = \<lparr>generation = 0, task = None\<rparr>"

definition cancel :: "manager \<Rightarrow> manager" where
  "cancel m = m\<lparr>generation := generation m + 1, task := None\<rparr>"

definition arm :: "game_identity \<Rightarrow> config \<Rightarrow> int \<Rightarrow> string \<Rightarrow> bool \<Rightarrow> real \<Rightarrow> manager \<Rightarrow> manager" where
  "arm game c level reason launch_block now m =
     (let m' = cancel m
      in if level < 2 then m'
         else let g = generation m' + 1; plan = build_plan c level;
                  delay = (if launch_block then c_launch_grace_seconds c else pl_grace_seconds plan)
              in m'\<lparr>generation := g, task := Some \<lparr>fl_generation = g, fl_game = game, fl_plan = plan,
                    fl_reason = reason, fl_delay = delay, fl_stage = Started, fl_due = now\<rparr>\<rparr>)"

definition still_applicable :: "manager \<Rightarrow> engine_status \<Rightarrow> flow \<Rightarrow> bool" where
  "still_applicable m st f =
     (if fl_generation f \<noteq> generation m then False
      else (case st_game st of
              None \<Rightarrow> False
            | Some current \<Rightarrow>
                (if truthy (g_app_id (fl_game f)) then g_app_id current = g_app_id (fl_game f)
                 else str_casefold (g_name current) = str_casefold (g_name (fl_game f)))
                \<and> st_effective_level st \<ge> pl_level (fl_plan f)))"

section \<open>The flow between its awaits\<close>

record notice =
  no_kind :: string
  no_payload :: pyval
  no_severity :: string

text \<open>What a flow sees when it runs: the manager, the status, the clock, whether the plugin was
  seen recently, and the answer of \<open>terminate\<close>.\<close>

record surroundings =
  su_manager :: manager
  su_status :: engine_status
  su_time :: real
  su_plugin_recent :: bool
  su_terminate :: "game_identity \<Rightarrow> bool \<Rightarrow> int list"

definition sleep_until :: "surroundings \<Rightarrow> flow \<Rightarrow> stage \<Rightarrow> int \<Rightarrow> flow" where
  "sleep_until su f st seconds = f\<lparr>fl_stage := st, fl_due := su_time su + real_of_int seconds\<rparr>"

definition last_resort :: "surroundings \<Rightarrow> flow \<Rightarrow> flow option \<times> notice list" where
  "last_resort su f =
     (if \<not> still_applicable (su_manager su) (su_status su) f then (None, [])
      else if pl_allow_force_kill (fl_plan f) \<and> pl_process_fallback (fl_plan f)
      then (Some (sleep_until su f KillScan 0), [])
      else (None, [\<lparr>no_kind = ''enforcement.game_still_running'',
              no_payload = PDict [(''game'', game_to_dict (fl_game f)), (''force_kill_enabled'', PBool False)],
              no_severity = ''warning''\<rparr>]))"

definition after_close_wait :: "surroundings \<Rightarrow> flow \<Rightarrow> flow option \<times> notice list" where
  "after_close_wait su f =
     (if \<not> still_applicable (su_manager su) (su_status su) f then (None, [])
      else if pl_process_fallback (fl_plan f) then (Some (sleep_until su f TermScan 0), [])
      else last_resort su f)"

definition close_notice :: "flow \<Rightarrow> notice" where
  "close_notice f = \<lparr>no_kind = ''enforcement.close_requested'',
     no_payload = PDict [(''game'', game_to_dict (fl_game f)), (''reason'', PStr (fl_reason f)),
       (''level'', PInt (pl_level (fl_plan f))), (''grace_elapsed'', PBool True)],
     no_severity = ''warning''\<rparr>"

definition after_grace :: "surroundings \<Rightarrow> flow \<Rightarrow> flow option \<times> notice list" where
  "after_grace su f =
     (if \<not> still_applicable (su_manager su) (su_status su) f then (None, [])
      else let requested = (if pl_request_steam_close (fl_plan f) then [close_notice f] else [])
           in if pl_close_timeout_seconds (fl_plan f) \<noteq> 0
              then (Some (sleep_until su f CloseWait (pl_close_timeout_seconds (fl_plan f))), requested)
              else (case after_close_wait su f of (next, ns) \<Rightarrow> (next, requested @ ns)))"

definition term_notice :: "surroundings \<Rightarrow> flow \<Rightarrow> notice" where
  "term_notice su f = \<lparr>no_kind = ''enforcement.sigterm_attempted'',
     no_payload = PDict [(''game'', game_to_dict (fl_game f)),
       (''pids'', PList (map PInt (su_terminate su (fl_game f) False))),
       (''plugin_recent'', PBool (su_plugin_recent su))],
     no_severity = ''warning''\<rparr>"

definition after_term :: "surroundings \<Rightarrow> flow \<Rightarrow> flow option \<times> notice list" where
  "after_term su f =
     (if pl_close_timeout_seconds (fl_plan f) \<noteq> 0
      then (Some (sleep_until su f TermWait (pl_close_timeout_seconds (fl_plan f))), [term_notice su f])
      else (case last_resort su f of (next, ns) \<Rightarrow> (next, term_notice su f # ns)))"

definition after_kill :: "surroundings \<Rightarrow> flow \<Rightarrow> flow option \<times> notice list" where
  "after_kill su f =
     (None, [\<lparr>no_kind = ''enforcement.sigkill_attempted'',
        no_payload = PDict [(''game'', game_to_dict (fl_game f)),
          (''pids'', PList (map PInt (su_terminate su (fl_game f) True)))],
        no_severity = ''error''\<rparr>])"

definition advance :: "surroundings \<Rightarrow> flow \<Rightarrow> flow option \<times> notice list" where
  "advance su f =
     (case fl_stage f of
        Started \<Rightarrow> if fl_delay f \<noteq> 0 then (Some (sleep_until su f Grace (fl_delay f)), []) else after_grace su f
      | Grace \<Rightarrow> after_grace su f
      | CloseWait \<Rightarrow> after_close_wait su f
      | TermScan \<Rightarrow> after_term su f
      | TermWait \<Rightarrow> last_resort su f
      | KillScan \<Rightarrow> after_kill su f)"

text \<open>The \<open>finally\<close> clause: a flow that ends clears the task only if it is still the current one.\<close>

definition run_task :: "surroundings \<Rightarrow> flow \<Rightarrow> manager \<times> notice list" where
  "run_task su f =
     (case advance su f of
        (Some f', ns) \<Rightarrow> ((su_manager su)\<lparr>task := Some f'\<rparr>, ns)
      | (None, ns) \<Rightarrow>
          (if fl_generation f = generation (su_manager su) then (su_manager su)\<lparr>task := None\<rparr> else su_manager su, ns))"

section \<open>The manager in the service\<close>

text \<open>The log keeps, with each record of a flow, the flow's generation and the time; \<open>armed\<close>
  remembers when each generation was armed, with which plan and delay.\<close>

record log_entry =
  lg_time :: real
  lg_generation :: int
  lg_notice :: notice

record world =
  w_manager :: manager
  w_status :: engine_status
  w_time :: real
  w_armed :: "int \<Rightarrow> (real \<times> enforcement_plan \<times> int) option"
  w_log :: "log_entry list"

definition arm_world :: "game_identity \<Rightarrow> config \<Rightarrow> int \<Rightarrow> string \<Rightarrow> bool \<Rightarrow> world \<Rightarrow> world" where
  "arm_world game c level reason launch_block w =
     (let m = arm game c level reason launch_block (w_time w) (w_manager w)
      in w\<lparr>w_manager := m,
           w_armed := (case task m of None \<Rightarrow> w_armed w
                       | Some f \<Rightarrow> (w_armed w)(generation m := Some (w_time w, fl_plan f, fl_delay f)))\<rparr>)"

definition run_world :: "bool \<Rightarrow> (game_identity \<Rightarrow> bool \<Rightarrow> int list) \<Rightarrow> flow \<Rightarrow> world \<Rightarrow> world" where
  "run_world recent term f w =
     (case run_task \<lparr>su_manager = w_manager w, su_status = w_status w, su_time = w_time w,
             su_plugin_recent = recent, su_terminate = term\<rparr> f of
        (m, ns) \<Rightarrow> w\<lparr>w_manager := m,
          w_log := w_log w @ map (\<lambda>n. \<lparr>lg_time = w_time w, lg_generation = fl_generation f, lg_notice = n\<rparr>) ns\<rparr>)"

inductive world_step :: "world \<Rightarrow> world \<Rightarrow> bool" where
  arming: "0 \<le> c_grace_seconds c \<Longrightarrow> 0 \<le> c_launch_grace_seconds c \<Longrightarrow> 0 \<le> c_close_timeout_seconds c
    \<Longrightarrow> world_step w (arm_world game c level reason launch_block w)"
| cancelling: "world_step w (w\<lparr>w_manager := cancel (w_manager w)\<rparr>)"
| waiting: "w_time w \<le> t \<Longrightarrow> world_step w (w\<lparr>w_time := t\<rparr>)"
| engine_moves: "world_step w (w\<lparr>w_status := s\<rparr>)"
| running: "task (w_manager w) = Some f \<Longrightarrow> fl_due f \<le> w_time w \<Longrightarrow> world_step w (run_world recent term f w)"

inductive_cases world_step_cases: "world_step w w'"

inductive enforcing :: "world \<Rightarrow> bool" where
  begins: "w_manager w = new_manager \<Longrightarrow> w_armed w = (\<lambda>_. None) \<Longrightarrow> w_log w = [] \<Longrightarrow> enforcing w"
| steps: "enforcing w \<Longrightarrow> world_step w w' \<Longrightarrow> enforcing w'"

section \<open>What a flow may do, and when\<close>

text \<open>The records of a plan in order, and how long after the grace delay each may come.\<close>

definition escalation :: "enforcement_plan \<Rightarrow> string list" where
  "escalation p = [''enforcement.close_requested'']
     @ (if pl_process_fallback p then [''enforcement.sigterm_attempted''] else [])
     @ [if pl_allow_force_kill p \<and> pl_process_fallback p then ''enforcement.sigkill_attempted''
        else ''enforcement.game_still_running'']"

definition patience :: "enforcement_plan \<Rightarrow> string \<Rightarrow> real" where
  "patience p kind =
     (if kind = ''enforcement.close_requested'' then 0
      else if kind = ''enforcement.sigterm_attempted'' \<or> \<not> pl_process_fallback p
      then real_of_int (pl_close_timeout_seconds p)
      else 2 * real_of_int (pl_close_timeout_seconds p))"

definition kinds :: "notice list \<Rightarrow> string list" where
  "kinds ns = map no_kind ns"

fun stage_done :: "stage \<Rightarrow> string list" where
  "stage_done Started = []"
| "stage_done Grace = []"
| "stage_done CloseWait = [''enforcement.close_requested'']"
| "stage_done TermScan = [''enforcement.close_requested'']"
| "stage_done TermWait = [''enforcement.close_requested'', ''enforcement.sigterm_attempted'']"
| "stage_done KillScan = [''enforcement.close_requested'', ''enforcement.sigterm_attempted'']"

definition plan_ok :: "enforcement_plan \<Rightarrow> bool" where
  "plan_ok p = (2 \<le> pl_level p \<and> pl_request_steam_close p \<and> 0 \<le> pl_close_timeout_seconds p)"

definition flow_ok :: "real \<Rightarrow> enforcement_plan \<Rightarrow> int \<Rightarrow> flow \<Rightarrow> bool" where
  "flow_ok t0 p delay f =
     (fl_plan f = p \<and> fl_delay f = delay \<and> plan_ok p \<and> 0 \<le> delay
      \<and> (case fl_stage f of
           Started \<Rightarrow> t0 \<le> fl_due f
         | Grace \<Rightarrow> t0 + real_of_int delay \<le> fl_due f
         | CloseWait \<Rightarrow> t0 + real_of_int delay + real_of_int (pl_close_timeout_seconds p) \<le> fl_due f
         | TermScan \<Rightarrow> t0 + real_of_int delay + real_of_int (pl_close_timeout_seconds p) \<le> fl_due f
             \<and> pl_process_fallback p
         | TermWait \<Rightarrow> t0 + real_of_int delay + 2 * real_of_int (pl_close_timeout_seconds p) \<le> fl_due f
             \<and> pl_process_fallback p
         | KillScan \<Rightarrow> t0 + real_of_int delay + 2 * real_of_int (pl_close_timeout_seconds p) \<le> fl_due f
             \<and> pl_process_fallback p \<and> pl_allow_force_kill p))"

definition progresses :: "real \<Rightarrow> enforcement_plan \<Rightarrow> int \<Rightarrow> surroundings \<Rightarrow> flow \<Rightarrow> string list
    \<Rightarrow> flow option \<times> notice list \<Rightarrow> bool" where
  "progresses t0 p delay su f before out =
     (case out of (next, ns) \<Rightarrow>
        prefix (before @ kinds ns) (escalation p)
        \<and> (\<forall>n \<in> set ns. t0 + real_of_int delay + patience p (no_kind n) \<le> su_time su)
        \<and> (case next of None \<Rightarrow> True
           | Some f' \<Rightarrow> flow_ok t0 p delay f' \<and> fl_generation f' = fl_generation f
               \<and> stage_done (fl_stage f') = before @ kinds ns))"

lemma progresses_record:
  assumes "progresses t0 p delay su f (before @ [no_kind n]) out"
    and "t0 + real_of_int delay + patience p (no_kind n) \<le> su_time su"
  shows "progresses t0 p delay su f before (case out of (next, ns) \<Rightarrow> (next, n # ns))"
  using assms by (auto simp: progresses_def kinds_def split: prod.splits option.splits)

text \<open>The segments, from the last to the first.\<close>

lemma last_resort_progresses:
  assumes "flow_ok t0 p delay f"
    and "before = [''enforcement.close_requested'']
      @ (if pl_process_fallback p then [''enforcement.sigterm_attempted''] else [])"
    and "t0 + real_of_int delay + (if pl_process_fallback p then 2 else 1) * real_of_int (pl_close_timeout_seconds p)
      \<le> su_time su"
  shows "progresses t0 p delay su f before (last_resort su f)"
  using assms
  by (auto simp: last_resort_def progresses_def flow_ok_def kinds_def escalation_def patience_def sleep_until_def)

lemma after_term_progresses:
  assumes "flow_ok t0 p delay f" "pl_process_fallback p"
    and "t0 + real_of_int delay + real_of_int (pl_close_timeout_seconds p) \<le> su_time su"
  shows "progresses t0 p delay su f [''enforcement.close_requested''] (after_term su f)"
proof (cases "pl_close_timeout_seconds p = 0")
  case True
  have "progresses t0 p delay su f ([''enforcement.close_requested''] @ [''enforcement.sigterm_attempted'']) (last_resort su f)"
    using assms True by (intro last_resort_progresses) auto
  moreover have "fl_plan f = p" using assms(1) by (simp add: flow_ok_def)
  ultimately show ?thesis
    unfolding after_term_def using assms True
    by (simp only: simp_thms if_False) (rule progresses_record; simp add: patience_def term_notice_def)
next
  case False
  with assms show ?thesis
    by (auto simp: after_term_def term_notice_def progresses_def flow_ok_def kinds_def escalation_def patience_def
        sleep_until_def)
qed

lemma after_close_wait_progresses:
  assumes "flow_ok t0 p delay f"
    and "t0 + real_of_int delay + real_of_int (pl_close_timeout_seconds p) \<le> su_time su"
  shows "progresses t0 p delay su f [''enforcement.close_requested''] (after_close_wait su f)"
proof (cases "pl_process_fallback p")
  case True
  with assms show ?thesis
    by (auto simp: after_close_wait_def progresses_def flow_ok_def kinds_def escalation_def sleep_until_def)
next
  case False
  then have "progresses t0 p delay su f [''enforcement.close_requested''] (last_resort su f)"
    using assms by (intro last_resort_progresses) auto
  with assms False show ?thesis
    by (auto simp: after_close_wait_def progresses_def flow_ok_def kinds_def escalation_def)
qed

lemma after_grace_progresses:
  assumes "flow_ok t0 p delay f" and "t0 + real_of_int delay \<le> su_time su"
  shows "progresses t0 p delay su f [] (after_grace su f)"
proof (cases "pl_close_timeout_seconds p = 0")
  case True
  then have "progresses t0 p delay su f [''enforcement.close_requested''] (after_close_wait su f)"
    using assms by (intro after_close_wait_progresses) auto
  then have *: "progresses t0 p delay su f [] (case after_close_wait su f of (next, ns) \<Rightarrow> (next, close_notice f # ns))"
    using assms(2) by (intro progresses_record) (simp_all add: close_notice_def patience_def)
  show ?thesis
  proof (cases "still_applicable (su_manager su) (su_status su) f")
    case True': True
    have "pl_request_steam_close (fl_plan f)" "pl_close_timeout_seconds (fl_plan f) = 0"
      using assms(1) True by (auto simp: flow_ok_def plan_ok_def)
    with * True' show ?thesis by (simp add: after_grace_def)
  qed (simp add: after_grace_def progresses_def kinds_def)
next
  case False
  with assms show ?thesis
    by (auto simp: after_grace_def progresses_def flow_ok_def plan_ok_def kinds_def close_notice_def patience_def
        escalation_def sleep_until_def Let_def)
qed

lemma after_kill_progresses:
  assumes "flow_ok t0 p delay f" "pl_process_fallback p" "pl_allow_force_kill p"
    and "t0 + real_of_int delay + 2 * real_of_int (pl_close_timeout_seconds p) \<le> su_time su"
  shows "progresses t0 p delay su f [''enforcement.close_requested'', ''enforcement.sigterm_attempted''] (after_kill su f)"
  using assms by (auto simp: after_kill_def progresses_def kinds_def escalation_def patience_def)

lemma advance_progresses:
  assumes "flow_ok t0 p delay f" and "fl_due f \<le> su_time su"
  shows "progresses t0 p delay su f (stage_done (fl_stage f)) (advance su f)"
proof (cases "fl_stage f")
  case Started
  show ?thesis
  proof (cases "delay = 0")
    case True
    then have "progresses t0 p delay su f [] (after_grace su f)"
      using assms Started by (intro after_grace_progresses) (auto simp: flow_ok_def)
    with Started True assms show ?thesis by (simp add: advance_def flow_ok_def)
  next
    case False
    with Started assms show ?thesis
      by (auto simp: advance_def progresses_def flow_ok_def kinds_def sleep_until_def)
  qed
next
  case Grace
  then have "progresses t0 p delay su f [] (after_grace su f)"
    using assms by (intro after_grace_progresses) (auto simp: flow_ok_def)
  with Grace show ?thesis by (simp add: advance_def)
next
  case CloseWait
  then have "progresses t0 p delay su f [''enforcement.close_requested''] (after_close_wait su f)"
    using assms by (intro after_close_wait_progresses) (auto simp: flow_ok_def)
  with CloseWait show ?thesis by (simp add: advance_def)
next
  case TermScan
  then have "progresses t0 p delay su f [''enforcement.close_requested''] (after_term su f)"
    using assms by (intro after_term_progresses) (auto simp: flow_ok_def)
  with TermScan show ?thesis by (simp add: advance_def)
next
  case TermWait
  then have "progresses t0 p delay su f [''enforcement.close_requested'', ''enforcement.sigterm_attempted''] (last_resort su f)"
    using assms by (intro last_resort_progresses) (auto simp: flow_ok_def)
  with TermWait show ?thesis by (simp add: advance_def)
next
  case KillScan
  then have "progresses t0 p delay su f [''enforcement.close_requested'', ''enforcement.sigterm_attempted''] (after_kill su f)"
    using assms by (intro after_kill_progresses) (auto simp: flow_ok_def)
  with KillScan show ?thesis by (simp add: advance_def)
qed

section \<open>The invariant of the world\<close>

definition entries_of :: "int \<Rightarrow> log_entry list \<Rightarrow> log_entry list" where
  "entries_of g es = filter (\<lambda>e. lg_generation e = g) es"

definition logged_kinds :: "int \<Rightarrow> log_entry list \<Rightarrow> string list" where
  "logged_kinds g es = map (\<lambda>e. no_kind (lg_notice e)) (entries_of g es)"

definition entry_ok :: "(int \<Rightarrow> (real \<times> enforcement_plan \<times> int) option) \<Rightarrow> log_entry \<Rightarrow> bool" where
  "entry_ok armed e =
     (\<exists>t0 p delay. armed (lg_generation e) = Some (t0, p, delay)
        \<and> t0 + real_of_int delay + patience p (no_kind (lg_notice e)) \<le> lg_time e)"

definition armed_ok :: "(int \<Rightarrow> (real \<times> enforcement_plan \<times> int) option) \<Rightarrow> log_entry list \<Rightarrow> bool" where
  "armed_ok armed es = (\<forall>g t0 p delay. armed g = Some (t0, p, delay)
     \<longrightarrow> plan_ok p \<and> prefix (logged_kinds g es) (escalation p))"

definition world_inv :: "world \<Rightarrow> bool" where
  "world_inv w =
     ((\<forall>g. w_armed w g \<noteq> None \<longrightarrow> g \<le> generation (w_manager w))
      \<and> (\<forall>e \<in> set (w_log w). entry_ok (w_armed w) e)
      \<and> sorted (map lg_generation (w_log w))
      \<and> armed_ok (w_armed w) (w_log w)
      \<and> (\<forall>f. task (w_manager w) = Some f \<longrightarrow> fl_generation f = generation (w_manager w)
           \<and> (\<exists>t0 p delay. w_armed w (fl_generation f) = Some (t0, p, delay) \<and> flow_ok t0 p delay f
                \<and> logged_kinds (fl_generation f) (w_log w) = stage_done (fl_stage f))))"

lemma log_below: "world_inv w \<Longrightarrow> e \<in> set (w_log w) \<Longrightarrow> lg_generation e \<le> generation (w_manager w)"
  by (force simp: world_inv_def entry_ok_def)

lemma no_entries: "(\<forall>e \<in> set es. lg_generation e < g) \<Longrightarrow> logged_kinds g es = []"
  by (auto simp: logged_kinds_def entries_of_def filter_empty_conv)

lemma cancel_inv:
  assumes "world_inv w"
  shows "world_inv (w\<lparr>w_manager := cancel (w_manager w)\<rparr>)"
proof -
  have "g \<le> generation (w_manager w) + 1" if "w_armed w g \<noteq> None" for g
    using assms that unfolding world_inv_def by (meson le_add_same_cancel1 order_trans zero_le_one)
  then show ?thesis using assms by (simp add: world_inv_def cancel_def)
qed

lemma arm_inv:
  assumes inv: "world_inv w" and "0 \<le> c_grace_seconds c" "0 \<le> c_launch_grace_seconds c" "0 \<le> c_close_timeout_seconds c"
  shows "world_inv (arm_world game c level reason launch_block w)"
proof (cases "level < 2")
  case True
  then have "arm_world game c level reason launch_block w = w\<lparr>w_manager := cancel (w_manager w)\<rparr>"
    by (simp add: arm_world_def arm_def Let_def cancel_def)
  then show ?thesis using cancel_inv [OF inv] by simp
next
  case False
  define g where "g = generation (w_manager w) + 1 + 1"
  define p where "p = build_plan c level"
  define delay where "delay = (if launch_block then c_launch_grace_seconds c else c_grace_seconds c)"
  define f where "f = \<lparr>fl_generation = g, fl_game = game, fl_plan = p, fl_reason = reason, fl_delay = delay,
    fl_stage = Started, fl_due = w_time w\<rparr>"
  let ?w = "w\<lparr>w_manager := (w_manager w)\<lparr>generation := g, task := Some f\<rparr>, w_armed := (w_armed w)(g := Some (w_time w, p, delay))\<rparr>"
  have w': "arm_world game c level reason launch_block w = ?w"
    using False by (simp add: arm_world_def arm_def Let_def cancel_def f_def g_def p_def delay_def build_plan_def)
  have low: "lg_generation e < g" if "e \<in> set (w_log w)" for e
    using log_below [OF inv that] by (simp add: g_def)
  then have none: "logged_kinds g (w_log w) = []" by (simp add: no_entries)
  have plan: "plan_ok p" using False assms(4) by (simp add: p_def plan_ok_def build_plan_def)
  have flow: "flow_ok (w_time w) p delay f"
    using plan assms(2,3) by (simp add: flow_ok_def f_def delay_def)
  have entries: "entry_ok ((w_armed w)(g := x)) e" if "e \<in> set (w_log w)" for e x
    using inv low [OF that] that by (simp add: world_inv_def entry_ok_def)
  have armed: "armed_ok ((w_armed w)(g := Some (w_time w, p, delay))) (w_log w)"
    using inv plan none by (simp add: world_inv_def armed_ok_def)
  have bound: "h \<le> g" if "((w_armed w)(g := Some (w_time w, p, delay))) h \<noteq> None" for h
  proof (cases "h = g")
    case False
    then have "h \<le> generation (w_manager w)" using that inv by (auto simp: world_inv_def)
    then show ?thesis by (simp add: g_def)
  qed simp
  have "fl_generation f = g" "fl_stage f = Started" by (simp_all add: f_def)
  then show ?thesis
    unfolding w' using inv entries armed flow none bound by (simp add: world_inv_def)
qed

lemma logged_append:
  "logged_kinds g (es @ map (\<lambda>n. \<lparr>lg_time = t, lg_generation = h, lg_notice = n\<rparr>) ns)
     = logged_kinds g es @ (if h = g then kinds ns else [])"
  by (auto simp: logged_kinds_def entries_of_def kinds_def filter_map o_def)

lemma sorted_const: "sorted (map (\<lambda>_. c) xs)"
  by (induction xs) auto

lemma run_inv:
  assumes inv: "world_inv w" and f: "task (w_manager w) = Some f" and due: "fl_due f \<le> w_time w"
  shows "world_inv (run_world recent term f w)"
proof -
  define su where "su = \<lparr>su_manager = w_manager w, su_status = w_status w, su_time = w_time w,
    su_plugin_recent = recent, su_terminate = term\<rparr>"
  let ?g = "generation (w_manager w)"
  from inv f obtain t0 p delay where gen: "fl_generation f = ?g"
    and armed: "w_armed w ?g = Some (t0, p, delay)" and flow: "flow_ok t0 p delay f"
    and done_: "logged_kinds ?g (w_log w) = stage_done (fl_stage f)"
    by (auto simp: world_inv_def)
  obtain nxt ns where out: "advance su f = (nxt, ns)" by (cases "advance su f")
  have "progresses t0 p delay su f (stage_done (fl_stage f)) (nxt, ns)"
    using advance_progresses [OF flow, of su] due out by (simp add: su_def)
  then have pre: "prefix (stage_done (fl_stage f) @ kinds ns) (escalation p)"
    and times: "\<forall>n \<in> set ns. t0 + real_of_int delay + patience p (no_kind n) \<le> w_time w"
    and nxt: "\<And>f'. nxt = Some f' \<Longrightarrow> flow_ok t0 p delay f' \<and> fl_generation f' = ?g
        \<and> stage_done (fl_stage f') = stage_done (fl_stage f) @ kinds ns"
    using gen by (auto simp: progresses_def su_def)
  define log' where "log' = w_log w @ map (\<lambda>n. \<lparr>lg_time = w_time w, lg_generation = ?g, lg_notice = n\<rparr>) ns"
  have w': "run_world recent term f w = w\<lparr>w_manager := (w_manager w)\<lparr>task := nxt\<rparr>, w_log := log'\<rparr>"
    using out gen by (cases nxt) (simp_all add: run_world_def run_task_def su_def [symmetric] log'_def, simp_all add: su_def)
  have kinds': "logged_kinds h log' = logged_kinds h (w_log w) @ (if h = ?g then kinds ns else [])" for h
    unfolding log'_def logged_append by simp
  have "\<forall>e \<in> set log'. entry_ok (w_armed w) e"
    using inv times armed by (auto simp: log'_def world_inv_def entry_ok_def)
  moreover have "sorted (map lg_generation log')"
    using inv log_below [OF inv] by (auto simp: log'_def world_inv_def sorted_append o_def sorted_const)
  moreover have "armed_ok (w_armed w) log'"
    using inv pre done_ armed by (simp add: world_inv_def armed_ok_def kinds')
  moreover have "logged_kinds (fl_generation f') log' = stage_done (fl_stage f')" if "nxt = Some f'" for f'
    using nxt [OF that] done_ by (simp add: kinds')
  ultimately show ?thesis
    using inv armed nxt unfolding w' by (simp add: world_inv_def)
qed

lemma world_step_inv:
  assumes "world_step w w'" and "world_inv w"
  shows "world_inv w'"
  using assms
proof cases
  case arming
  then show ?thesis using arm_inv assms(2) by blast
next
  case cancelling
  then show ?thesis using cancel_inv assms(2) by blast
next
  case running
  then show ?thesis using run_inv assms(2) by blast
qed (use assms(2) in \<open>simp_all add: world_inv_def\<close>)

lemma enforcing_inv: "enforcing w \<Longrightarrow> world_inv w"
proof (induction rule: enforcing.induct)
  case (begins w)
  then show ?case by (simp add: world_inv_def new_manager_def armed_ok_def)
qed (rule world_step_inv)

section \<open>A flow that is left alone\<close>

text \<open>Each await ends as soon as its sleep is over, nobody cancels or arms, and the status stays.\<close>

fun left_alone :: "nat \<Rightarrow> surroundings \<Rightarrow> flow \<Rightarrow> flow option \<times> notice list" where
  "left_alone 0 su f = (Some f, [])"
| "left_alone (Suc n) su f =
     (let su' = su\<lparr>su_time := max (su_time su) (fl_due f)\<rparr>
      in case advance su' f of
           (None, ns) \<Rightarrow> (None, ns)
         | (Some f', ns) \<Rightarrow> (case left_alone n su' f' of (r, ms) \<Rightarrow> (r, ns @ ms)))"

lemma applicable_sleep [simp]: "still_applicable m st (sleep_until su f stg k) = still_applicable m st f"
  by (simp add: still_applicable_def sleep_until_def split: option.splits)

lemma sleep_fields [simp]:
  "fl_plan (sleep_until su f stg k) = fl_plan f" "fl_game (sleep_until su f stg k) = fl_game f"
  "fl_stage (sleep_until su f stg k) = stg" "fl_generation (sleep_until su f stg k) = fl_generation f"
  "fl_delay (sleep_until su f stg k) = fl_delay f"
  by (simp_all add: sleep_until_def)

lemma left_alone_kill:
  "fl_stage f = KillScan \<Longrightarrow> 1 \<le> n \<Longrightarrow>
     fst (left_alone n su f) = None \<and> kinds (snd (left_alone n su f)) = [''enforcement.sigkill_attempted'']"
  by (cases n) (simp_all add: advance_def after_kill_def kinds_def Let_def)

definition last_kinds :: "enforcement_plan \<Rightarrow> string list" where
  "last_kinds p = [if pl_allow_force_kill p \<and> pl_process_fallback p then ''enforcement.sigkill_attempted''
     else ''enforcement.game_still_running'']"

text \<open>Running one segment and then the rest alone.\<close>

definition then_alone :: "nat \<Rightarrow> surroundings \<Rightarrow> flow option \<times> notice list \<Rightarrow> flow option \<times> notice list" where
  "then_alone n su out =
     (case out of (None, ns) \<Rightarrow> (None, ns)
      | (Some f', ns) \<Rightarrow> (case left_alone n su f' of (r, ms) \<Rightarrow> (r, ns @ ms)))"

lemma left_alone_Suc:
  "left_alone (Suc n) su f
     = then_alone n (su\<lparr>su_time := max (su_time su) (fl_due f)\<rparr>) (advance (su\<lparr>su_time := max (su_time su) (fl_due f)\<rparr>) f)"
  by (simp add: then_alone_def Let_def split: prod.splits option.splits)

definition completes :: "flow option \<times> notice list \<Rightarrow> string list \<Rightarrow> bool" where
  "completes out ks = (fst out = None \<and> kinds (snd out) = ks)"

lemma completes_record:
  "completes (then_alone n su out) ks
     \<Longrightarrow> completes (then_alone n su (case out of (next, ns) \<Rightarrow> (next, x # ns))) (no_kind x # ks)"
  by (auto simp: completes_def then_alone_def kinds_def split: prod.splits option.splits)

lemma last_resort_completes:
  assumes "still_applicable (su_manager su) (su_status su) f" and "1 \<le> n"
  shows "completes (then_alone n su (last_resort su f)) (last_kinds (fl_plan f))"
  using assms left_alone_kill [of "sleep_until su f KillScan 0" n su]
  by (auto simp: completes_def then_alone_def last_resort_def last_kinds_def kinds_def split: prod.splits)

lemma after_term_completes:
  assumes "still_applicable (su_manager su) (su_status su) f" and "2 \<le> n"
  shows "completes (then_alone n su (after_term su f)) (''enforcement.sigterm_attempted'' # last_kinds (fl_plan f))"
proof (cases "pl_close_timeout_seconds (fl_plan f) = 0")
  case True
  have "completes (then_alone n su (last_resort su f)) (last_kinds (fl_plan f))"
    using assms by (intro last_resort_completes) auto
  from completes_record [OF this, of "term_notice su f"] show ?thesis
    using True by (simp add: after_term_def term_notice_def)
next
  case False
  obtain k where n: "n = Suc k" "1 \<le> k" using assms(2) by (cases n) auto
  let ?f = "sleep_until su f TermWait (pl_close_timeout_seconds (fl_plan f))"
  have "completes (left_alone n su ?f) (last_kinds (fl_plan f))"
    unfolding n(1) left_alone_Suc using last_resort_completes [of _ ?f k] assms(1) n(2)
    by (simp add: advance_def)
  then show ?thesis
    using False
    by (auto simp: after_term_def term_notice_def completes_def then_alone_def kinds_def split: prod.splits)
qed

lemma after_close_wait_completes:
  assumes "still_applicable (su_manager su) (su_status su) f" and "3 \<le> n"
  shows "completes (then_alone n su (after_close_wait su f)) (tl (escalation (fl_plan f)))"
proof (cases "pl_process_fallback (fl_plan f)")
  case True
  obtain k where n: "n = Suc k" "2 \<le> k" using assms(2) by (cases n) auto
  let ?f = "sleep_until su f TermScan 0"
  have "completes (left_alone n su ?f) (''enforcement.sigterm_attempted'' # last_kinds (fl_plan f))"
    unfolding n(1) left_alone_Suc using after_term_completes [of _ ?f k] assms(1) n(2)
    by (simp add: advance_def)
  then show ?thesis
    using True assms(1)
    by (auto simp: after_close_wait_def completes_def then_alone_def kinds_def escalation_def last_kinds_def split: prod.splits)
next
  case False
  have "completes (then_alone n su (last_resort su f)) (last_kinds (fl_plan f))"
    using assms by (intro last_resort_completes) auto
  with False assms(1) show ?thesis
    by (simp add: after_close_wait_def escalation_def last_kinds_def)
qed

lemma after_grace_completes:
  assumes "still_applicable (su_manager su) (su_status su) f" and "4 \<le> n" and "pl_request_steam_close (fl_plan f)"
  shows "completes (then_alone n su (after_grace su f)) (escalation (fl_plan f))"
proof -
  have esc: "escalation (fl_plan f) = no_kind (close_notice f) # tl (escalation (fl_plan f))"
    by (simp add: escalation_def close_notice_def)
  show ?thesis
  proof (cases "pl_close_timeout_seconds (fl_plan f) = 0")
    case True
    have "completes (then_alone n su (after_close_wait su f)) (tl (escalation (fl_plan f)))"
      using assms by (intro after_close_wait_completes) auto
    from completes_record [OF this, of "close_notice f"] show ?thesis
      using True assms by (simp add: after_grace_def esc [symmetric] Let_def)
  next
    case False
    obtain k where n: "n = Suc k" "3 \<le> k" using assms(2) by (cases n) auto
    let ?f = "sleep_until su f CloseWait (pl_close_timeout_seconds (fl_plan f))"
    have "completes (left_alone n su ?f) (tl (escalation (fl_plan f)))"
      unfolding n(1) left_alone_Suc using after_close_wait_completes [of _ ?f k] assms(1) n(2)
      by (simp add: advance_def)
    then show ?thesis
      using False assms(1,3) esc
      by (auto simp: after_grace_def Let_def completes_def then_alone_def kinds_def split: prod.splits)
  qed
qed

lemma left_alone_completes:
  assumes "still_applicable (su_manager su) (su_status su) f" and "pl_request_steam_close (fl_plan f)"
    and "fl_stage f = Started" and "6 \<le> n"
  shows "completes (left_alone n su f) (escalation (fl_plan f))"
proof -
  obtain k j where n: "n = Suc k" "k = Suc j" "4 \<le> j" using assms(4) by (cases n; cases "n - 1") auto
  show ?thesis
  proof (cases "fl_delay f = 0")
    case True
    then show ?thesis
      unfolding n(1) left_alone_Suc using after_grace_completes [of _ f k] assms n by (simp add: advance_def)
  next
    case False
    let ?su = "su\<lparr>su_time := max (su_time su) (fl_due f)\<rparr>"
    let ?f = "sleep_until ?su f Grace (fl_delay f)"
    have "completes (left_alone k ?su ?f) (escalation (fl_plan f))"
      unfolding n(2) left_alone_Suc using after_grace_completes [of _ ?f j] assms n by (simp add: advance_def)
    then show ?thesis
      unfolding n(1) left_alone_Suc using False assms(3)
      by (auto simp: advance_def then_alone_def completes_def kinds_def split: prod.splits)
  qed
qed

end
