(* ===== verification/Restraint.thy ===== *)
theory Restraint
  imports Enforcement Demo
begin

text \<open>
  The properties of the enforcement flow and of the processes it may signal.
\<close>

definition demo_world :: world where
  "demo_world = arm_world demo_game demo_config 2 ''daily_limit'' False
     \<lparr>w_manager = new_manager, w_status = status demo_playing, w_time = 100, w_armed = (\<lambda>_. None), w_log = []\<rparr>"

lemma demo_world_enforcing: "enforcing demo_world"
  unfolding demo_world_def
  by (rule steps [OF begins arming]) (simp_all add: demo_config_def)

lemma demo_world_armed: "w_armed demo_world 2 = Some (100, build_plan demo_config 2, 60)"
  by (simp add: demo_world_def arm_world_def arm_def Let_def cancel_def new_manager_def demo_config_def build_plan_def)

section \<open>The flow\<close>

text \<open>C12: Whatever the service does, the records of one armed flow are a prefix of its escalation:
  the close request, then SIGTERM only with the process fallback, then SIGKILL only if it is
  allowed too, each at most once; and none comes before the grace delay and the waits before it
  have passed. Every record in the log belongs to a flow that was armed at level 2 or above.\<close>

theorem escalation_in_order:
  assumes "enforcing w" and "w_armed w g = Some (t0, p, delay)"
  shows "prefix (logged_kinds g (w_log w)) (escalation p)
    \<and> (\<forall>e \<in> set (entries_of g (w_log w)).
         t0 + real_of_int delay + patience p (no_kind (lg_notice e)) \<le> lg_time e)
    \<and> (\<forall>e \<in> set (w_log w). \<exists>t p' d. w_armed w (lg_generation e) = Some (t, p', d) \<and> 2 \<le> pl_level p')"
proof -
  have inv: "world_inv w" using assms(1) by (rule enforcing_inv)
  then have armed: "armed_ok (w_armed w) (w_log w)" and entries: "\<forall>e \<in> set (w_log w). entry_ok (w_armed w) e"
    by (simp_all add: world_inv_def)
  have "\<exists>t p' d. w_armed w (lg_generation e) = Some (t, p', d) \<and> 2 \<le> pl_level p'" if "e \<in> set (w_log w)" for e
    using entries armed that unfolding entry_ok_def armed_ok_def plan_ok_def by blast
  then show ?thesis
    using assms(2) armed entries by (auto simp: armed_ok_def entries_of_def entry_ok_def)
qed

theorem escalation_in_order_demo:
  "prefix (logged_kinds 2 (w_log demo_world)) (escalation (build_plan demo_config 2))"
  using escalation_in_order [OF demo_world_enforcing demo_world_armed] by blast

text \<open>A cancelled flow is silent for ever: after a cancellation no step adds a record of any
  flow armed before it.\<close>

theorem cancelled_flow_is_silent:
  assumes "enforcing w" and "world_step\<^sup>*\<^sup>* (w\<lparr>w_manager := cancel (w_manager w)\<rparr>) w'"
    and "g \<le> generation (w_manager w)"
  shows "entries_of g (w_log w') = entries_of g (w_log w)"
proof -
  from assms(2) have "entries_of g (w_log w') = entries_of g (w_log w) \<and> g < generation (w_manager w') \<and> enforcing w'"
  proof (induction rule: rtranclp_induct)
    case base
    then show ?case
      using assms(1,3) enforcing.steps [OF assms(1) cancelling] by (simp add: cancel_def)
  next
    case (step y z)
    have inv: "world_inv y" using step.IH by (simp add: enforcing_inv)
    have "enforcing z" using step.IH step.hyps(2) enforcing.steps by blast
    moreover from step.hyps(2) have "entries_of g (w_log z) = entries_of g (w_log y) \<and> g < generation (w_manager z)"
    proof cases
      case (running f recent kills)
      have "fl_generation f = generation (w_manager y)" using inv running(2) by (simp add: world_inv_def)
      with running(1) step.IH show ?thesis
        by (auto simp: run_world_def run_task_def entries_of_def filter_empty_conv split: prod.splits option.splits if_splits)
    qed (use step.IH in \<open>auto simp: arm_world_def arm_def cancel_def Let_def entries_of_def\<close>)
    ultimately show ?case using step.IH by simp
  qed
  then show ?thesis by simp
qed

theorem cancelled_flow_is_silent_demo:
  "entries_of 2 (w_log (demo_world\<lparr>w_manager := cancel (w_manager demo_world)\<rparr>)) = entries_of 2 (w_log demo_world)"
proof -
  have "(2::int) \<le> generation (w_manager demo_world)"
    by (simp add: demo_world_def arm_world_def arm_def Let_def cancel_def new_manager_def)
  from cancelled_flow_is_silent [OF demo_world_enforcing rtranclp.rtrancl_refl this] show ?thesis .
qed

text \<open>A flow that wakes from a sleep and finds the game gone, another game running or the level
  below its plan ends there and records nothing.\<close>

theorem stale_flow_stops:
  assumes "fl_stage f \<in> {Grace, CloseWait, TermWait}"
    and "case st_game (su_status su) of None \<Rightarrow> True
      | Some g \<Rightarrow> (truthy (g_app_id (fl_game f)) \<and> g_app_id g \<noteq> g_app_id (fl_game f))
          \<or> st_effective_level (su_status su) < pl_level (fl_plan f)"
  shows "advance su f = (None, [])"
proof -
  have "\<not> still_applicable (su_manager su) (su_status su) f"
    using assms(2) by (auto simp: still_applicable_def split: option.splits if_splits)
  then show ?thesis
    using assms(1) by (auto simp: advance_def after_grace_def after_close_wait_def last_resort_def)
qed

definition demo_flow :: "stage \<Rightarrow> flow" where
  "demo_flow s = \<lparr>fl_generation = 2, fl_game = demo_game, fl_plan = build_plan demo_config 2, fl_reason = ''daily_limit'',
     fl_delay = 60, fl_stage = s, fl_due = 160\<rparr>"

definition demo_surroundings :: "engine_status \<Rightarrow> surroundings" where
  "demo_surroundings st = \<lparr>su_manager = w_manager demo_world, su_status = st, su_time = 200, su_plugin_recent = False,
     su_terminate = (\<lambda>_ _. [])\<rparr>"

theorem stale_flow_stops_demo:
  "advance (demo_surroundings (status demo_engine)) (demo_flow Grace) = (None, [])"
  by (rule stale_flow_stops)
    (simp_all add: demo_flow_def demo_surroundings_def status_def demo_engine_fields Let_def)

text \<open>C13: A flow that is left alone while its game keeps running at its level finishes within six
  awaits, and records exactly its escalation.\<close>

theorem undisturbed_flow_completes:
  assumes "still_applicable (su_manager su) (su_status su) f" and "pl_request_steam_close (fl_plan f)"
    and "fl_stage f = Started"
  shows "fst (left_alone 6 su f) = None \<and> kinds (snd (left_alone 6 su f)) = escalation (fl_plan f)"
  using left_alone_completes [OF assms, of 6] by (simp add: completes_def)

theorem undisturbed_flow_completes_demo:
  "kinds (snd (left_alone 6 (demo_surroundings ((status demo_playing)\<lparr>st_effective_level := 2\<rparr>)) (demo_flow Started)))
    = [''enforcement.close_requested'', ''enforcement.sigterm_attempted'', ''enforcement.game_still_running'']"
proof -
  have "escalation (build_plan demo_config 2)
      = [''enforcement.close_requested'', ''enforcement.sigterm_attempted'', ''enforcement.game_still_running'']"
    by (simp add: escalation_def build_plan_def demo_config_def)
  moreover have "kinds (snd (left_alone 6 (demo_surroundings ((status demo_playing)\<lparr>st_effective_level := 2\<rparr>))
      (demo_flow Started))) = escalation (fl_plan (demo_flow Started))"
    by (rule conjunct2, rule undisturbed_flow_completes)
      (simp_all add: still_applicable_def demo_surroundings_def demo_flow_def status_def demo_playing_fields Let_def
        build_plan_def demo_world_def arm_world_def arm_def cancel_def new_manager_def)
  ultimately show ?thesis by (simp add: demo_flow_def)
qed

section \<open>The processes\<close>


text \<open>The daemon's ancestors are recognised: the ids collected are ancestors, and every
  ancestor within 64 generations whose chain the process table shows is collected, so none of
  them is ever signalled.\<close>

theorem ancestors_protected:
  assumes "chain fs (ct_pid ct) qs" and "length qs \<le> 64" and "distinct qs" and "q \<in> set qs"
  shows "q \<in> set (ancestor_pids fs (ct_pid ct)) \<and> q \<notin> set (verified_pids ct fs game)
    \<and> (\<forall>a \<in> set (ancestor_pids fs (ct_pid ct)). \<exists>as. chain fs (ct_pid ct) as \<and> a \<in> set as)"
proof -
  have "set qs \<subseteq> set (ancestor_pids fs (ct_pid ct))"
    unfolding ancestor_pids_def by (rule ancestors_chain) (use assms in auto)
  then have q: "q \<in> set (ancestor_pids fs (ct_pid ct))" using assms(4) by blast
  then have "q \<notin> set (verified_pids ct fs game)" by (simp add: verified_iff may_signal_iff)
  moreover have "\<exists>as. chain fs (ct_pid ct) as \<and> a \<in> set as" if "a \<in> set (ancestor_pids fs (ct_pid ct))" for a
    using ancestors_sound [of a 64 fs "ct_pid ct" "[]"] that by (simp add: ancestor_pids_def)
  ultimately show ?thesis using q by blast
qed

definition demo_fs :: proc_fs where
  "demo_fs = \<lparr>pf_listing = None, pf_entry = (\<lambda>name. \<lparr>pr_uid = Some 1000, pr_comm = None, pr_environ = None,
     pr_stat = Some ''900 (my shell) S 850 900 900''\<rparr>)\<rparr>"

theorem ancestors_protected_demo: "850 \<notin> set (verified_pids (default_controller 1000 900) demo_fs demo_game)"
proof -
  have "parent_of demo_fs 900 = Some 850"
    by (simp add: parent_of_def demo_fs_def after_last_paren_def str_strip_def ch_isspace_def py_int_def int_unsigned_def
        digits_val_def digit_val_def ch_isdecimal_def)
  then have "chain demo_fs (ct_pid (default_controller 1000 900)) [850]" by (simp add: default_controller_def)
  from ancestors_protected [OF this] show ?thesis by simp
qed

end
