(* ===== verification/Config.thy ===== *)
theory Config
  imports Schedule
begin

text \<open>
  \<open>config.py\<close>: the defaults, merging, unknown keys, migration and validation, over the
  JSON values the file and the patches hold. Validation collects its messages in order; what
  the code does not guard (a section that is no object, an unhashable value looked up in a
  set) raises, as in Python. \<open>typed_config\<close> reads the settings the engine uses. The zone
  database and the text of a float are parameters. The lemmas show that a validated value is
  a well-formed configuration.
\<close>

section \<open>Values\<close>

definition py_type :: "pyval \<Rightarrow> string" where
  "py_type v = (case v of PNone \<Rightarrow> ''NoneType'' | PBool _ \<Rightarrow> ''bool'' | PInt _ \<Rightarrow> ''int'' | PFloat _ \<Rightarrow> ''float''
     | PStr _ \<Rightarrow> ''str'' | PList _ \<Rightarrow> ''list'' | PDict _ \<Rightarrow> ''dict'')"

definition quoted :: "string \<Rightarrow> string" where
  "quoted s = [CHR 0x27] @ s @ [CHR 0x27]"

definition no_attribute :: "pyval \<Rightarrow> string \<Rightarrow> py_exc" where
  "no_attribute v name = AttributeError (quoted (py_type v) @ '' object has no attribute '' @ quoted name)"

fun join :: "string \<Rightarrow> string list \<Rightarrow> string" where
  "join sep [] = []"
| "join sep [x] = x"
| "join sep (x # y # xs) = x @ sep @ join sep (y # xs)"

fun py_repr :: "(real \<Rightarrow> string) \<Rightarrow> pyval \<Rightarrow> string" where
  "py_repr fr PNone = ''None''"
| "py_repr fr (PBool b) = (if b then ''True'' else ''False'')"
| "py_repr fr (PInt i) = int_str i"
| "py_repr fr (PFloat x) = fr x"
| "py_repr fr (PStr s) = str_repr s"
| "py_repr fr (PList vs) = ''['' @ join '', '' (map (py_repr fr) vs) @ '']''"
| "py_repr fr (PDict kvs) = ''{'' @ join '', '' (map (\<lambda>kv. str_repr (fst kv) @ '': '' @ py_repr fr (snd kv)) kvs) @ ''}''"

text \<open>\<open>d.get(key, default)\<close>, \<open>d[key]\<close> and \<open>d[key] = v\<close> of a value that should be a dict.\<close>

definition py_get :: "string \<Rightarrow> pyval \<Rightarrow> pyval \<Rightarrow> py_exc + pyval" where
  "py_get key fallback v =
     (case v of PDict kvs \<Rightarrow> Inr (case map_of kvs key of None \<Rightarrow> fallback | Some x \<Rightarrow> x)
      | _ \<Rightarrow> Inl (no_attribute v ''get''))"

definition entry :: "string \<Rightarrow> pyval \<Rightarrow> pyval" where
  "entry key v = (case dict_get key v of None \<Rightarrow> PNone | Some x \<Rightarrow> x)"

definition set_entry :: "string \<Rightarrow> pyval \<Rightarrow> pyval \<Rightarrow> pyval" where
  "set_entry key x v = (case v of PDict kvs \<Rightarrow> PDict (alist_set key x kvs) | _ \<Rightarrow> v)"

section \<open>Defaults\<close>

definition weekday_name :: "weekday \<Rightarrow> string" where
  "weekday_name d = (case d of Monday \<Rightarrow> ''monday'' | Tuesday \<Rightarrow> ''tuesday'' | Wednesday \<Rightarrow> ''wednesday''
     | Thursday \<Rightarrow> ''thursday'' | Friday \<Rightarrow> ''friday'' | Saturday \<Rightarrow> ''saturday'' | Sunday \<Rightarrow> ''sunday'')"

definition DEFAULT_CONFIG :: pyval where
  "DEFAULT_CONFIG = PDict
     [(''schema_version'', PInt 2), (''language'', PStr ''en''),
      (''daily_limits'', PDict [(''enabled'', PBool True), (''reset_at'', PStr ''00:00''), (''timezone'', PStr ''system''),
         (''weekly'', PDict (map (\<lambda>d. (weekday_name d, PDict [(''minutes'', PInt 120), (''unlimited'', PBool False)])) WEEKDAYS)),
         (''allowed_periods'', PList [])]),
      (''warnings'', PDict [(''threshold_minutes'', PList [PInt 30, PInt 15, PInt 5, PInt 1]),
         (''notify_at_exhaustion'', PBool True), (''native_desktop_notifications'', PBool True)]),
      (''timer'', PDict [(''count_only_while_playing'', PBool True), (''default_minutes'', PInt 30),
         (''default_action'', PStr ''inherit'')]),
      (''restriction'', PDict [(''level'', PInt 0), (''grace_seconds'', PInt 60), (''close_timeout_seconds'', PInt 20),
         (''force_kill_enabled'', PBool False), (''launch_grace_seconds'', PInt 5), (''safe_process_fallback'', PBool True)]),
      (''detector'', PDict [(''mode'', PStr ''auto''), (''steam_log_path'', PStr ''auto''),
         (''procfs_fallback_interval_seconds'', PInt 15), (''decky_signal_ttl_seconds'', PInt 20),
         (''ignored_app_ids'', PList [PStr ''769'']),
         (''ignored_names'', PList [PStr ''Steam'', PStr ''gamescope'', PStr ''steamwebhelper''])]),
      (''history'', PDict [(''retention_days'', PInt 90), (''checkpoint_seconds'', PInt 30), (''backup_count'', PInt 3)]),
      (''logging'', PDict [(''level'', PStr ''INFO''), (''max_bytes'', PInt 2000000), (''backup_count'', PInt 3)]),
      (''simulation'', PDict [(''enabled'', PBool False)])]"

section \<open>Merging and migration\<close>

fun merge :: "pyval \<Rightarrow> pyval \<Rightarrow> pyval"
  and merge_items :: "(string \<times> pyval) list \<Rightarrow> (string \<times> pyval) list \<Rightarrow> (string \<times> pyval) list \<Rightarrow> (string \<times> pyval) list" where
  "merge (PDict dk) (PDict sk) = PDict (merge_items dk dk sk)"
| "merge d s = s"
| "merge_items dk result [] = result"
| "merge_items dk result ((k, v) # rest) =
     merge_items dk (alist_set k (case map_of dk k of None \<Rightarrow> v | Some d \<Rightarrow> merge d v) result) rest"

fun reject_unknown_keys :: "string \<Rightarrow> pyval \<Rightarrow> pyval \<Rightarrow> py_exc + unit"
  and reject_items :: "string \<Rightarrow> (string \<times> pyval) list \<Rightarrow> (string \<times> pyval) list \<Rightarrow> py_exc + unit" where
  "reject_unknown_keys path (PDict sk) (PDict tk) = reject_items path sk tk"
| "reject_unknown_keys path s t = Inr ()"
| "reject_items path [] tk = Inr ()"
| "reject_items path ((key, value) # rest) tk =
     (let dotted = (if path = [] then key else path @ ''.'' @ key)
      in case map_of tk key of
           None \<Rightarrow> Inl (ConfigError (''unknown configuration key: '' @ dotted))
         | Some t \<Rightarrow>
             (case reject_unknown_keys dotted value t of
                Inl e \<Rightarrow> Inl e
              | Inr _ \<Rightarrow> reject_items path rest tk))"

text \<open>\<open>int(value)\<close>, for the values a JSON text can hold.\<close>

definition py_int_of :: "pyval \<Rightarrow> int option" where
  "py_int_of v =
     (case v of PInt i \<Rightarrow> Some i | PBool b \<Rightarrow> Some (if b then 1 else 0) | PFloat x \<Rightarrow> Some (py_trunc x)
      | PStr s \<Rightarrow> py_int s | _ \<Rightarrow> None)"

text \<open>\<open>data.setdefault(section, {}).setdefault(key, value)\<close>\<close>

definition set_default :: "string \<Rightarrow> string \<Rightarrow> pyval \<Rightarrow> (string \<times> pyval) list \<Rightarrow> py_exc + (string \<times> pyval) list" where
  "set_default section key value data =
     (case (case map_of data section of None \<Rightarrow> PDict [] | Some s \<Rightarrow> s) of
        PDict kvs \<Rightarrow> Inr (alist_set section (PDict (case map_of kvs key of None \<Rightarrow> alist_set key value kvs | Some _ \<Rightarrow> kvs)) data)
      | s \<Rightarrow> Inl (no_attribute s ''setdefault''))"

definition version_error :: py_exc where
  "version_error = ConfigError ''schema_version must be an integer''"

definition upgrade :: "int \<Rightarrow> (string \<times> pyval) list \<Rightarrow> py_exc + (string \<times> pyval) list" where
  "upgrade version data =
     (if version < 2
      then (case set_default ''restriction'' ''launch_grace_seconds'' (PInt 5) data of
              Inl e \<Rightarrow> Inl e
            | Inr data1 \<Rightarrow>
                (case set_default ''detector'' ''decky_signal_ttl_seconds'' (PInt 20) data1 of
                   Inl e \<Rightarrow> Inl e
                 | Inr data2 \<Rightarrow> Inr (alist_set ''schema_version'' (PInt 2) data2)))
      else Inr data)"

definition migrate_config :: "(string \<times> pyval) list \<Rightarrow> py_exc + pyval" where
  "migrate_config data =
     (let raw_version = (case map_of data ''schema_version'' of None \<Rightarrow> PInt 1 | Some v \<Rightarrow> v)
      in if py_type raw_version = ''bool'' then Inl version_error
         else (case py_int_of raw_version of
                 None \<Rightarrow> Inl version_error
               | Some version \<Rightarrow>
                   if version > 2
                   then Inl (ConfigError (''configuration schema '' @ int_str version @ '' is newer than supported 2''))
                   else (case reject_unknown_keys [] (PDict data) DEFAULT_CONFIG of
                           Inl e \<Rightarrow> Inl e
                         | Inr _ \<Rightarrow> (case upgrade version data of
                                       Inl e \<Rightarrow> Inl e
                                     | Inr data' \<Rightarrow> Inr (merge DEFAULT_CONFIG (PDict data'))))))"

section \<open>Validation\<close>

text \<open>A check yields its messages, or raises.\<close>

type_synonym check = "py_exc + string list"

definition expect :: "bool \<Rightarrow> string \<Rightarrow> check" where
  "expect ok message = Inr (if ok then [] else [message])"

definition try_get :: "string \<Rightarrow> pyval \<Rightarrow> (pyval \<Rightarrow> check) \<Rightarrow> check" where
  "try_get key section f = (case py_get key PNone section of Inl e \<Rightarrow> Inl e | Inr v \<Rightarrow> f v)"

fun run_checks :: "check list \<Rightarrow> check" where
  "run_checks [] = Inr []"
| "run_checks (c # cs) =
     (case c of
        Inl e \<Rightarrow> Inl e
      | Inr ms \<Rightarrow> (case run_checks cs of Inl e \<Rightarrow> Inl e | Inr ns \<Rightarrow> Inr (ms @ ns)))"

definition is_bool :: "pyval \<Rightarrow> bool" where
  "is_bool v = (case v of PBool _ \<Rightarrow> True | _ \<Rightarrow> False)"

definition int_in :: "int \<Rightarrow> int \<Rightarrow> pyval \<Rightarrow> bool" where
  "int_in lo hi v = (case v of PInt i \<Rightarrow> lo \<le> i \<and> i \<le> hi | _ \<Rightarrow> False)"

text \<open>\<open>value in {...}\<close> hashes the value, which a list or a dict refuses.\<close>

definition in_set :: "string list \<Rightarrow> string \<Rightarrow> pyval \<Rightarrow> check" where
  "in_set members message v =
     (case v of
        PStr s \<Rightarrow> expect (s \<in> set members) message
      | PList _ \<Rightarrow> Inl (TypeError (''unhashable type: '' @ quoted (py_type v)))
      | PDict _ \<Rightarrow> Inl (TypeError (''unhashable type: '' @ quoted (py_type v)))
      | _ \<Rightarrow> Inr [message])"

definition check_version :: "pyval \<Rightarrow> check" where
  "check_version v =
     expect (case v of PInt i \<Rightarrow> i = 2 | PFloat x \<Rightarrow> x = 2 | _ \<Rightarrow> False) ''schema_version must be 2''"

definition hhmm_value :: "(real \<Rightarrow> string) \<Rightarrow> pyval \<Rightarrow> py_exc + int" where
  "hhmm_value fr v =
     (case v of PStr s \<Rightarrow> parse_hhmm s
      | _ \<Rightarrow> Inl (ValueError (''invalid HH:MM value: '' @ py_repr fr v)))"

text \<open>The zone database: a zone, an unknown name, or an exception for a value that is no name.\<close>

datatype zone_answer = ZoneFound zone | ZoneNotFound | ZoneFails py_exc

definition resolve_timezone :: "(pyval \<Rightarrow> zone_answer) \<Rightarrow> zone \<Rightarrow> (real \<Rightarrow> string) \<Rightarrow> pyval \<Rightarrow> py_exc + zone" where
  "resolve_timezone zoneinfo system fr name =
     (if name = PStr ''system'' then Inr system
      else (case zoneinfo name of
              ZoneFound z \<Rightarrow> Inr z
            | ZoneNotFound \<Rightarrow> Inl (ValueError (''unknown timezone: '' @ (case name of PStr s \<Rightarrow> s | v \<Rightarrow> py_repr fr v)))
            | ZoneFails e \<Rightarrow> Inl e))"

text \<open>\<open>except (KeyError, ValueError) as exc: errors.append(str(exc))\<close>\<close>

definition caught :: "py_exc + 'a \<Rightarrow> check" where
  "caught r =
     (case r of Inr _ \<Rightarrow> Inr []
      | Inl (ValueError m) \<Rightarrow> Inr [m]
      | Inl (ConfigError m) \<Rightarrow> Inr [m]
      | Inl (KeyError k) \<Rightarrow> Inr [quoted k]
      | Inl e \<Rightarrow> Inl e)"

definition check_weekday :: "pyval \<Rightarrow> weekday \<Rightarrow> check" where
  "check_weekday weekly d =
     (case py_get (weekday_name d) PNone weekly of
        Inl e \<Rightarrow> Inl e
      | Inr (PDict kvs) \<Rightarrow>
          Inr ((if int_in 0 1440 (entry ''minutes'' (PDict kvs)) then []
                else [weekday_name d @ ''.minutes must be an integer from 0 to 1440''])
             @ (if is_bool (entry ''unlimited'' (PDict kvs)) then [] else [weekday_name d @ ''.unlimited must be boolean'']))
      | Inr _ \<Rightarrow> Inr [''missing weekly limit for '' @ weekday_name d])"

definition list_of :: "(pyval \<Rightarrow> bool) \<Rightarrow> pyval \<Rightarrow> bool" where
  "list_of p v = (case v of PList vs \<Rightarrow> list_all p vs | _ \<Rightarrow> False)"

definition text_ok :: "(string \<Rightarrow> bool) \<Rightarrow> pyval \<Rightarrow> bool" where
  "text_ok p v = (case v of PStr s \<Rightarrow> p s | _ \<Rightarrow> False)"

definition int_check :: "string \<Rightarrow> string \<Rightarrow> int \<Rightarrow> int \<Rightarrow> pyval \<Rightarrow> string \<Rightarrow> check" where
  "int_check section key lo hi cfg message = try_get key (entry section cfg) (\<lambda>v. expect (int_in lo hi v) message)"

definition bool_check :: "string \<Rightarrow> string \<Rightarrow> pyval \<Rightarrow> check" where
  "bool_check section key cfg =
     try_get key (entry section cfg) (\<lambda>v. expect (is_bool v) (section @ ''.'' @ key @ '' must be boolean''))"

definition daily_checks :: "(pyval \<Rightarrow> zone_answer) \<Rightarrow> zone \<Rightarrow> (real \<Rightarrow> string) \<Rightarrow> pyval \<Rightarrow> check list" where
  "daily_checks zoneinfo system fr cfg =
     (let daily = entry ''daily_limits'' cfg
      in [bool_check ''daily_limits'' ''enabled'' cfg,
          caught (hhmm_value fr (entry ''reset_at'' daily)),
          caught (resolve_timezone zoneinfo system fr (entry ''timezone'' daily))]
         @ map (\<lambda>d. try_get ''weekly'' daily (\<lambda>weekly. check_weekday weekly d)) WEEKDAYS)"

definition warning_checks :: "pyval \<Rightarrow> check list" where
  "warning_checks cfg =
     [try_get ''threshold_minutes'' (entry ''warnings'' cfg) (\<lambda>v. expect (list_of (int_in 1 1440) v)
        ''warnings.threshold_minutes must contain positive integer minutes''),
      bool_check ''warnings'' ''notify_at_exhaustion'' cfg,
      bool_check ''warnings'' ''native_desktop_notifications'' cfg]"

definition timer_checks :: "pyval \<Rightarrow> check list" where
  "timer_checks cfg =
     [bool_check ''timer'' ''count_only_while_playing'' cfg,
      int_check ''timer'' ''default_minutes'' 1 1440 cfg ''timer.default_minutes must be an integer from 1 to 1440'',
      try_get ''default_action'' (entry ''timer'' cfg) (in_set [''inherit'', ''notify_only'', ''soft'', ''close'', ''block'']
        ''timer.default_action is unsupported'')]"

definition restriction_checks :: "pyval \<Rightarrow> check list" where
  "restriction_checks cfg =
     [int_check ''restriction'' ''level'' 0 3 cfg ''restriction.level must be 0, 1, 2, or 3'']
     @ map (\<lambda>key. int_check ''restriction'' key 0 3600 cfg
         (''restriction.'' @ key @ '' must be an integer from 0 to 3600''))
         [''grace_seconds'', ''close_timeout_seconds'', ''launch_grace_seconds'']
     @ [bool_check ''restriction'' ''force_kill_enabled'' cfg, bool_check ''restriction'' ''safe_process_fallback'' cfg]"

definition detector_checks :: "pyval \<Rightarrow> check list" where
  "detector_checks cfg =
     (let detector = entry ''detector'' cfg
      in [try_get ''mode'' detector (in_set [''auto'', ''steam_log'', ''procfs'', ''disabled'']
            ''detector.mode must be auto, steam_log, procfs, or disabled''),
          try_get ''steam_log_path'' detector (\<lambda>v. expect
            (text_ok (\<lambda>s. str_strip s \<noteq> [] \<and> char_of (0::nat) \<notin> set s) v)
            ''detector.steam_log_path must be a non-empty path or auto''),
          int_check ''detector'' ''procfs_fallback_interval_seconds'' 5 300 cfg
            ''detector.procfs_fallback_interval_seconds must be 5..300'',
          int_check ''detector'' ''decky_signal_ttl_seconds'' 5 300 cfg ''detector.decky_signal_ttl_seconds must be 5..300'',
          try_get ''ignored_app_ids'' detector (\<lambda>v. expect (list_of (text_ok str_isdigit) v)
            ''detector.ignored_app_ids must contain decimal strings''),
          try_get ''ignored_names'' detector (\<lambda>v. expect
            (list_of (text_ok (\<lambda>s. str_strip s \<noteq> [] \<and> length s \<le> 200)) v)
            ''detector.ignored_names must contain non-empty strings up to 200 characters'')])"

definition history_checks :: "pyval \<Rightarrow> check list" where
  "history_checks cfg =
     [int_check ''history'' ''retention_days'' 1 3650 cfg ''history.retention_days must be 1..3650'',
      int_check ''history'' ''checkpoint_seconds'' 5 600 cfg ''history.checkpoint_seconds must be 5..600'',
      int_check ''history'' ''backup_count'' 0 20 cfg ''history.backup_count must be an integer from 0 to 20'',
      try_get ''level'' (entry ''logging'' cfg) (in_set [''DEBUG'', ''INFO'', ''WARNING'', ''ERROR'']
        ''logging.level must be DEBUG, INFO, WARNING, or ERROR''),
      int_check ''logging'' ''max_bytes'' 100000 100000000 cfg ''logging.max_bytes must be an integer from 100000 to 100000000'',
      int_check ''logging'' ''backup_count'' 0 20 cfg ''logging.backup_count must be an integer from 0 to 20'',
      bool_check ''simulation'' ''enabled'' cfg]"

definition weekday_of_name :: "string \<Rightarrow> weekday option" where
  "weekday_of_name s = find (\<lambda>d. weekday_name d = s) WEEKDAYS"

definition day_names :: "pyval \<Rightarrow> py_exc + weekday list" where
  "day_names v =
     (case v of
        PList vs \<Rightarrow>
          if \<not> list_all (text_ok (\<lambda>_. True)) vs then Inl (TypeError ''days must be a list of weekday names'')
          else if \<not> list_all (text_ok (\<lambda>s. weekday_of_name s \<noteq> None)) vs then Inl (ValueError ''unknown weekday'')
          else if \<not> distinct vs then Inl (ValueError ''duplicate weekday'')
          else Inr (map (\<lambda>v. case v of PStr s \<Rightarrow> the (weekday_of_name s) | _ \<Rightarrow> Monday) vs)
      | _ \<Rightarrow> Inl (TypeError ''days must be a list of weekday names''))"

definition item_of :: "string \<Rightarrow> (string \<times> pyval) list \<Rightarrow> py_exc + pyval" where
  "item_of key kvs = (case map_of kvs key of None \<Rightarrow> Inl (KeyError key) | Some v \<Rightarrow> Inr v)"

definition period_days :: "(string \<times> pyval) list \<Rightarrow> py_exc + weekday list" where
  "period_days kvs = (case map_of kvs ''days'' of None \<Rightarrow> Inr WEEKDAYS | Some v \<Rightarrow> day_names v)"

definition read_period :: "(real \<Rightarrow> string) \<Rightarrow> pyval \<Rightarrow> py_exc + allowed_period" where
  "read_period fr period =
     (case period of
        PDict kvs \<Rightarrow>
          let unknown = filter (\<lambda>k. k \<notin> {''start'', ''end'', ''days''}) (map fst kvs)
          in if unknown \<noteq> [] then Inl (ValueError (''unknown keys: '' @ join '', '' (sort unknown)))
             else (case item_of ''start'' kvs of Inl e \<Rightarrow> Inl e | Inr start_text \<Rightarrow>
                  (case hhmm_value fr start_text of Inl e \<Rightarrow> Inl e | Inr start \<Rightarrow>
                  (case item_of ''end'' kvs of Inl e \<Rightarrow> Inl e | Inr end_text \<Rightarrow>
                  (case hhmm_value fr end_text of Inl e \<Rightarrow> Inl e | Inr end_ \<Rightarrow>
                   if start = end_ then Inl (ValueError ''start and end must differ'')
                   else (case period_days kvs of Inl e \<Rightarrow> Inl e | Inr days \<Rightarrow>
                         Inr \<lparr>ap_days = days, ap_start = start, ap_end = end_\<rparr>)))))
      | _ \<Rightarrow> Inl (TypeError ''period must be an object''))"

definition check_period :: "(real \<Rightarrow> string) \<Rightarrow> nat \<times> pyval \<Rightarrow> check" where
  "check_period fr p =
     (case p of (index, period) \<Rightarrow>
        let message = (\<lambda>m. ''allowed_periods['' @ nat_str index @ '']: '' @ m)
        in (case read_period fr period of
              Inr _ \<Rightarrow> Inr []
            | Inl (ValueError m) \<Rightarrow> Inr [message m]
            | Inl (TypeError m) \<Rightarrow> Inr [message m]
            | Inl (KeyError k) \<Rightarrow> Inr [message (quoted k)]
            | Inl e \<Rightarrow> Inl e))"

definition period_checks :: "(real \<Rightarrow> string) \<Rightarrow> pyval \<Rightarrow> check list" where
  "period_checks fr cfg =
     [try_get ''allowed_periods'' (entry ''daily_limits'' cfg) (\<lambda>v.
        case v of
          PList periods \<Rightarrow> run_checks (map (check_period fr) (enumerate 0 periods))
        | _ \<Rightarrow> Inr [''daily_limits.allowed_periods must be a list''])]"

text \<open>The three lists that validation rewrites.\<close>

definition sorted_thresholds :: "pyval \<Rightarrow> pyval" where
  "sorted_thresholds v =
     (case v of PList vs \<Rightarrow> PList (map PInt (rev (sort (remdups (map (\<lambda>v. case v of PInt i \<Rightarrow> i | _ \<Rightarrow> 0) vs))))) | _ \<Rightarrow> v)"

definition first_seen :: "'a list \<Rightarrow> 'a list" where
  "first_seen xs = rev (remdups (rev xs))"

definition map_list :: "(pyval list \<Rightarrow> pyval list) \<Rightarrow> pyval \<Rightarrow> pyval" where
  "map_list f v = (case v of PList vs \<Rightarrow> PList (f vs) | _ \<Rightarrow> v)"

definition strip_text :: "pyval \<Rightarrow> pyval" where
  "strip_text v = (case v of PStr s \<Rightarrow> PStr (str_strip s) | _ \<Rightarrow> v)"

definition update_entry :: "string \<Rightarrow> string \<Rightarrow> (pyval \<Rightarrow> pyval) \<Rightarrow> pyval \<Rightarrow> pyval" where
  "update_entry section key f cfg =
     set_entry section (set_entry key (f (entry key (entry section cfg))) (entry section cfg)) cfg"

definition normalised :: "pyval \<Rightarrow> pyval" where
  "normalised cfg =
     update_entry ''detector'' ''ignored_names'' (map_list (\<lambda>vs. first_seen (map strip_text vs)))
       (update_entry ''detector'' ''ignored_app_ids'' (map_list first_seen)
         (update_entry ''warnings'' ''threshold_minutes'' sorted_thresholds cfg))"

definition all_checks :: "(pyval \<Rightarrow> zone_answer) \<Rightarrow> zone \<Rightarrow> (real \<Rightarrow> string) \<Rightarrow> pyval \<Rightarrow> check list" where
  "all_checks zoneinfo system fr cfg =
     [try_get ''schema_version'' cfg check_version,
      try_get ''language'' cfg (in_set [''en'', ''es''] ''language must be en or es'')]
     @ daily_checks zoneinfo system fr cfg @ warning_checks cfg @ timer_checks cfg @ restriction_checks cfg
     @ detector_checks cfg @ history_checks cfg @ period_checks fr cfg"

definition validate_config :: "(pyval \<Rightarrow> zone_answer) \<Rightarrow> zone \<Rightarrow> (real \<Rightarrow> string) \<Rightarrow> (string \<times> pyval) list \<Rightarrow> py_exc + pyval" where
  "validate_config zoneinfo system fr config =
     (case migrate_config config of
        Inl e \<Rightarrow> Inl e
      | Inr cfg \<Rightarrow>
          (case run_checks (all_checks zoneinfo system fr cfg) of
             Inl e \<Rightarrow> Inl e
           | Inr errors \<Rightarrow> if errors \<noteq> [] then Inl (ConfigError (join ''; '' errors)) else Inr (normalised cfg)))"

definition config_update :: "(pyval \<Rightarrow> zone_answer) \<Rightarrow> zone \<Rightarrow> (real \<Rightarrow> string) \<Rightarrow> (string \<times> pyval) list
    \<Rightarrow> (string \<times> pyval) list \<Rightarrow> py_exc + pyval" where
  "config_update zoneinfo system fr patch current =
     (case merge (PDict current) (PDict patch) of
        PDict merged \<Rightarrow> validate_config zoneinfo system fr merged
      | _ \<Rightarrow> Inl version_error)"

section \<open>The settings the engine reads\<close>

definition int_at :: "string \<Rightarrow> string \<Rightarrow> pyval \<Rightarrow> int" where
  "int_at section key cfg = (case entry key (entry section cfg) of PInt i \<Rightarrow> i | _ \<Rightarrow> 0)"

definition bool_at :: "string \<Rightarrow> string \<Rightarrow> pyval \<Rightarrow> bool" where
  "bool_at section key cfg = (entry key (entry section cfg) = PBool True)"

definition text_of :: "pyval \<Rightarrow> string" where
  "text_of v = (case v of PStr s \<Rightarrow> s | _ \<Rightarrow> [])"

definition items_of :: "pyval \<Rightarrow> pyval list" where
  "items_of v = (case v of PList vs \<Rightarrow> vs | _ \<Rightarrow> [])"

definition day_limit_of :: "pyval \<Rightarrow> day_limit" where
  "day_limit_of v = \<lparr>dl_minutes = (case entry ''minutes'' v of PInt i \<Rightarrow> i | _ \<Rightarrow> 0),
     dl_unlimited = (entry ''unlimited'' v = PBool True)\<rparr>"

definition typed_config :: "(pyval \<Rightarrow> zone_answer) \<Rightarrow> zone \<Rightarrow> (real \<Rightarrow> string) \<Rightarrow> pyval \<Rightarrow> config" where
  "typed_config zoneinfo system fr cfg =
     (let daily = entry ''daily_limits'' cfg
      in \<lparr>c_schema_version = 2, c_language = text_of (entry ''language'' cfg),
          c_daily_enabled = bool_at ''daily_limits'' ''enabled'' cfg,
          c_reset_at = (case hhmm_value fr (entry ''reset_at'' daily) of Inr t \<Rightarrow> t | Inl _ \<Rightarrow> 0),
          c_timezone = (case resolve_timezone zoneinfo system fr (entry ''timezone'' daily) of Inr z \<Rightarrow> z | Inl _ \<Rightarrow> utc_zone),
          c_weekly = (\<lambda>d. day_limit_of (entry (weekday_name d) (entry ''weekly'' daily))),
          c_allowed_periods = List.map_filter (\<lambda>v. case read_period fr v of Inr p \<Rightarrow> Some p | Inl _ \<Rightarrow> None)
            (items_of (entry ''allowed_periods'' daily)),
          c_threshold_minutes = map (\<lambda>v. case v of PInt i \<Rightarrow> i | _ \<Rightarrow> 0)
            (items_of (entry ''threshold_minutes'' (entry ''warnings'' cfg))),
          c_notify_at_exhaustion = bool_at ''warnings'' ''notify_at_exhaustion'' cfg,
          c_native_notifications = bool_at ''warnings'' ''native_desktop_notifications'' cfg,
          c_count_only_while_playing = bool_at ''timer'' ''count_only_while_playing'' cfg,
          c_default_action = text_of (entry ''default_action'' (entry ''timer'' cfg)),
          c_level = int_at ''restriction'' ''level'' cfg,
          c_grace_seconds = int_at ''restriction'' ''grace_seconds'' cfg,
          c_close_timeout_seconds = int_at ''restriction'' ''close_timeout_seconds'' cfg,
          c_force_kill_enabled = bool_at ''restriction'' ''force_kill_enabled'' cfg,
          c_launch_grace_seconds = int_at ''restriction'' ''launch_grace_seconds'' cfg,
          c_safe_process_fallback = bool_at ''restriction'' ''safe_process_fallback'' cfg,
          c_decky_signal_ttl_seconds = int_at ''detector'' ''decky_signal_ttl_seconds'' cfg,
          c_retention_days = int_at ''history'' ''retention_days'' cfg,
          c_checkpoint_seconds = int_at ''history'' ''checkpoint_seconds'' cfg\<rparr>)"

section \<open>Reading back what was checked\<close>

definition is_dict :: "pyval \<Rightarrow> bool" where
  "is_dict v = (case v of PDict _ \<Rightarrow> True | _ \<Rightarrow> False)"

lemma run_checks_empty: "run_checks cs = Inr [] \<longleftrightarrow> (\<forall>c \<in> set cs. c = Inr [])"
  by (induction cs) (auto split: sum.splits)

lemma try_get_passes: "try_get key section f = Inr [] \<Longrightarrow> is_dict section \<and> f (entry key section) = Inr []"
  by (auto simp: try_get_def py_get_def entry_def dict_get_def is_dict_def split: pyval.splits option.splits)

lemma expect_passes [simp]: "expect b m = Inr [] \<longleftrightarrow> b"
  by (simp add: expect_def)

lemma entry_set_entry: "entry k (set_entry k' x v) = (if k = k' \<and> is_dict v then x else entry k v)"
  by (cases v) (auto simp: entry_def set_entry_def dict_get_def is_dict_def)

lemma is_dict_set_entry [simp]: "is_dict (set_entry k x v) = is_dict v"
  by (cases v) (auto simp: set_entry_def is_dict_def)

lemma entry_update:
  "entry k (entry s' (update_entry s key f cfg))
     = (if s' = s \<and> k = key \<and> is_dict cfg \<and> is_dict (entry s cfg) then f (entry key (entry s cfg))
        else entry k (entry s' cfg))"
  by (auto simp: update_entry_def entry_set_entry)

lemma entry_update_section: "s' \<noteq> s \<Longrightarrow> entry s' (update_entry s key f cfg) = entry s' cfg"
  by (simp add: update_entry_def entry_set_entry)

lemma is_dict_update: "is_dict (entry s' (update_entry s key f cfg)) = is_dict (entry s' cfg)"
  "is_dict (update_entry s key f cfg) = is_dict cfg"
  by (auto simp: update_entry_def entry_set_entry)

lemma int_check_passes:
  assumes "int_check section key lo hi cfg m = Inr []"
  shows "lo \<le> int_at section key cfg \<and> int_at section key cfg \<le> hi"
  using try_get_passes [OF assms [unfolded int_check_def]]
  by (auto simp: int_in_def int_at_def split: pyval.splits)

lemma caught_passes:
  assumes "caught r = Inr []"
  shows "\<exists>x. r = Inr x"
  using assms by (auto simp: caught_def quoted_def split: sum.splits py_exc.splits)

lemma read_period_ok:
  assumes "read_period fr v = Inr p"
  shows "wf_period p"
proof -
  have range: "hhmm_value fr t = Inr x \<Longrightarrow> 0 \<le> x \<and> x < day_us \<and> 60000000 dvd x" for t x
    using parse_hhmm_range by (cases t) (auto simp: hhmm_value_def)
  show ?thesis
    using assms range
    by (fastforce simp: read_period_def wf_period_def Let_def split: pyval.splits if_splits sum.splits)
qed

lemma weekday_passes:
  assumes "check_weekday weekly d = Inr []"
  shows "0 \<le> dl_minutes (day_limit_of (entry (weekday_name d) weekly))
    \<and> dl_minutes (day_limit_of (entry (weekday_name d) weekly)) \<le> 1440"
  using assms
  by (auto simp: check_weekday_def py_get_def int_in_def day_limit_of_def entry_def dict_get_def
      split: pyval.splits option.splits if_splits)

lemma thresholds_sorted:
  assumes "list_of (int_in 1 1440) v"
  shows "list_all (\<lambda>m. 0 < m \<and> m \<le> 1440)
    (map (\<lambda>v. case v of PInt i \<Rightarrow> i | _ \<Rightarrow> 0) (items_of (sorted_thresholds v)))"
  using assms
  by (fastforce simp: list_of_def sorted_thresholds_def items_of_def list_all_iff int_in_def split: pyval.splits)

lemma merge_dict: "is_dict (merge DEFAULT_CONFIG (PDict data))"
  by (simp add: DEFAULT_CONFIG_def is_dict_def)

definition zones_ok :: "(pyval \<Rightarrow> zone_answer) \<Rightarrow> zone \<Rightarrow> bool" where
  "zones_ok zoneinfo system = (wf_zone system \<and> (\<forall>v z. zoneinfo v = ZoneFound z \<longrightarrow> wf_zone z))"

lemma resolve_ok: "zones_ok zoneinfo system \<Longrightarrow> resolve_timezone zoneinfo system fr v = Inr z \<Longrightarrow> wf_zone z"
  by (auto simp: resolve_timezone_def zones_ok_def split: if_splits zone_answer.splits)

lemma normalised_entry:
  "(s, k) \<notin> {(''warnings'', ''threshold_minutes''), (''detector'', ''ignored_app_ids''), (''detector'', ''ignored_names'')}
     \<Longrightarrow> entry k (entry s (normalised cfg)) = entry k (entry s cfg)"
  unfolding normalised_def entry_update by auto

lemma normalised_thresholds:
  assumes "is_dict cfg" "is_dict (entry ''warnings'' cfg)"
  shows "entry ''threshold_minutes'' (entry ''warnings'' (normalised cfg))
    = sorted_thresholds (entry ''threshold_minutes'' (entry ''warnings'' cfg))"
  unfolding normalised_def entry_update is_dict_update using assms by simp

lemma checked_config_wf:
  assumes zones: "zones_ok zoneinfo system" and dict: "is_dict cfg"
    and checks: "run_checks (all_checks zoneinfo system fr cfg) = Inr []"
  shows "wf_config (typed_config zoneinfo system fr (normalised cfg))"
    and "hhmm_value fr (entry ''reset_at'' (entry ''daily_limits'' cfg))
      = Inr (c_reset_at (typed_config zoneinfo system fr (normalised cfg)))"
    and "resolve_timezone zoneinfo system fr (entry ''timezone'' (entry ''daily_limits'' cfg))
      = Inr (c_timezone (typed_config zoneinfo system fr (normalised cfg)))"
proof -
  define c where "c = typed_config zoneinfo system fr (normalised cfg)"
  define daily where "daily = entry ''daily_limits'' cfg"
  have all: "\<And>k. k \<in> set (all_checks zoneinfo system fr cfg) \<Longrightarrow> k = Inr []"
    using checks by (simp add: run_checks_empty)
  have caughts: "caught (hhmm_value fr (entry ''reset_at'' daily)) = Inr []"
    "caught (resolve_timezone zoneinfo system fr (entry ''timezone'' daily)) = Inr []"
    by (rule all, simp add: all_checks_def daily_checks_def daily_def Let_def)+
  obtain reset where reset: "hhmm_value fr (entry ''reset_at'' daily) = Inr reset"
    using caught_passes [OF caughts(1)] ..
  obtain zone where zone: "resolve_timezone zoneinfo system fr (entry ''timezone'' daily) = Inr zone"
    using caught_passes [OF caughts(2)] ..
  have c_reset: "c_reset_at c = reset" and c_zone: "c_timezone c = zone"
    using reset zone by (simp_all add: c_def typed_config_def Let_def normalised_entry daily_def)
  have "0 \<le> reset \<and> reset < day_us"
    using reset parse_hhmm_range by (cases "entry ''reset_at'' daily") (auto simp: hhmm_value_def)
  moreover have "wf_zone zone" using resolve_ok [OF zones zone] .
  moreover have "0 \<le> dl_minutes (c_weekly c d) \<and> dl_minutes (c_weekly c d) \<le> 1440" for d
  proof -
    have "try_get ''weekly'' daily (\<lambda>weekly. check_weekday weekly d) = Inr []"
      by (rule all) (auto simp: all_checks_def daily_checks_def daily_def Let_def)
    then have "check_weekday (entry ''weekly'' daily) d = Inr []" using try_get_passes by blast
    then show ?thesis
      using weekday_passes by (simp add: c_def typed_config_def Let_def normalised_entry daily_def)
  qed
  moreover have "list_all wf_period (c_allowed_periods c)"
    using read_period_ok
    by (auto simp: c_def typed_config_def Let_def list_all_iff List.map_filter_def split: sum.splits option.splits)
  moreover have "list_all (\<lambda>m. 0 < m \<and> m \<le> 1440) (c_threshold_minutes c)"
  proof -
    have "try_get ''threshold_minutes'' (entry ''warnings'' cfg) (\<lambda>v. expect (list_of (int_in 1 1440) v)
        ''warnings.threshold_minutes must contain positive integer minutes'') = Inr []"
      by (rule all) (simp add: all_checks_def warning_checks_def)
    from try_get_passes [OF this] show ?thesis
      using thresholds_sorted normalised_thresholds [OF dict] by (simp add: c_def typed_config_def Let_def)
  qed
  moreover have "0 \<le> c_level c \<and> c_level c \<le> 3"
    using int_check_passes [OF all, of "''restriction''" "''level''" 0 3 cfg "''restriction.level must be 0, 1, 2, or 3''"]
    by (simp add: all_checks_def restriction_checks_def c_def typed_config_def Let_def int_at_def normalised_entry)
  moreover have "1 \<le> c_retention_days c \<and> c_retention_days c \<le> 3650"
    using int_check_passes [OF all, of "''history''" "''retention_days''" 1 3650 cfg "''history.retention_days must be 1..3650''"]
    by (simp add: all_checks_def history_checks_def c_def typed_config_def Let_def int_at_def normalised_entry)
  moreover have "5 \<le> c_checkpoint_seconds c \<and> c_checkpoint_seconds c \<le> 600"
    using int_check_passes [OF all, of "''history''" "''checkpoint_seconds''" 5 600 cfg "''history.checkpoint_seconds must be 5..600''"]
    by (simp add: all_checks_def history_checks_def c_def typed_config_def Let_def int_at_def normalised_entry)
  ultimately show "wf_config (typed_config zoneinfo system fr (normalised cfg))"
    using c_reset c_zone by (simp add: wf_config_def c_def [symmetric])
  show "hhmm_value fr (entry ''reset_at'' (entry ''daily_limits'' cfg))
      = Inr (c_reset_at (typed_config zoneinfo system fr (normalised cfg)))"
    "resolve_timezone zoneinfo system fr (entry ''timezone'' (entry ''daily_limits'' cfg))
      = Inr (c_timezone (typed_config zoneinfo system fr (normalised cfg)))"
    using reset zone c_reset c_zone by (simp_all add: c_def daily_def)
qed

section \<open>Loading the file\<close>

text \<open>The file is missing, cannot be read as JSON (with the message of the error), or holds a
  value. The configuration comes with the note of the recovery, if there was one.\<close>

datatype config_file = Missing | Unreadable string | Holds pyval

definition dict_items :: "pyval \<Rightarrow> (string \<times> pyval) list" where
  "dict_items v = (case v of PDict kvs \<Rightarrow> kvs | _ \<Rightarrow> [])"

definition recovered :: "(pyval \<Rightarrow> zone_answer) \<Rightarrow> zone \<Rightarrow> (real \<Rightarrow> string) \<Rightarrow> string \<Rightarrow> py_exc + pyval \<times> string option" where
  "recovered zoneinfo system fr reason =
     (case validate_config zoneinfo system fr (dict_items DEFAULT_CONFIG) of
        Inl e \<Rightarrow> Inl e
      | Inr cfg \<Rightarrow> Inr (cfg, Some (''invalid configuration quarantined: '' @ reason)))"

definition load_config :: "(pyval \<Rightarrow> zone_answer) \<Rightarrow> zone \<Rightarrow> (real \<Rightarrow> string) \<Rightarrow> config_file \<Rightarrow> py_exc + pyval \<times> string option" where
  "load_config zoneinfo system fr file =
     (case file of
        Missing \<Rightarrow> map_sum id (\<lambda>cfg. (cfg, None)) (validate_config zoneinfo system fr (dict_items DEFAULT_CONFIG))
      | Unreadable reason \<Rightarrow> recovered zoneinfo system fr reason
      | Holds (PDict raw) \<Rightarrow>
          (case validate_config zoneinfo system fr raw of
             Inr cfg \<Rightarrow> Inr (cfg, None)
           | Inl (ConfigError m) \<Rightarrow> recovered zoneinfo system fr m
           | Inl e \<Rightarrow> Inl e)
      | Holds _ \<Rightarrow> recovered zoneinfo system fr ''configuration root must be an object'')"

lemma validated_wf:
  assumes "zones_ok zoneinfo system" "validate_config zoneinfo system fr data = Inr settings"
  shows "wf_config (typed_config zoneinfo system fr settings)"
    and "hhmm_value fr (entry ''reset_at'' (entry ''daily_limits'' settings)) = Inr (c_reset_at (typed_config zoneinfo system fr settings))"
    and "resolve_timezone zoneinfo system fr (entry ''timezone'' (entry ''daily_limits'' settings))
      = Inr (c_timezone (typed_config zoneinfo system fr settings))"
proof -
  obtain base where base: "migrate_config data = Inr base" "run_checks (all_checks zoneinfo system fr base) = Inr []"
    "settings = normalised base"
    using assms(2) by (auto simp: validate_config_def split: sum.splits if_splits)
  have dict: "is_dict base"
    using base(1) merge_dict by (auto simp: migrate_config_def Let_def split: if_splits option.splits sum.splits)
  show "wf_config (typed_config zoneinfo system fr settings)"
    and "hhmm_value fr (entry ''reset_at'' (entry ''daily_limits'' settings)) = Inr (c_reset_at (typed_config zoneinfo system fr settings))"
    and "resolve_timezone zoneinfo system fr (entry ''timezone'' (entry ''daily_limits'' settings))
      = Inr (c_timezone (typed_config zoneinfo system fr settings))"
    using checked_config_wf [OF assms(1) dict base(2)] by (simp_all add: base(3) normalised_entry)
qed

lemma loaded_wf:
  assumes "zones_ok zoneinfo system" "load_config zoneinfo system fr file = Inr (settings, note)"
  shows "wf_config (typed_config zoneinfo system fr settings)"
proof -
  obtain raw where "validate_config zoneinfo system fr raw = Inr settings"
    using assms(2)
    by (cases "validate_config zoneinfo system fr (dict_items DEFAULT_CONFIG)")
      (auto simp: load_config_def recovered_def split: config_file.splits pyval.splits sum.splits py_exc.splits)
  then show ?thesis by (rule validated_wf(1) [OF assms(1)])
qed

lemma updated_wf:
  assumes "zones_ok zoneinfo system" "config_update zoneinfo system fr patch current = Inr settings"
  shows "wf_config (typed_config zoneinfo system fr settings)"
  using assms(2) validated_wf(1) [OF assms(1)] by (auto simp: config_update_def split: pyval.splits)

end
