(* ===== verification/Settings.thy ===== *)
theory Settings
  imports Config
begin

text \<open>
  The properties of the configuration layer: what validation guarantees to the engine, what a
  patch changes, and how a bad file is treated.
\<close>

lemma merge_items_lookup:
  "distinct (map fst sk) \<Longrightarrow> map_of (merge_items dk result sk) k =
     (case map_of sk k of None \<Rightarrow> map_of result k
      | Some v \<Rightarrow> Some (case map_of dk k of None \<Rightarrow> v | Some d \<Rightarrow> merge d v))"
proof (induction sk arbitrary: result)
  case (Cons kv rest)
  obtain k' v where kv: "kv = (k', v)" by (cases kv)
  have "map_of rest k' = None" using Cons.prems kv by (simp add: map_of_eq_None_iff)
  with Cons kv show ?case by (auto split: option.splits)
qed simp


definition no_zones :: "pyval \<Rightarrow> zone_answer" where
  "no_zones v = (case v of PStr _ \<Rightarrow> ZoneNotFound | _ \<Rightarrow> ZoneFails (TypeError ''key must be a string''))"

lemma no_zones_ok: "zones_ok no_zones utc_zone"
  by (auto simp: zones_ok_def no_zones_def wf_zone_def utc_zone_def split: pyval.splits)

definition blank :: "real \<Rightarrow> string" where
  "blank x = []"

lemma default_config_valid: "validate_config no_zones utc_zone blank [] = Inr DEFAULT_CONFIG"
  by code_simp


text \<open>A patch changes exactly what it mentions: a section it does not name keeps its value, one
  it names is merged into the old value, down to the single setting, and a new key is added.\<close>

theorem patch_changes_what_it_names:
  assumes "distinct (map fst patch)"
  shows "merge (PDict current) (PDict patch) = PDict (merge_items current current patch)
    \<and> map_of (merge_items current current patch) key =
      (case (map_of current key, map_of patch key) of
         (old, None) \<Rightarrow> old
       | (None, Some v) \<Rightarrow> Some v
       | (Some d, Some v) \<Rightarrow> Some (merge d v))"
  using merge_items_lookup [OF assms] by (simp split: option.splits)

theorem patch_changes_what_it_names_demo:
  "map_of (merge_items (dict_items DEFAULT_CONFIG) (dict_items DEFAULT_CONFIG)
      [(''restriction'', PDict [(''level'', PInt 2)])]) ''language'' = Some (PStr ''en'')"
  using patch_changes_what_it_names [of "[(''restriction'', PDict [(''level'', PInt 2)])]"
      "dict_items DEFAULT_CONFIG" "''language''"]
  by (simp add: DEFAULT_CONFIG_def dict_items_def)


lemma default_items_valid: "validate_config no_zones utc_zone blank (dict_items DEFAULT_CONFIG) = Inr DEFAULT_CONFIG"
  by code_simp


text \<open>Two kinds of bad file are not recovered: a section that is no object and a list where a
  name is expected make loading raise, an \<open>AttributeError\<close> and a \<open>TypeError\<close>.\<close>

theorem bad_sections_escape:
  "load_config no_zones utc_zone blank (Holds (PDict [(''schema_version'', PInt 2), (''daily_limits'', PInt 5)]))
      = Inl (AttributeError (quoted ''int'' @ '' object has no attribute '' @ quoted ''get''))
    \<and> load_config no_zones utc_zone blank (Holds (PDict [(''schema_version'', PInt 2), (''language'', PList [])]))
      = Inl (TypeError (''unhashable type: '' @ quoted ''list''))"
  by code_simp

end
