(* ===== verification/SteamLog.thy ===== *)
theory SteamLog
  imports Models
begin

text \<open>
  \<open>detectors/base.py\<close> and the parser of \<open>detectors/steam_log.py\<close>. A regular expression of
  the parser is a list of items, matched with backtracking in the order Python's \<open>re\<close> tries
  the alternatives: a greedy run from its longest length down, a lazy one from its shortest up.
  The lemmas give the reading of the lines Steam writes.
\<close>

section \<open>Detector events\<close>

datatype detector_event_type = STARTED | STOPPED | CHANGED | SUSPEND | RESUME | ERROR

record detector_event =
  de_type :: detector_event_type
  de_game :: "game_identity option"
  de_reason :: "string option"

section \<open>Regular expressions\<close>

text \<open>The word characters, whose edges are word boundaries, in the range of the model.\<close>

definition ch_isword :: "char \<Rightarrow> bool" where
  "ch_isword c = (let n = code c in 48 \<le> n \<and> n \<le> 57 \<or> 65 \<le> n \<and> n \<le> 90 \<or> n = 95 \<or> 97 \<le> n \<and> n \<le> 122
     \<or> n \<in> {170, 178, 179, 181, 185, 186, 188, 189, 190} \<or> 192 \<le> n \<and> n \<noteq> 215 \<and> n \<noteq> 247)"

datatype char_class = Digits | Spaces | NotNewline | NotQuote | Quote | Separator

fun in_class :: "char_class \<Rightarrow> char \<Rightarrow> bool" where
  "in_class Digits c = ch_isdecimal c"
| "in_class Spaces c = ch_isspace c"
| "in_class NotNewline c = (code c \<noteq> 10)"
| "in_class NotQuote c = (c \<noteq> CHR 0x27 \<and> c \<noteq> CHR 0x22)"
| "in_class Quote c = (c = CHR 0x27 \<or> c = CHR 0x22)"
| "in_class Separator c = (c = CHR ''='' \<or> c = CHR '':'')"

text \<open>A literal (without case), one of several literals, a run of at least so many and at most so
  many characters of a class (greedy or lazy, captured under a name or not), a word boundary.\<close>

datatype item =
    Text string
  | OneOf "string list"
  | Run char_class nat "nat option" bool "string option"
  | WordBoundary

definition same_text :: "string \<Rightarrow> string \<Rightarrow> bool" where
  "same_text t s = (length t \<le> length s \<and> list_all2 (\<lambda>a b. ch_lower a = ch_lower b) t (take (length t) s))"

definition last_char :: "char option \<Rightarrow> string \<Rightarrow> char option" where
  "last_char prev s = (if s = [] then prev else Some (last s))"

definition is_word :: "char option \<Rightarrow> bool" where
  "is_word c = (case c of None \<Rightarrow> False | Some c \<Rightarrow> ch_isword c)"

definition run_lengths :: "nat \<Rightarrow> nat option \<Rightarrow> bool \<Rightarrow> nat \<Rightarrow> nat list" where
  "run_lengths least most greedy available =
     (let ns = [least..<Suc (case most of None \<Rightarrow> available | Some m \<Rightarrow> min m available)]
      in if greedy then rev ns else ns)"

definition first_some :: "('a \<Rightarrow> 'b option) \<Rightarrow> 'a list \<Rightarrow> 'b option" where
  "first_some f xs = (case List.map_filter f xs of [] \<Rightarrow> None | y # _ \<Rightarrow> Some y)"

type_synonym captures = "(string \<times> string) list"

primrec match_items :: "item list \<Rightarrow> char option \<Rightarrow> string \<Rightarrow> captures option" where
  "match_items [] prev s = Some []"
| "match_items (i # is) prev s =
     (case i of
        Text t \<Rightarrow>
          if same_text t s then match_items is (last_char prev (take (length t) s)) (drop (length t) s) else None
      | OneOf ts \<Rightarrow>
          first_some (\<lambda>t. if same_text t s
            then match_items is (last_char prev (take (length t) s)) (drop (length t) s) else None) ts
      | Run cls least most greedy name \<Rightarrow>
          first_some (\<lambda>n. map_option (\<lambda>caps. case name of None \<Rightarrow> caps | Some x \<Rightarrow> (x, take n s) # caps)
              (match_items is (last_char prev (take n s)) (drop n s)))
            (run_lengths least most greedy (length (takeWhile (in_class cls) s)))
      | WordBoundary \<Rightarrow>
          if is_word prev \<noteq> is_word (case s of [] \<Rightarrow> None | c # _ \<Rightarrow> Some c)
          then match_items is prev s else None)"

text \<open>\<open>pattern.search(line)\<close>: the leftmost match.\<close>

fun search_from :: "item list \<Rightarrow> char option \<Rightarrow> string \<Rightarrow> captures option" where
  "search_from r prev [] = match_items r prev []"
| "search_from r prev (c # cs) =
     (case match_items r prev (c # cs) of Some caps \<Rightarrow> Some caps | None \<Rightarrow> search_from r (Some c) cs)"

definition search :: "item list \<Rightarrow> string \<Rightarrow> captures option" where
  "search r line = search_from r None line"

abbreviation some_spaces :: item where
  "some_spaces \<equiv> Run Spaces 1 None True None"

abbreviation digits_as :: "string \<Rightarrow> item" where
  "digits_as name \<equiv> Run Digits 1 None True (Some name)"

definition track_re :: "item list" where
  "track_re = [Text ''AppID'', some_spaces, digits_as ''app'', some_spaces, Text ''adding PID'', some_spaces,
     digits_as ''pid'', some_spaces, Text ''as a tracked process'']"

definition untrack_re :: "item list" where
  "untrack_re = [Text ''AppID'', some_spaces, digits_as ''app'', some_spaces, Text ''no longer tracking PID'', some_spaces,
     digits_as ''pid'']"

definition remove_re :: "item list" where
  "remove_re = [Text ''Remove'', some_spaces, digits_as ''app'', Text '' from running list'']"

definition name_re :: "item list" where
  "name_re = [Text ''AppID'', some_spaces, digits_as ''app'', Run NotNewline 0 None False None, WordBoundary,
     OneOf [''name'', ''game''], WordBoundary, Run Separator 1 (Some 1) True None, Run Spaces 0 None True None,
     Run Quote 0 (Some 1) True None, Run NotQuote 1 None True (Some ''name'')]"

section \<open>The parser\<close>

record steam_log_parser =
  lp_pids :: "(string \<times> int list) list"
  lp_names :: "(string \<times> string) list"

definition capture :: "string \<Rightarrow> captures \<Rightarrow> string" where
  "capture name caps = the (map_of caps name)"

definition tracked :: "string \<Rightarrow> steam_log_parser \<Rightarrow> int list" where
  "tracked app_id p = (case map_of (lp_pids p) app_id of None \<Rightarrow> [] | Some pids \<Rightarrow> pids)"

definition identity :: "string \<Rightarrow> steam_log_parser \<Rightarrow> game_identity" where
  "identity app_id p = \<lparr>g_app_id = Some app_id,
     g_name = (case map_of (lp_names p) app_id of None \<Rightarrow> ''Steam App '' @ app_id | Some n \<Rightarrow> n),
     g_source = ''steam_log'', g_pids = sort (tracked app_id p), g_confidence = 85 / 100, g_instance_id = None\<rparr>"

definition learn_name :: "string \<Rightarrow> steam_log_parser \<Rightarrow> steam_log_parser" where
  "learn_name line p =
     (case search name_re line of
        None \<Rightarrow> p
      | Some caps \<Rightarrow> p\<lparr>lp_names := alist_set (capture ''app'' caps) (str_strip (capture ''name'' caps)) (lp_names p)\<rparr>)"

definition feed_line :: "string \<Rightarrow> steam_log_parser \<Rightarrow> detector_event list \<times> steam_log_parser" where
  "feed_line line p0 =
     (let p = learn_name line p0
      in case search track_re line of
           Some caps \<Rightarrow>
             (let app_id = capture ''app'' caps; pid = int (digits_val (capture ''pid'' caps));
                  current = tracked app_id p;
                  p' = p\<lparr>lp_pids := alist_set app_id (List.insert pid current) (lp_pids p)\<rparr>
              in (if current = [] then [\<lparr>de_type = STARTED, de_game = Some (identity app_id p'),
                        de_reason = Some ''steam_log_first_tracked_process''\<rparr>] else [], p'))
         | None \<Rightarrow>
         (case search untrack_re line of
            Some caps \<Rightarrow>
              (let app_id = capture ''app'' caps; pid = int (digits_val (capture ''pid'' caps))
               in ([], if map_of (lp_pids p) app_id = None then p
                       else p\<lparr>lp_pids := alist_set app_id (removeAll pid (tracked app_id p)) (lp_pids p)\<rparr>))
          | None \<Rightarrow>
          (case search remove_re line of
             Some caps \<Rightarrow>
               (let app_id = capture ''app'' caps
                in ([\<lparr>de_type = STOPPED, de_game = Some (identity app_id p),
                       de_reason = Some ''steam_log_removed_from_running_list''\<rparr>],
                    p\<lparr>lp_pids := filter (\<lambda>kv. fst kv \<noteq> app_id) (lp_pids p)\<rparr>))
           | None \<Rightarrow> ([], p))))"

section \<open>Matching a known line\<close>

lemma same_text_append [simp]: "same_text t (t @ s)"
  by (simp add: same_text_def list_all2_refl)

lemma match_text [simp]: "match_items (Text t # is) prev (t @ s) = match_items is (last_char prev t) s"
  by simp

lemma takeWhile_class:
  "list_all (in_class cls) a \<Longrightarrow> b = [] \<or> \<not> in_class cls (hd b) \<Longrightarrow> takeWhile (in_class cls) (a @ b) = a"
  by (cases b) (auto simp: list_all_iff takeWhile_tail)

lemma first_some_Cons: "first_some f (x # xs) = (case f x of None \<Rightarrow> first_some f xs | Some y \<Rightarrow> Some y)"
  by (simp add: first_some_def List.map_filter_simps split: option.splits)

lemma first_some_None: "(\<And>x. x \<in> set xs \<Longrightarrow> f x = None) \<Longrightarrow> first_some f xs = None"
  by (induction xs) (simp_all add: first_some_Cons, simp add: first_some_def List.map_filter_simps)

lemma run_lengths_greedy: "run_lengths 1 None True (Suc n) = Suc n # rev [1..<Suc n]"
  by (simp add: run_lengths_def)

text \<open>A greedy run that takes all of its characters and is followed by a match.\<close>

lemma match_run:
  assumes "a \<noteq> []" "list_all (in_class cls) a" "b = [] \<or> \<not> in_class cls (hd b)"
    and "match_items is (Some (last a)) b = Some caps"
  shows "match_items (Run cls 1 None True name # is) prev (a @ b)
    = Some (case name of None \<Rightarrow> caps | Some x \<Rightarrow> (x, a) # caps)"
proof -
  obtain n where n: "length a = Suc n" using assms(1) by (cases a) auto
  have "run_lengths 1 None True (length (takeWhile (in_class cls) (a @ b))) = length a # rev [1..<length a]"
    unfolding takeWhile_class [OF assms(2,3)] n by (rule run_lengths_greedy)
  moreover have "take (length a) (a @ b) = a" "drop (length a) (a @ b) = b" by simp_all
  ultimately show ?thesis
    using assms(1,4) by (simp add: first_some_Cons last_char_def del: take_append drop_append split: option.splits)
qed

lemma match_run_None:
  assumes "\<And>n. 1 \<le> n \<Longrightarrow> n \<le> length (takeWhile (in_class cls) s)
    \<Longrightarrow> match_items is (last_char prev (take n s)) (drop n s) = None"
  shows "match_items (Run cls 1 None True name # is) prev s = None"
  by (simp, rule first_some_None) (auto simp: run_lengths_def assms)

text \<open>Every run that needs a character finds one of its class in the text.\<close>

lemma match_needs:
  "match_items is prev s = Some caps \<Longrightarrow> Run cls (Suc k) most greedy name \<in> set is \<Longrightarrow> \<exists>c \<in> set s. in_class cls c"
proof (induction "is" arbitrary: prev s caps)
  case (Cons i "is")
  have some: "\<exists>x \<in> set xs. f x = Some y" if "first_some f xs = Some y" for f xs and y :: captures
    using that by (induction xs) (auto simp: first_some_Cons first_some_def List.map_filter_simps split: option.splits)
  have rest: "\<exists>c \<in> set s. in_class cls c"
    if "match_items is p (drop n s) = Some cs" "Run cls (Suc k) most greedy name \<in> set is" for p n cs
    using Cons.IH [OF that] set_drop_subset [of n s] by blast
  have other: "i \<noteq> Run cls (Suc k) most greedy name \<Longrightarrow> Run cls (Suc k) most greedy name \<in> set is"
    using Cons.prems(2) by auto
  show ?case
  proof (cases i)
    case (Text t)
    then show ?thesis using Cons.prems(1) other rest by (auto split: if_splits)
  next
    case (OneOf ts)
    with Cons.prems(1) obtain p n cs where "match_items is p (drop n s) = Some cs"
      by (fastforce dest!: some split: if_splits)
    with OneOf show ?thesis using other rest by simp
  next
    case (Run cls' least most' greedy' name')
    with Cons.prems(1) obtain n cs where n: "n \<in> set (run_lengths least most' greedy' (length (takeWhile (in_class cls') s)))"
      "match_items is (last_char prev (take n s)) (drop n s) = Some cs"
      by (auto dest!: some)
    show ?thesis
    proof (cases "i = Run cls (Suc k) most greedy name")
      case True
      then have "0 < length (takeWhile (in_class cls) s)"
        using n(1) Run by (auto simp: run_lengths_def split: option.splits if_splits)
      then obtain c cs' where "takeWhile (in_class cls) s = c # cs'" by (cases "takeWhile (in_class cls) s") auto
      then have "c \<in> set (takeWhile (in_class cls) s)" by simp
      from set_takeWhileD [OF this] show ?thesis by blast
    next
      case False
      show ?thesis by (rule rest [OF n(2) other [OF False]])
    qed
  next
    case WordBoundary
    then have "match_items is prev (drop 0 s) = Some caps" using Cons.prems(1) by (simp split: if_splits)
    with WordBoundary show ?thesis using other rest by blast
  qed
qed simp

lemma search_needs:
  "\<forall>c \<in> set s. \<not> in_class cls c \<Longrightarrow> Run cls (Suc k) most greedy name \<in> set r \<Longrightarrow> search_from r prev s = None"
proof (induction s arbitrary: prev)
  case Nil
  then show ?case using match_needs [OF _ Nil.prems(2), of prev "[]"] by (cases "match_items r prev []") auto
next
  case (Cons c cs)
  then have "match_items r prev (c # cs) = None"
    using match_needs [OF _ Cons.prems(2), of prev "c # cs"] by (cases "match_items r prev (c # cs)") blast+
  with Cons show ?case by simp
qed

text \<open>A search for a pattern that starts with a literal skips what cannot start it.\<close>

definition skips :: "char \<Rightarrow> string \<Rightarrow> bool" where
  "skips t s = (\<forall>c \<in> set s. ch_lower c \<noteq> ch_lower t)"

lemma search_skip:
  "skips t pre \<Longrightarrow> search_from (Text (t # ts) # is) prev (pre @ s) = search_from (Text (t # ts) # is) (last_char prev pre) s"
proof (induction pre arbitrary: prev)
  case (Cons c cs)
  then have "\<not> same_text (t # ts) (c # cs @ s)" by (auto simp: same_text_def skips_def)
  with Cons show ?case by (auto simp: skips_def last_char_def)
qed (simp add: last_char_def)

lemma search_skip_all: "skips t s \<Longrightarrow> search_from (Text (t # ts) # is) prev s = None"
  using search_skip [of t s ts "is" prev "[]"] by (simp add: same_text_def)

lemma search_here: "match_items r prev s = Some caps \<Longrightarrow> search_from r prev s = Some caps"
  by (cases s) auto

lemma digits_skip: "ch_lower t \<in> {CHR ''a'' .. CHR ''z''} \<Longrightarrow> str_isdecimal s \<Longrightarrow> skips t s"
  by (auto simp: skips_def str_isdecimal_def list_all_iff ch_isdecimal_def ch_lower_def less_eq_char_def Let_def)

section \<open>Reading the lines Steam writes\<close>

definition digits :: "string \<Rightarrow> bool" where
  "digits s = (s \<noteq> [] \<and> list_all ch_isdecimal s)"

definition no_separator :: "string \<Rightarrow> bool" where
  "no_separator s = list_all (\<lambda>c. \<not> in_class Separator c) s"

definition tracking :: "string \<Rightarrow> string \<Rightarrow> string \<Rightarrow> string" where
  "tracking app_id pid post = ''AppID'' @ '' '' @ app_id @ '' '' @ ''adding PID'' @ '' '' @ pid @ '' ''
     @ ''as a tracked process'' @ post"

definition untracking :: "string \<Rightarrow> string \<Rightarrow> string \<Rightarrow> string" where
  "untracking app_id pid post = ''AppID'' @ '' '' @ app_id @ '' '' @ ''no longer tracking PID'' @ '' '' @ pid @ post"

definition removing :: "string \<Rightarrow> string \<Rightarrow> string" where
  "removing app_id post = ''Remove'' @ '' '' @ app_id @ '' from running list'' @ post"

lemma in_class_Digits: "in_class Digits = ch_isdecimal"
  by (rule ext) simp

lemma digit_is: "ch_isdecimal c \<Longrightarrow> \<not> ch_isspace c \<and> \<not> in_class Separator c \<and> ch_lower c = c"
  by (auto simp: ch_isdecimal_def ch_isspace_def ch_lower_def Let_def)

lemma digits_no_separator: "digits s \<Longrightarrow> no_separator s"
  using digit_is by (auto simp: digits_def no_separator_def list_all_iff simp del: in_class.simps)

lemma digits_skips: "digits s \<Longrightarrow> \<not> ch_isdecimal (ch_lower t) \<Longrightarrow> skips t s"
  using digit_is by (fastforce simp: digits_def skips_def list_all_iff)

lemma skips_append [simp]: "skips t (a @ b) = (skips t a \<and> skips t b)"
  by (auto simp: skips_def)

lemma no_separator_append [simp]: "no_separator (a @ b) = (no_separator a \<and> no_separator b)"
  by (simp add: no_separator_def)

text \<open>The reading of one element, as rules to be chained along a line.\<close>

lemma text_step:
  "match_items is (last_char prev t) s = Some caps \<Longrightarrow> match_items (Text t # is) prev (t @ s) = Some caps"
  by simp

lemma last_step: "match_items [Text t] prev (t @ s) = Some []"
  by simp

lemma digits_step:
  assumes "digits a" "b = [] \<or> \<not> ch_isdecimal (hd b)" "match_items is (Some (last a)) b = Some caps"
  shows "match_items (digits_as x # is) prev (a @ b) = Some ((x, a) # caps)"
  using match_run [where name = "Some x", OF _ _ _ assms(3), of Digits prev] assms(1,2)
  unfolding in_class_Digits digits_def by (simp del: match_items.simps)

lemma space_step:
  assumes "b \<noteq> []" "\<not> ch_isspace (hd b)" "match_items is (Some CHR '' '') b = Some caps"
  shows "match_items (some_spaces # is) prev ('' '' @ b) = Some caps"
  using match_run [where name = None and cls = Spaces and a = "'' ''" and b = b] assms by (simp add: ch_isspace_def)

lemma space_digits_step:
  assumes "digits a" "match_items is (Some CHR '' '') (a @ b) = Some caps"
  shows "match_items (some_spaces # is) prev ('' '' @ a @ b) = Some caps"
  by (rule space_step) (use assms digit_is in \<open>auto simp: digits_def neq_Nil_conv\<close>)

lemmas line_steps = last_step text_step space_digits_step digits_step space_step

lemma track_match:
  assumes "digits app_id" "digits pid"
  shows "match_items track_re prev (tracking app_id pid post) = Some [(''app'', app_id), (''pid'', pid)]"
  unfolding track_re_def tracking_def
  by (rule line_steps assms | simp add: ch_isspace_def ch_isdecimal_def del: match_items.simps)+

lemma untrack_match:
  assumes "digits app_id" "digits pid" "post = [] \<or> \<not> ch_isdecimal (hd post)"
  shows "match_items untrack_re prev (untracking app_id pid post) = Some [(''app'', app_id), (''pid'', pid)]"
  unfolding untrack_re_def untracking_def
  by (rule line_steps assms match_items.simps(1) | simp add: ch_isspace_def ch_isdecimal_def del: match_items.simps)+

lemma remove_match:
  assumes "digits app_id"
  shows "match_items remove_re prev (removing app_id post) = Some [(''app'', app_id)]"
  unfolding remove_re_def removing_def
  by (rule line_steps assms | simp add: ch_isspace_def ch_isdecimal_def del: match_items.simps)+

text \<open>An \<open>AppID\<close> line that goes on in other words is not a tracking line.\<close>

lemma run_None: "takeWhile (in_class cls) s = [] \<Longrightarrow> match_items (Run cls 1 None g name # is) prev s = None"
  by (simp add: run_lengths_def first_some_def List.map_filter_simps)

lemma space_None:
  assumes "b \<noteq> []" "\<not> ch_isspace (hd b)" "match_items is (Some CHR '' '') b = None"
  shows "match_items (some_spaces # is) prev ('' '' @ b) = None"
proof (rule match_run_None)
  fix n assume "1 \<le> n" "n \<le> length (takeWhile (in_class Spaces) ('' '' @ b))"
  moreover have "takeWhile (in_class Spaces) ('' '' @ b) = '' ''"
    using assms by (cases b) (auto simp: ch_isspace_def)
  ultimately have "n = 1" by simp
  then show "match_items is (last_char prev (take n ('' '' @ b))) (drop n ('' '' @ b)) = None"
    using assms(3) by (simp add: last_char_def)
qed

lemma digits_None:
  assumes "digits a" "match_items (some_spaces # is) (Some (last a)) ('' '' @ b) = None"
  shows "match_items (digits_as x # some_spaces # is) prev (a @ '' '' @ b) = None"
proof (rule match_run_None)
  fix n assume n: "1 \<le> n" "n \<le> length (takeWhile (in_class Digits) (a @ '' '' @ b))"
  have run: "takeWhile (in_class Digits) (a @ '' '' @ b) = a"
    by (rule takeWhile_class) (use assms(1) in \<open>auto simp: digits_def in_class_Digits ch_isdecimal_def\<close>)
  show "match_items (some_spaces # is) (last_char prev (take n (a @ '' '' @ b))) (drop n (a @ '' '' @ b)) = None"
  proof (cases "n = length a")
    case True
    then show ?thesis using assms n(1) by (simp add: last_char_def digits_def del: match_items.simps)
  next
    case False
    then have less: "n < length a" using n(2) run by simp
    then have "drop n (a @ '' '' @ b) = a ! n # drop (Suc n) a @ '' '' @ b"
      using Cons_nth_drop_Suc [OF less] by simp
    moreover have "\<not> in_class Spaces (a ! n)"
      using assms(1) less digit_is by (auto simp: digits_def list_all_length)
    ultimately show ?thesis by (intro run_None) (simp del: in_class.simps)
  qed
qed

lemma search_next:
  "match_items r prev (c # s) = None \<Longrightarrow> search_from r prev (c # s) = search_from r (Some c) s"
  by simp

lemma not_digit_A: "\<not> ch_isdecimal (ch_lower CHR ''A'')"
  by code_simp

lemma skips_A: "skips CHR ''a'' = skips CHR ''A''"
proof (rule ext)
  have "ch_lower CHR ''a'' = ch_lower CHR ''A''" by code_simp
  then show "skips CHR ''a'' s = skips CHR ''A'' s" for s by (simp only: skips_def)
qed

lemma untracking_not_tracking:
  assumes "digits app_id" "digits pid" "skips CHR ''a'' post"
  shows "search_from track_re prev (untracking app_id pid post) = None"
proof -
  define rest where "rest = ''cking PID'' @ '' '' @ pid @ post"
  define skipped where "skipped = ''ppID'' @ '' '' @ app_id @ '' '' @ ''no longer tr''"
  have line: "untracking app_id pid post = CHR ''A'' # skipped @ CHR ''a'' # rest"
    by (simp add: untracking_def rest_def skipped_def)
  have "match_items (tl track_re) (last_char prev ''AppID'') ('' '' @ app_id @ '' '' @ ''no longer tracking PID'' @ '' '' @ pid @ post)
      = None"
    unfolding track_re_def list.sel
  proof (rule space_None, goal_cases)
    case 3
    show ?case
      by (rule digits_None [OF assms(1)], rule space_None)
        (simp_all add: ch_isspace_def same_text_def ch_lower_def)
  qed (use assms(1) digit_is in \<open>auto simp: digits_def neq_Nil_conv\<close>)
  then have "match_items track_re prev (untracking app_id pid post) = None"
    unfolding untracking_def by (simp add: track_re_def del: match_items.simps(2) append.simps)
  moreover have words: "skips CHR ''A'' ''ppID''" "skips CHR ''A'' '' ''" "skips CHR ''A'' ''no longer tr''"
    "skips CHR ''A'' ''cking PID''" by code_simp+
  have "skips CHR ''A'' skipped" "skips CHR ''A'' rest"
    unfolding skipped_def rest_def skips_append
    using words assms digits_skips [of _ "CHR ''A''"] by (simp_all add: not_digit_A skips_A)
  moreover have "match_items track_re p (CHR ''a'' # rest) = None" for p
    by (simp add: track_re_def rest_def same_text_def ch_lower_def)
  ultimately show ?thesis
    using \<open>skips CHR ''A'' skipped\<close> \<open>skips CHR ''A'' rest\<close>
    unfolding line by (simp add: track_re_def search_skip search_skip_all del: match_items.simps)
qed

text \<open>What surrounds the message of a log line: a time stamp in front, the end of the line behind.\<close>

definition framing :: "string \<Rightarrow> string \<Rightarrow> bool" where
  "framing pre post = (skips CHR ''a'' pre \<and> skips CHR ''r'' pre \<and> skips CHR ''a'' post \<and> no_separator post
     \<and> (post = [] \<or> \<not> ch_isdecimal (hd post)))"

lemma no_name:
  assumes "skips CHR ''a'' pre" "no_separator s"
  shows "learn_name (pre @ s) p = p"
proof -
  have "search_from name_re prev s = None" for prev
    by (rule search_needs [where cls = Separator and k = 0 and most = "Some 1" and greedy = True and name = None])
      (use assms(2) in \<open>auto simp: no_separator_def list_all_iff name_re_def\<close>)
  then have "search_from name_re None (pre @ s) = None"
    using assms(1) by (simp add: name_re_def search_skip skips_A)
  then show ?thesis by (simp add: learn_name_def search_def)
qed

lemma search_framed:
  assumes "r = Text (t # ts) # is" "skips t pre" "\<And>prev. match_items r prev s = Some caps"
  shows "search r (pre @ s) = Some caps"
  using search_here [OF assms(3)] by (simp add: search_def assms(1) search_skip [OF assms(2)])

lemma literal_no_separator: "no_separator ''AppID''" "no_separator '' ''" "no_separator ''adding PID''"
  "no_separator ''as a tracked process''" "no_separator ''no longer tracking PID''" "no_separator ''Remove''"
  "no_separator '' from running list''"
  by code_simp+

lemma removing_skips: "skips CHR ''A'' ''Remove''" "skips CHR ''A'' '' ''" "skips CHR ''A'' '' from running list''"
  by code_simp+

lemma reads_tracking:
  assumes "framing pre post" "digits app_id" "digits pid"
  shows "feed_line (pre @ tracking app_id pid post) p =
    (let p' = p\<lparr>lp_pids := alist_set app_id (List.insert (int (digits_val pid)) (tracked app_id p)) (lp_pids p)\<rparr>
     in (if tracked app_id p = [] then [\<lparr>de_type = STARTED, de_game = Some (identity app_id p'),
           de_reason = Some ''steam_log_first_tracked_process''\<rparr>] else [], p'))"
proof -
  have "learn_name (pre @ tracking app_id pid post) p = p"
    by (rule no_name) (use assms digits_no_separator in \<open>simp_all only: framing_def tracking_def no_separator_append literal_no_separator\<close>)
  moreover have "search track_re (pre @ tracking app_id pid post) = Some [(''app'', app_id), (''pid'', pid)]"
    by (rule search_framed [OF track_re_def _ track_match [OF assms(2,3)]])
      (use assms(1) in \<open>simp add: framing_def skips_A\<close>)
  ultimately show ?thesis
    by (simp add: feed_line_def capture_def Let_def)
qed

lemma reads_untracking:
  assumes "framing pre post" "digits app_id" "digits pid"
  shows "feed_line (pre @ untracking app_id pid post) p =
    ([], if map_of (lp_pids p) app_id = None then p
         else p\<lparr>lp_pids := alist_set app_id (removeAll (int (digits_val pid)) (tracked app_id p)) (lp_pids p)\<rparr>)"
proof -
  have f: "skips CHR ''a'' pre" "skips CHR ''a'' post" "post = [] \<or> \<not> ch_isdecimal (hd post)"
    using assms(1) by (simp_all add: framing_def)
  have "learn_name (pre @ untracking app_id pid post) p = p"
    by (rule no_name) (use assms digits_no_separator in \<open>simp_all only: framing_def untracking_def no_separator_append literal_no_separator\<close>)
  moreover have "search track_re (pre @ untracking app_id pid post) = None"
    using untracking_not_tracking [OF assms(2,3) f(2)] search_skip [of "CHR ''A''" pre] f(1)
    by (simp add: search_def track_re_def skips_A)
  moreover have "search untrack_re (pre @ untracking app_id pid post) = Some [(''app'', app_id), (''pid'', pid)]"
    by (rule search_framed [OF untrack_re_def _ untrack_match [OF assms(2,3) f(3)]])
      (use f(1) in \<open>simp add: skips_A\<close>)
  ultimately show ?thesis
    by (simp add: feed_line_def capture_def Let_def)
qed

lemma reads_removing:
  assumes "framing pre post" "digits app_id"
  shows "feed_line (pre @ removing app_id post) p =
    ([\<lparr>de_type = STOPPED, de_game = Some (identity app_id p),
       de_reason = Some ''steam_log_removed_from_running_list''\<rparr>],
     p\<lparr>lp_pids := filter (\<lambda>kv. fst kv \<noteq> app_id) (lp_pids p)\<rparr>)"
proof -
  have "skips CHR ''A'' (pre @ removing app_id post)"
    unfolding removing_def skips_append
    using assms digits_skips [OF assms(2) not_digit_A] removing_skips by (simp add: framing_def skips_A)
  then have "search r (pre @ removing app_id post) = None" if "r = Text (CHR ''A'' # ts) # is" for r ts "is"
    using search_skip_all by (simp add: search_def that)
  then have none: "search name_re (pre @ removing app_id post) = None" "search track_re (pre @ removing app_id post) = None"
    "search untrack_re (pre @ removing app_id post) = None"
    by (simp_all add: name_re_def track_re_def untrack_re_def)
  have "ch_lower CHR ''r'' = ch_lower CHR ''R''" by code_simp
  then have "skips CHR ''R'' pre" using assms(1) by (auto simp only: framing_def skips_def)
  then have "search remove_re (pre @ removing app_id post) = Some [(''app'', app_id)]"
    by (intro search_framed [OF remove_re_def _ remove_match [OF assms(2)]])
  with none show ?thesis
    by (simp add: feed_line_def learn_name_def capture_def)
qed

end
