(* ===== verification/Detectors.thy ===== *)
theory Detectors
  imports SteamLog
begin

text \<open>
  \<open>detectors/composite.py\<close> (which of several detectors is listened to), the loops of
  \<open>detectors/procfs.py\<close> and \<open>detectors/steam_log.py\<close> as the events they put on their queue,
  and what a reader of the log learns, stated over the messages of the log rather than its text.
\<close>

section \<open>Messages of the log\<close>

datatype steam_message = Tracks string string | Untracks string string | Removes string

primrec message_ok :: "steam_message \<Rightarrow> bool" where
  "message_ok (Tracks a n) = (digits a \<and> digits n)"
| "message_ok (Untracks a n) = (digits a \<and> digits n)"
| "message_ok (Removes a) = digits a"

primrec message_text :: "string \<Rightarrow> steam_message \<Rightarrow> string" where
  "message_text post (Tracks a n) = tracking a n post"
| "message_text post (Untracks a n) = untracking a n post"
| "message_text post (Removes a) = removing a post"

text \<open>The body of the follower's loop: the lines read at one wake, in order.\<close>

fun feed_lines :: "string list \<Rightarrow> steam_log_parser \<Rightarrow> detector_event list \<times> steam_log_parser" where
  "feed_lines [] p = ([], p)"
| "feed_lines (line # rest) p =
     (let (es, p') = feed_line line p; (es', p'') = feed_lines rest p' in (es @ es', p''))"

lemma feed_lines_Cons:
  "fst (feed_lines (line # ls) p) = fst (feed_line line p) @ fst (feed_lines ls (snd (feed_line line p)))"
  by (simp split: prod.splits)

text \<open>The promise: an app is started when its first process is tracked, stopped when it is removed.\<close>

fun running_apps :: "(string \<Rightarrow> int set) \<Rightarrow> steam_message list \<Rightarrow> (detector_event_type \<times> string) list" where
  "running_apps S [] = []"
| "running_apps S (Tracks a n # ms) =
     (if S a = {} then [(STARTED, a)] else []) @ running_apps (S(a := insert (int (digits_val n)) (S a))) ms"
| "running_apps S (Untracks a n # ms) = running_apps (S(a := S a - {int (digits_val n)})) ms"
| "running_apps S (Removes a # ms) = (STOPPED, a) # running_apps (S(a := {})) ms"

definition event_app :: "detector_event \<Rightarrow> detector_event_type \<times> string" where
  "event_app e = (de_type e, case de_game e of None \<Rightarrow> [] | Some g \<Rightarrow> (case g_app_id g of None \<Rightarrow> [] | Some a \<Rightarrow> a))"

lemma tracked_set:
  "tracked a (p\<lparr>lp_pids := alist_set b ns (lp_pids p)\<rparr>) = (if a = b then ns else tracked a p)"
  by (simp add: tracked_def)

lemma tracked_None: "map_of (lp_pids p) a = None \<Longrightarrow> tracked a p = []"
  by (simp add: tracked_def)

lemma tracked_drop:
  "tracked a (p\<lparr>lp_pids := filter (\<lambda>kv. fst kv \<noteq> b) (lp_pids p)\<rparr>) = (if a = b then [] else tracked a p)"
proof -
  have "map_of (filter (\<lambda>kv. fst kv \<noteq> b) ps) a = (if a = b then None else map_of ps a)" for ps :: "(string \<times> int list) list"
    by (induction ps) auto
  then show ?thesis by (simp add: tracked_def)
qed

lemma feed_messages:
  assumes "framing pre post" "list_all message_ok ms" "\<And>a. set (tracked a p) = S a"
  shows "map event_app (fst (feed_lines (map (\<lambda>m. pre @ message_text post m) ms) p)) = running_apps S ms"
  using assms(2,3)
proof (induction ms arbitrary: p S)
  case (Cons m ms)
  have ok: "list_all message_ok ms" and empty: "(tracked a p = []) = (S a = {})" for a
    using Cons.prems by (simp_all flip: Cons.prems(2))
  note fed = reads_tracking [OF assms(1)] reads_untracking [OF assms(1)] reads_removing [OF assms(1)]
  have step: ?case
    if "feed_line (pre @ message_text post m) p = (es, p')" "\<And>a. set (tracked a p') = S' a"
      "running_apps S (m # ms) = map event_app es @ running_apps S' ms" for es p' S'
    using Cons.IH [OF ok that(2)] that(1,3) by (simp add: feed_lines_Cons del: running_apps.simps feed_lines.simps)
  show ?case
  proof (cases m)
    case (Tracks a n)
    show ?thesis
      by (rule step [of _ _ "S(a := insert (int (digits_val n)) (S a))"],
          use Tracks Cons.prems in \<open>simp add: fed Let_def\<close>)
        (use Tracks Cons.prems(2) empty [of a] in \<open>simp_all add: tracked_set event_app_def identity_def\<close>)
  next
    case (Untracks a n)
    show ?thesis
      by (rule step [of _ _ "S(a := S a - {int (digits_val n)})"],
          use Untracks Cons.prems in \<open>simp add: fed\<close>)
        (use Untracks Cons.prems(2) empty [of a] tracked_None [of p a] in \<open>auto simp: tracked_set\<close>)
  next
    case (Removes a)
    show ?thesis
      by (rule step [of _ _ "S(a := {})"], use Removes Cons.prems in \<open>simp add: fed\<close>)
        (use Removes Cons.prems(2) in \<open>simp_all add: tracked_drop event_app_def identity_def\<close>)
  qed
qed simp

section \<open>The process scan\<close>

definition scan_key :: "game_identity option \<Rightarrow> (string option \<times> string) option" where
  "scan_key g = map_option (\<lambda>g. (g_app_id g, g_name g)) g"

text \<open>One round of \<open>ProcfsDetector.run\<close>: the scan raised, or found a game or none.\<close>

definition scan_round :: "string + game_identity option \<Rightarrow> game_identity option \<Rightarrow> detector_event list \<times> game_identity option" where
  "scan_round result known =
     (case result of
        Inl exc \<Rightarrow> ([\<lparr>de_type = ERROR, de_game = None, de_reason = Some (''procfs: '' @ exc)\<rparr>], known)
      | Inr detected \<Rightarrow>
     (if scan_key detected \<noteq> scan_key known
      then (case (known, detected) of
              (Some _, Some d) \<Rightarrow> [\<lparr>de_type = CHANGED, de_game = Some d, de_reason = Some ''procfs_changed''\<rparr>]
            | (None, Some d) \<Rightarrow> [\<lparr>de_type = STARTED, de_game = Some d, de_reason = Some ''procfs_detected''\<rparr>]
            | (Some l, None) \<Rightarrow> [\<lparr>de_type = STOPPED, de_game = Some l, de_reason = Some ''procfs_disappeared''\<rparr>]
            | (None, None) \<Rightarrow> [],
            detected)
      else ([], known)))"

fun scan_rounds :: "(string + game_identity option) list \<Rightarrow> game_identity option \<Rightarrow> detector_event list \<times> game_identity option" where
  "scan_rounds [] known = ([], known)"
| "scan_rounds (d # ds) known =
     (let (es, known') = scan_round d known; (es', known'') = scan_rounds ds known' in (es @ es', known''))"

section \<open>Choosing among detectors\<close>

definition source_priority :: "(string \<times> nat) list" where
  "source_priority = [(''decky'', 100), (''simulation'', 95), (''steam_log'', 80), (''procfs'', 50)]"

type_synonym game_key = "(string option \<times> string) option"

record composite =
  current_source_priority :: nat
  current_key :: game_key

definition composite_init :: composite where
  "composite_init = \<lparr>current_source_priority = 0, current_key = None\<rparr>"

definition event_priority :: "detector_event \<Rightarrow> nat" where
  "event_priority e =
     (case map_of source_priority (case de_game e of None \<Rightarrow> [] | Some g \<Rightarrow> g_source g) of None \<Rightarrow> 0 | Some n \<Rightarrow> n)"

definition event_key :: "detector_event \<Rightarrow> game_key" where
  "event_key e = map_option (\<lambda>g. (g_app_id g, str_casefold (g_name g))) (de_game e)"

text \<open>One turn of \<open>CompositeDetector.run\<close>: what it passes on, and its new state.\<close>

definition composite_step :: "detector_event \<Rightarrow> composite \<Rightarrow> detector_event list \<times> composite" where
  "composite_step e c =
     (if de_type e = ERROR then ([e], c)
      else let priority = event_priority e in
        if de_type e = STARTED \<or> de_type e = CHANGED
        then (if current_source_priority c \<le> priority
              then ([e], \<lparr>current_source_priority = priority, current_key = event_key e\<rparr>) else ([], c))
        else if de_type e = STOPPED
        then (if current_source_priority c \<le> priority \<and> (current_key c = None \<or> event_key e = current_key c)
              then ([e], \<lparr>current_source_priority = 0, current_key = None\<rparr>) else ([], c))
        else ([e], c))"

fun composite_run :: "detector_event list \<Rightarrow> composite \<Rightarrow> detector_event list \<times> composite" where
  "composite_run [] c = ([], c)"
| "composite_run (e # es) c =
     (let (out, c') = composite_step e c; (out', c'') = composite_run es c' in (out @ out', c''))"

section \<open>What a listener can rely on\<close>

text \<open>The state that the events passed on determine.\<close>

definition holder :: "detector_event list \<Rightarrow> composite" where
  "holder out = fold (\<lambda>e c. if de_type e = STARTED \<or> de_type e = CHANGED
      then \<lparr>current_source_priority = event_priority e, current_key = event_key e\<rparr>
      else if de_type e = STOPPED then composite_init else c) out composite_init"

definition arbitrated :: "detector_event_type \<Rightarrow> bool" where
  "arbitrated t = (t = STARTED \<or> t = CHANGED \<or> t = STOPPED)"

definition entitled :: "composite \<Rightarrow> detector_event \<Rightarrow> bool" where
  "entitled c e = (current_source_priority c \<le> event_priority e
     \<and> (de_type e = STOPPED \<longrightarrow> current_key c = None \<or> event_key e = current_key c))"

lemma holder_snoc: "holder (out @ [e]) = (if de_type e = STARTED \<or> de_type e = CHANGED
      then \<lparr>current_source_priority = event_priority e, current_key = event_key e\<rparr>
      else if de_type e = STOPPED then composite_init else holder out)"
  by (simp add: holder_def)

lemma composite_step_cases:
  "composite_step e c =
     (if arbitrated (de_type e) \<longrightarrow> entitled c e
      then ([e], if de_type e = STARTED \<or> de_type e = CHANGED
                 then \<lparr>current_source_priority = event_priority e, current_key = event_key e\<rparr>
                 else if de_type e = STOPPED then composite_init else c)
      else ([], c))"
  by (cases "de_type e"; cases "current_key c") (simp_all add: composite_step_def arbitrated_def entitled_def composite_init_def Let_def)

lemma composite_run_holder:
  "composite_run es (holder past) = (out, c) \<Longrightarrow>
     c = holder (past @ out)
     \<and> (\<forall>k < length out. arbitrated (de_type (out ! k)) \<longrightarrow> entitled (holder (past @ take k out)) (out ! k))
     \<and> filter (\<lambda>e. \<not> arbitrated (de_type e)) out = filter (\<lambda>e. \<not> arbitrated (de_type e)) es"
proof (induction es arbitrary: past out c)
  case (Cons e es)
  show ?case
  proof (cases "arbitrated (de_type e) \<longrightarrow> entitled (holder past) e")
    case True
    then have "composite_step e (holder past) = ([e], holder (past @ [e]))"
      by (simp add: composite_step_cases holder_snoc)
    with Cons.prems obtain out' where out: "out = e # out'" "composite_run es (holder (past @ [e])) = (out', c)"
      by (auto split: prod.splits)
    have "arbitrated (de_type (out ! k)) \<longrightarrow> entitled (holder (past @ take k out)) (out ! k)" if "k < length out" for k
      using Cons.IH [OF out(2)] True that out(1) by (cases k) auto
    then show ?thesis using Cons.IH [OF out(2)] out(1) by simp
  next
    case False
    then have "composite_step e (holder past) = ([], holder past)" by (auto simp: composite_step_cases)
    then have "composite_run es (holder past) = (out, c)" using Cons.prems by (simp split: prod.splits)
    from Cons.IH [OF this] False show ?thesis by simp
  qed
qed simp

lemma run_unentitled:
  "(\<And>e. e \<in> set es \<Longrightarrow> arbitrated (de_type e) \<Longrightarrow> \<not> entitled c e) \<Longrightarrow>
     composite_run es c = (filter (\<lambda>e. \<not> arbitrated (de_type e)) es, c)"
  by (induction es) (auto simp: composite_step_cases arbitrated_def)

text \<open>What the events of the process scan say, when they are consistent.\<close>

fun replay :: "detector_event list \<Rightarrow> game_identity option \<Rightarrow> game_identity option option" where
  "replay [] g = Some g"
| "replay (e # es) g =
     (case (de_type e, g, de_game e) of
        (STARTED, None, Some d) \<Rightarrow> replay es (Some d)
      | (CHANGED, Some l, Some d) \<Rightarrow> if scan_key (Some l) \<noteq> scan_key (Some d) then replay es (Some d) else None
      | (STOPPED, Some l, Some d) \<Rightarrow> if d = l then replay es None else None
      | (ERROR, _, None) \<Rightarrow> replay es g
      | _ \<Rightarrow> None)"

lemma replay_round: "scan_round d known = (es, known') \<Longrightarrow> replay (es @ es') known = replay es' known'"
  by (auto simp: scan_round_def scan_key_def split: sum.splits if_splits option.splits)

lemma scan_round_key: "scan_round (Inr d) known = (es, known') \<Longrightarrow> scan_key known' = scan_key d"
  by (auto simp: scan_round_def split: if_splits)

lemma replay_rounds: "scan_rounds ds known = (es, known') \<Longrightarrow> replay es known = Some known'"
  by (induction ds arbitrary: known es) (auto simp: replay_round split: prod.splits)

lemma scan_rounds_snoc:
  "scan_rounds (ds @ [d]) known =
     (let (es, known') = scan_rounds ds known; (es', known'') = scan_round d known' in (es @ es', known''))"
  by (induction ds arbitrary: known) (auto split: prod.splits)

section \<open>Properties of the detectors\<close>

definition demo_log_messages :: "steam_message list" where
  "demo_log_messages = [Tracks ''440'' ''71'', Tracks ''440'' ''72'', Untracks ''440'' ''71'', Removes ''440'']"

definition log_game :: "string \<Rightarrow> game_identity" where
  "log_game source = \<lparr>g_app_id = Some ''440'', g_name = ''Game'', g_source = source, g_pids = [], g_confidence = 1,
     g_instance_id = None\<rparr>"

definition seen :: "detector_event_type \<Rightarrow> string \<Rightarrow> detector_event" where
  "seen t source = \<lparr>de_type = t, de_game = Some (log_game source), de_reason = None\<rparr>"

text \<open>Whatever sequence of tracking, untracking and removal messages Steam logs, each behind a
  time stamp, the parser of its lines reports an app as started exactly when its first process is
  tracked and as stopped exactly when it is removed from the running list, in the order of the log.\<close>

theorem log_tells_runs:
  assumes "framing pre post" and "list_all message_ok ms"
  shows "map event_app (fst (feed_lines (map (\<lambda>m. pre @ message_text post m) ms) \<lparr>lp_pids = [], lp_names = names\<rparr>))
    = running_apps (\<lambda>_. {}) ms"
  by (rule feed_messages [OF assms]) (simp add: tracked_def)

lemma log_tells_runs_demo:
  "map event_app (fst (feed_lines (map (\<lambda>m. ''[2024-05-01 20:15:00] '' @ message_text [char_of (10::nat)] m) demo_log_messages)
     \<lparr>lp_pids = [], lp_names = []\<rparr>)) = [(STARTED, ''440''), (STOPPED, ''440'')]"
proof -
  have "framing ''[2024-05-01 20:15:00] '' [char_of (10::nat)]" "list_all message_ok demo_log_messages"
    by code_simp+
  moreover have "running_apps (\<lambda>_. {}) demo_log_messages = [(STARTED, ''440''), (STOPPED, ''440'')]"
    by (simp add: demo_log_messages_def digits_val_def)
  ultimately show ?thesis using log_tells_runs [of "''[2024-05-01 20:15:00] ''" "[char_of (10::nat)]" demo_log_messages "[]"]
    by simp
qed

text \<open>C18: What the composite detector passes on is arbitrated: a start or change always comes from
  a source at least as trusted as the one whose game is shown, a stop moreover names that game; its
  state is the one that what it passed on determines; and no error, suspend or resume is lost.\<close>

theorem only_entitled_events_pass:
  assumes "composite_run es composite_init = (out, c)"
  shows "c = holder out
    \<and> (\<forall>k < length out. arbitrated (de_type (out ! k)) \<longrightarrow> entitled (holder (take k out)) (out ! k))
    \<and> filter (\<lambda>e. \<not> arbitrated (de_type e)) out = filter (\<lambda>e. \<not> arbitrated (de_type e)) es"
  using composite_run_holder [of es "[]" out c] assms by (simp add: holder_def)

lemma only_entitled_events_pass_demo:
  "\<exists>c. composite_run [seen STARTED ''steam_log'', seen STARTED ''procfs'', seen STOPPED ''procfs''] composite_init
      = ([seen STARTED ''steam_log''], c) \<and> c = holder [seen STARTED ''steam_log'']"
proof -
  have "composite_run [seen STARTED ''steam_log'', seen STARTED ''procfs'', seen STOPPED ''procfs''] composite_init
     = ([seen STARTED ''steam_log''], \<lparr>current_source_priority = 80, current_key = Some (Some ''440'', ''game'')\<rparr>)"
    by code_simp
  from only_entitled_events_pass [OF this] this show ?thesis by blast
qed

text \<open>C19: A source that fails leaves its trust behind: after a game reported by the Steam log, an
  error of that source is passed on, but every later start, change or stop seen by the slower
  process scan is dropped, however many there are.\<close>

theorem failed_source_blocks_fallback:
  assumes "de_type s = STARTED" and "event_priority s = 80" and "de_type x = ERROR"
    and "\<forall>e \<in> set es. event_priority e = 50"
  shows "fst (composite_run (s # x # es) composite_init) = s # x # filter (\<lambda>e. \<not> arbitrated (de_type e)) es"
proof -
  have "composite_run es \<lparr>current_source_priority = 80, current_key = event_key s\<rparr>
    = (filter (\<lambda>e. \<not> arbitrated (de_type e)) es, \<lparr>current_source_priority = 80, current_key = event_key s\<rparr>)"
    using assms(4) by (intro run_unentitled) (simp add: entitled_def)
  then show ?thesis
    using assms(1-3) by (simp add: composite_step_def composite_init_def)
qed

lemma failed_source_blocks_fallback_demo:
  "fst (composite_run [seen STARTED ''steam_log'', \<lparr>de_type = ERROR, de_game = None, de_reason = Some ''steam_log: gone''\<rparr>,
       seen STARTED ''procfs'', seen CHANGED ''procfs'', seen STOPPED ''procfs''] composite_init)
    = [seen STARTED ''steam_log'', \<lparr>de_type = ERROR, de_game = None, de_reason = Some ''steam_log: gone''\<rparr>]"
proof -
  have "event_priority (seen STARTED ''steam_log'') = 80" "\<forall>t. event_priority (seen t ''procfs'') = 50"
    by (simp_all add: seen_def event_priority_def log_game_def source_priority_def)
  then show ?thesis
    using failed_source_blocks_fallback [of "seen STARTED ''steam_log''"
      "\<lparr>de_type = ERROR, de_game = None, de_reason = Some ''steam_log: gone''\<rparr>"
      "[seen STARTED ''procfs'', seen CHANGED ''procfs'', seen STOPPED ''procfs'']"]
    by (simp add: arbitrated_def) (simp add: seen_def)
qed

text \<open>Over any rounds of the process scan, failed ones included, the events tell one consistent
  story: a game starts only when none is shown, changes only to another one, and the game that stops
  is the one last shown; after a round that succeeded what they show is what the scan found.\<close>

theorem scan_events_consistent:
  assumes "scan_rounds (ds @ [Inr d]) None = (es, known)"
  shows "replay es None = Some known \<and> scan_key known = scan_key d"
  using assms replay_rounds [OF assms] scan_round_key
  by (auto simp: scan_rounds_snoc Let_def split: prod.splits)

lemma scan_events_consistent_demo:
  "replay [\<lparr>de_type = STARTED, de_game = Some (log_game ''procfs''), de_reason = Some ''procfs_detected''\<rparr>,
           \<lparr>de_type = ERROR, de_game = None, de_reason = Some ''procfs: busy''\<rparr>,
           \<lparr>de_type = STOPPED, de_game = Some (log_game ''procfs''), de_reason = Some ''procfs_disappeared''\<rparr>] None
     = Some None"
  using scan_events_consistent [of "[Inr (Some (log_game ''procfs'')), Inl ''busy'']" None]
  by (simp add: scan_round_def scan_key_def)

end
