(* ===== verification/EventBus.thy ===== *)
theory EventBus
  imports Prelude
begin

text \<open>
  \<open>events.py\<close>: the bus that hands every event to every subscriber. A subscriber is an
  \<open>asyncio.Queue\<close> with a bound (\<open>0\<close> for none), known by an identity; the set of subscribers
  is an association list. The lemma \<open>publish_all_keeps_newest\<close> is its contract.
\<close>

record 'e event_bus =
  eb_queue_size :: nat
  eb_subscribers :: "(nat \<times> 'e list) list"

datatype queue_error = QueueFull | QueueEmpty

definition new_bus :: "nat \<Rightarrow> 'e event_bus" where
  "new_bus maxsize = \<lparr>eb_queue_size = maxsize, eb_subscribers = []\<rparr>"

definition put_nowait :: "nat \<Rightarrow> 'e \<Rightarrow> 'e list \<Rightarrow> queue_error + 'e list" where
  "put_nowait maxsize e q = (if 0 < maxsize \<and> maxsize \<le> length q then Inl QueueFull else Inr (q @ [e]))"

definition get_nowait :: "'e list \<Rightarrow> queue_error + 'e \<times> 'e list" where
  "get_nowait q = (case q of [] \<Rightarrow> Inl QueueEmpty | x # rest \<Rightarrow> Inr (x, rest))"

text \<open>One subscriber's share of a publication: \<open>None\<close> when it is found stale.\<close>

definition offer :: "nat \<Rightarrow> 'e \<Rightarrow> 'e list \<Rightarrow> 'e list option" where
  "offer maxsize e q =
     (case put_nowait maxsize e q of
        Inr q' \<Rightarrow> Some q'
      | Inl _ \<Rightarrow>
          (case get_nowait q of
             Inl _ \<Rightarrow> None
           | Inr (_, rest) \<Rightarrow> (case put_nowait maxsize e rest of Inl _ \<Rightarrow> None | Inr q' \<Rightarrow> Some q')))"

definition publish :: "'e \<Rightarrow> 'e event_bus \<Rightarrow> 'e event_bus" where
  "publish e b = b\<lparr>eb_subscribers :=
     List.map_filter (\<lambda>(s, q). map_option (Pair s) (offer (eb_queue_size b) e q)) (eb_subscribers b)\<rparr>"

definition subscribe :: "nat \<Rightarrow> 'e event_bus \<Rightarrow> 'e event_bus" where
  "subscribe s b = b\<lparr>eb_subscribers := alist_set s [] (eb_subscribers b)\<rparr>"

definition unsubscribe :: "nat \<Rightarrow> 'e event_bus \<Rightarrow> 'e event_bus" where
  "unsubscribe s b = b\<lparr>eb_subscribers := filter (\<lambda>sq. fst sq \<noteq> s) (eb_subscribers b)\<rparr>"

definition subscriber_count :: "'e event_bus \<Rightarrow> nat" where
  "subscriber_count b = length (eb_subscribers b)"

text \<open>A subscriber reads one event from its queue (\<open>await queue.get()\<close> when one is there).\<close>

definition receive :: "nat \<Rightarrow> 'e event_bus \<Rightarrow> 'e option \<times> 'e event_bus" where
  "receive s b =
     (case map_of (eb_subscribers b) s of
        None \<Rightarrow> (None, b)
      | Some q \<Rightarrow> (case get_nowait q of
          Inl _ \<Rightarrow> (None, b)
        | Inr (e, rest) \<Rightarrow> (Some e, b\<lparr>eb_subscribers := alist_set s rest (eb_subscribers b)\<rparr>)))"

section \<open>The newest events stay\<close>

text \<open>What a bounded queue is to hold: the last events of what was put into it.\<close>

definition newest :: "nat \<Rightarrow> 'e list \<Rightarrow> 'e list" where
  "newest n xs = drop (length xs - n) xs"

lemma newest_short: "length xs \<le> n \<Longrightarrow> newest n xs = xs"
  by (simp add: newest_def)

lemma newest_newest_append: "newest n (newest n xs @ ys) = newest n (xs @ ys)"
  by (cases "n \<le> length xs") (simp_all add: newest_def add.commute)

lemma length_newest: "length (newest n xs) \<le> n"
  by (simp add: newest_def)

lemma offer_newest: "0 < maxsize \<Longrightarrow> length q \<le> maxsize \<Longrightarrow> offer maxsize e q = Some (newest maxsize (q @ [e]))"
  by (cases q) (auto simp: offer_def put_nowait_def get_nowait_def newest_def)

lemma map_filter_Some: "(\<And>x. x \<in> set xs \<Longrightarrow> f x = Some (g x)) \<Longrightarrow> List.map_filter f xs = map g xs"
  by (induction xs) (simp_all add: List.map_filter_simps)

definition bus_ok :: "'e event_bus \<Rightarrow> bool" where
  "bus_ok b = (0 < eb_queue_size b \<and> distinct (map fst (eb_subscribers b))
     \<and> (\<forall>(s, q) \<in> set (eb_subscribers b). length q \<le> eb_queue_size b))"

definition keep_newest :: "nat \<Rightarrow> 'e \<Rightarrow> nat \<times> 'e list \<Rightarrow> nat \<times> 'e list" where
  "keep_newest n e sq = (fst sq, newest n (snd sq @ [e]))"

lemma fst_keep_newest: "map fst (map (keep_newest n e) ps) = map fst ps"
  by (simp add: keep_newest_def)

lemma map_of_keep_newest: "map_of (map (keep_newest n e) ps) s = map_option (\<lambda>q. newest n (q @ [e])) (map_of ps s)"
  by (induction ps) (auto simp: keep_newest_def)

lemma publish_newest:
  assumes "bus_ok b"
  shows "publish e b = b\<lparr>eb_subscribers := map (keep_newest (eb_queue_size b) e) (eb_subscribers b)\<rparr>"
proof -
  have "(case x of (s, q) \<Rightarrow> map_option (Pair s) (offer (eb_queue_size b) e q)) = Some (keep_newest (eb_queue_size b) e x)"
    if "x \<in> set (eb_subscribers b)" for x
    using assms that by (auto simp: bus_ok_def offer_newest keep_newest_def)
  then show ?thesis unfolding publish_def by (simp add: map_filter_Some)
qed

lemma publish_ok: "bus_ok b \<Longrightarrow> bus_ok (publish e b)"
  by (auto simp: publish_newest bus_ok_def fst_keep_newest simp del: map_map)
    (simp add: keep_newest_def length_newest)

lemma publish_all:
  assumes "bus_ok b" "map_of (eb_subscribers b) s = Some q"
  shows "map_of (eb_subscribers (fold publish es b)) s = Some (newest (eb_queue_size b) (q @ es))
    \<and> subscriber_count (fold publish es b) = subscriber_count b"
  using assms
proof (induction es arbitrary: b q)
  case Nil
  then show ?case using newest_short [of q "eb_queue_size b"] by (force simp: bus_ok_def dest!: map_of_SomeD)
next
  case (Cons e es)
  have "map_of (eb_subscribers (publish e b)) s = Some (newest (eb_queue_size b) (q @ [e]))"
    using Cons.prems by (simp add: publish_newest map_of_keep_newest)
  from Cons.IH [OF publish_ok [OF Cons.prems(1)] this] show ?case
    using Cons.prems(1) by (simp add: publish_newest newest_newest_append subscriber_count_def)
qed

lemma subscribe_ok: "bus_ok b \<Longrightarrow> bus_ok (subscribe s b)"
  using set_alist_set [of s "[]" "eb_subscribers b"]
  by (auto simp: bus_ok_def subscribe_def intro: distinct_alist_set)

lemma unsubscribe_ok: "bus_ok b \<Longrightarrow> bus_ok (unsubscribe s b)"
  by (auto simp: bus_ok_def unsubscribe_def intro: distinct_map_filter)

section \<open>Slow subscribers\<close>

text \<open>C17: Publishing never blocks and never drops a subscriber: whatever is published, each
  subscriber's queue then holds the newest of what was in it and was published since, up to the
  bound of the queue, in order.\<close>

theorem slow_subscriber_keeps_newest:
  assumes "bus_ok b" and "map_of (eb_subscribers b) s = Some q"
  shows "map_of (eb_subscribers (fold publish es b)) s = Some (newest (eb_queue_size b) (q @ es))
    \<and> subscriber_count (fold publish es b) = subscriber_count b \<and> bus_ok (fold publish es b)"
proof -
  have "bus_ok (fold publish es b)"
    using assms(1) by (induction es arbitrary: b) (simp_all add: publish_ok)
  with publish_all [OF assms] show ?thesis by blast
qed

lemma slow_subscriber_keeps_newest_demo:
  "map_of (eb_subscribers (fold publish [1::int, 2, 3] (subscribe 7 (new_bus 2)))) 7 = Some [2, 3]"
  using slow_subscriber_keeps_newest [of "subscribe 7 (new_bus 2)" 7 "[]" "[1::int, 2, 3]"]
  by (simp add: bus_ok_def subscribe_def new_bus_def newest_def)

end
