(* ===== verification/Export.thy ===== *)
theory Export
  imports Config Ledger
begin

text \<open>
  \<open>Storage.export\<close>: the tables as a JSON text (\<open>json.dumps\<close> with two blanks of
  indentation and sorted keys) or as a CSV text (\<open>csv.DictWriter\<close> in its \<open>excel\<close>
  dialect). The lemmas read the CSV text back with the dialect's grammar.
\<close>

section \<open>JSON\<close>

definition json_char :: "char \<Rightarrow> string" where
  "json_char c =
     (let n = of_char c :: nat in
      if c = CHR 0x22 then [CHR 0x5C, CHR 0x22] else if c = CHR 0x5C then [CHR 0x5C, CHR 0x5C]
      else if n = 10 then [CHR 0x5C, CHR ''n''] else if n = 13 then [CHR 0x5C, CHR ''r'']
      else if n = 9 then [CHR 0x5C, CHR ''t''] else if n = 12 then [CHR 0x5C, CHR ''f'']
      else if n = 8 then [CHR 0x5C, CHR ''b'']
      else if 32 \<le> n \<and> n \<le> 126 then [c]
      else CHR 0x5C # ''u00'' @ [hex_digit (n div 16), hex_digit (n mod 16)])"

text \<open>\<open>esc\<close> is how a character is written: \<open>json_char\<close> unless \<open>ensure_ascii\<close> is off.\<close>

definition json_string :: "(char \<Rightarrow> string) \<Rightarrow> string \<Rightarrow> string" where
  "json_string esc s = [CHR 0x22] @ concat (map esc s) @ [CHR 0x22]"

definition plain_char :: "char \<Rightarrow> string" where
  "plain_char c = (if 127 \<le> (of_char c :: nat) then [c] else json_char c)"

definition new_line :: "nat \<Rightarrow> string" where
  "new_line level = CHR 0x0A # replicate (2 * level) CHR '' ''"

definition json_items :: "string \<Rightarrow> string \<Rightarrow> nat \<Rightarrow> string list \<Rightarrow> string" where
  "json_items before after level items =
     (if items = [] then before @ after
      else before @ new_line (Suc level) @ join (CHR '','' # new_line (Suc level)) items @ new_line level @ after)"

fun json_text :: "(char \<Rightarrow> string) \<Rightarrow> (real \<Rightarrow> string) \<Rightarrow> nat \<Rightarrow> pyval \<Rightarrow> string" where
  "json_text esc fr level PNone = ''null''"
| "json_text esc fr level (PBool b) = (if b then ''true'' else ''false'')"
| "json_text esc fr level (PInt i) = int_str i"
| "json_text esc fr level (PFloat x) = fr x"
| "json_text esc fr level (PStr s) = json_string esc s"
| "json_text esc fr level (PList vs) = json_items ''['' '']'' level (map (json_text esc fr (Suc level)) vs)"
| "json_text esc fr level (PDict kvs) = json_items ''{'' ''}'' level
     (map (\<lambda>kt. json_string esc (fst kt) @ '': '' @ snd kt)
       (sort_key fst (map (\<lambda>kv. (fst kv, json_text esc fr (Suc level) (snd kv))) kvs)))"

section \<open>CSV\<close>

abbreviation quote_char :: char where
  "quote_char \<equiv> CHR 0x22"

definition csv_special :: "char \<Rightarrow> bool" where
  "csv_special c = (c = CHR '','' \<or> c = quote_char \<or> c = CHR 0x0D \<or> c = CHR 0x0A)"

definition csv_field :: "string \<Rightarrow> string" where
  "csv_field s =
     (if list_ex csv_special s
      then [quote_char] @ concat (map (\<lambda>c. if c = quote_char then [c, c] else [c]) s) @ [quote_char] else s)"

definition csv_row :: "string list \<Rightarrow> string" where
  "csv_row cols = join '','' (map csv_field cols) @ [CHR 0x0D, CHR 0x0A]"

definition csv_value :: "pyval \<Rightarrow> string" where
  "csv_value v = (case v of PStr s \<Rightarrow> s | PInt i \<Rightarrow> int_str i | _ \<Rightarrow> [])"

definition csv_fields :: "string list" where
  "csv_fields = [''day_key'', ''app_id'', ''app_name'', ''started_at'', ''ended_at'', ''duration_seconds'', ''reason'', ''source'']"

definition csv_record :: "pyval \<Rightarrow> string list" where
  "csv_record session = map (\<lambda>k. csv_value (entry k session)) csv_fields"

definition export :: "(real \<Rightarrow> string) \<Rightarrow> instant \<Rightarrow> string \<Rightarrow> db \<Rightarrow> py_exc + string" where
  "export fr now format_name d =
     (let sessions = list_sessions None None d
      in if format_name = ''json''
         then (case list_usage_buckets None None d of
                 Inl e \<Rightarrow> Inl e
               | Inr usage_buckets \<Rightarrow> Inr (json_text json_char fr 0 (PDict
                   [(''schema_version'', PInt 1), (''exported_at'', PStr (utc_iso now)), (''sessions'', PList sessions),
                    (''adjustments'', PList (list_adjustments None None d)), (''events'', PList (list_events None d)),
                    (''usage_buckets'', PList usage_buckets)]) @ [CHR 0x0A]))
         else if format_name = ''csv''
         then Inr (csv_row csv_fields @ concat (map (\<lambda>s. csv_row (csv_record s)) sessions))
         else Inl (ValueError ''format must be json or csv''))"

section \<open>Reading CSV\<close>

text \<open>The grammar of the dialect: what has been read of the field, of the row and of the text.\<close>

datatype csv_state = AtStart | Plain | Quoted | AfterQuote | AfterReturn

fun csv_read :: "csv_state \<Rightarrow> string \<Rightarrow> string list \<Rightarrow> string \<Rightarrow> string list list option" where
  "csv_read st cur row [] = (if st = AtStart \<and> row = [] then Some [] else None)"
| "csv_read AfterReturn cur row (c # cs) =
     (if c = CHR 0x0A then map_option ((#) (row @ [cur])) (csv_read AtStart [] [] cs) else None)"
| "csv_read Quoted cur row (c # cs) =
     (if c = quote_char then csv_read AfterQuote cur row cs else csv_read Quoted (cur @ [c]) row cs)"
| "csv_read st cur row (c # cs) =
     (if c = quote_char then (if st = AtStart then csv_read Quoted cur row cs
        else if st = AfterQuote then csv_read Quoted (cur @ [c]) row cs else None)
      else if c = CHR '','' then csv_read AtStart [] (row @ [cur]) cs
      else if c = CHR 0x0D then csv_read AfterReturn cur row cs
      else if c = CHR 0x0A \<or> st = AfterQuote then None
      else csv_read Plain (cur @ [c]) row cs)"

definition read_csv :: "string \<Rightarrow> string list list option" where
  "read_csv text = csv_read AtStart [] [] text"

text \<open>What may follow a field.\<close>

definition field_end :: "string \<Rightarrow> bool" where
  "field_end rest = (\<exists>c cs. rest = c # cs \<and> (c = CHR '','' \<or> c = CHR 0x0D))"

lemma read_plain:
  "\<not> list_ex csv_special s \<Longrightarrow> st \<in> {AtStart, Plain} \<Longrightarrow>
     csv_read st cur row (s @ rest) = csv_read (if s = [] then st else Plain) (cur @ s) row rest"
  by (induction s arbitrary: st cur) (auto simp: csv_special_def)

lemma read_quoted:
  "csv_read Quoted cur row (concat (map (\<lambda>c. if c = quote_char then [c, c] else [c]) s) @ quote_char # rest)
     = csv_read AfterQuote (cur @ s) row rest"
  by (induction s arbitrary: cur) auto

lemma read_field:
  assumes "field_end rest"
  shows "csv_read AtStart [] row (csv_field s @ rest) = csv_read Plain s row rest"
proof -
  obtain c cs where c: "rest = c # cs" "c = CHR '','' \<or> c = CHR 0x0D" using assms by (auto simp: field_end_def)
  show ?thesis
  proof (cases "list_ex csv_special s")
    case True
    then show ?thesis using c read_quoted [of "[]" row s rest] by (auto simp: csv_field_def)
  next
    case False
    then show ?thesis using c read_plain [of s AtStart "[]" row rest] by (auto simp: csv_field_def)
  qed
qed

lemma read_fields:
  "cols \<noteq> [] \<Longrightarrow> csv_read AtStart [] row (join '','' (map csv_field cols) @ [CHR 0x0D, CHR 0x0A] @ rest)
     = map_option ((#) (row @ cols)) (csv_read AtStart [] [] rest)"
proof (induction cols arbitrary: row)
  case (Cons f fs)
  show ?case
  proof (cases fs)
    case Nil
    have "csv_read AtStart [] row (csv_field f @ [CHR 0x0D, CHR 0x0A] @ rest)
      = csv_read Plain f row ([CHR 0x0D, CHR 0x0A] @ rest)"
      by (rule read_field) (simp add: field_end_def)
    with Nil show ?thesis by simp
  next
    case (Cons g gs)
    define tail where "tail = join '','' (map csv_field fs) @ [CHR 0x0D, CHR 0x0A] @ rest"
    have "csv_read AtStart [] row (csv_field f @ CHR '','' # tail) = csv_read Plain f row (CHR '','' # tail)"
      by (rule read_field) (simp add: field_end_def)
    also have "\<dots> = csv_read AtStart [] (row @ [f]) tail" by simp
    also have "\<dots> = map_option ((#) (row @ f # fs)) (csv_read AtStart [] [] rest)"
      using Cons.IH [of "row @ [f]"] \<open>fs = g # gs\<close> by (simp add: tail_def)
    finally show ?thesis using \<open>fs = g # gs\<close> by (simp add: tail_def)
  qed
qed simp

lemma read_rows:
  "[] \<notin> set rows \<Longrightarrow> csv_read AtStart [] [] (concat (map csv_row rows)) = Some rows"
proof (induction rows)
  case (Cons r rows)
  then have "csv_read AtStart [] [] (csv_row r @ concat (map csv_row rows))
      = map_option ((#) r) (csv_read AtStart [] [] (concat (map csv_row rows)))"
    using read_fields [of r "[]" "concat (map csv_row rows)"] by (auto simp: csv_row_def)
  then show ?case using Cons by simp
qed simp

text \<open>C24: The CSV export loses nothing of the columns it writes: read back with the grammar of the
  dialect, whatever quotes, commas and line ends the names contain, it gives the header and the
  eight fields of each session, newest first.\<close>

theorem csv_export_reads_back:
  "\<exists>text. export fr now ''csv'' d = Inr text
      \<and> read_csv text = Some (csv_fields # map csv_record (list_sessions None None d))"
proof -
  have "csv_read AtStart [] [] (concat (map csv_row (csv_fields # map csv_record (list_sessions None None d))))
      = Some (csv_fields # map csv_record (list_sessions None None d))"
    by (rule read_rows) (auto simp: csv_fields_def csv_record_def)
  then show ?thesis by (simp add: export_def read_csv_def o_def)
qed

end
