(* ===== verification/Activity.thy ===== *)
theory Activity
  imports Ledger
begin

text \<open>
  \<open>Storage.activity_summary\<close>: the week's play time by day, the three games played most, the
  last three sessions, and the heat map of recorded activity by blocks of four hours. The SQL
  statements are the list functions they denote: \<open>lower\<close> and \<open>NOCASE\<close> fold the ASCII
  letters only. The lemmas compare the heat map with the table, block by block.
\<close>

record top_game =
  tg_app_id :: "string option"
  tg_app_name :: string
  tg_seconds :: int
  tg_sessions :: int

record activity =
  as_start :: string
  as_end :: string
  as_days :: int
  as_timezone :: string
  as_total_seconds :: int
  as_day_totals :: "(string \<times> int) list"
  as_top_games :: "top_game list"
  as_peak :: "(string \<times> int \<times> int) option"
  as_available :: bool
  as_recorded_seconds :: int
  as_max_seconds :: int
  as_heatmap :: "(string \<times> int \<times> int list) list"
  as_recent :: "pyval list"

section \<open>Sessions of the range\<close>

definition in_range :: "('a \<Rightarrow> string) \<Rightarrow> string \<Rightarrow> string \<Rightarrow> 'a list \<Rightarrow> 'a list" where
  "in_range day start_key end_key rows = filter (\<lambda>r. start_key \<le> day r \<and> day r \<le> end_key) rows"

definition day_totals :: "session_row list \<Rightarrow> (string \<times> int) list" where
  "day_totals rows = map (\<lambda>k. (k, py_round (sum_list (map s_duration (filter (\<lambda>r. s_day_key r = k) rows)))))
     (remdups (map s_day_key rows))"

definition lookup_or_0 :: "string \<Rightarrow> (string \<times> int) list \<Rightarrow> int" where
  "lookup_or_0 k totals = (case map_of totals k of None \<Rightarrow> 0 | Some n \<Rightarrow> n)"

definition ascii_lower :: "string \<Rightarrow> string" where
  "ascii_lower s = map (\<lambda>c. let n = (of_char c :: nat) in if 65 \<le> n \<and> n \<le> 90 then char_of (n + 32) else c) s"

definition real_app_id :: "session_row \<Rightarrow> string option" where
  "real_app_id r = (case s_app_id r of Some a \<Rightarrow> if a = ''0'' then None else Some a | None \<Rightarrow> None)"

definition stable_key :: "session_row \<Rightarrow> string" where
  "stable_key r = (case real_app_id r of Some a \<Rightarrow> ''app:'' @ a | None \<Rightarrow> ''name:'' @ ascii_lower (s_app_name r))"

record game_group =
  gg_app_id :: "string option"
  gg_key :: string
  gg_name :: string
  gg_seconds :: real
  gg_sessions :: int

definition game_group_of :: "session_row list \<Rightarrow> string \<Rightarrow> game_group" where
  "game_group_of rows k =
     (let g = filter (\<lambda>r. stable_key r = k) rows
      in \<lparr>gg_app_id = real_app_id (hd g), gg_key = k, gg_name = Max (set (map s_app_name g)),
          gg_seconds = sum_list (map s_duration g), gg_sessions = int (length g)\<rparr>)"

definition top_games :: "session_row list \<Rightarrow> top_game list" where
  "top_games rows =
     map (\<lambda>g. \<lparr>tg_app_id = gg_app_id g, tg_app_name = gg_name g, tg_seconds = py_round (gg_seconds g),
               tg_sessions = gg_sessions g\<rparr>)
       (take 3 (order_desc gg_seconds (sort_key (\<lambda>g. ascii_lower (gg_name g)) (sort_key gg_key
         (map (game_group_of rows) (remdups (map stable_key rows)))))))"

definition recent_session :: "session_row \<Rightarrow> pyval" where
  "recent_session r = PDict
     [(''id'', PStr (s_id r)), (''day_key'', PStr (s_day_key r)), (''app_id'', popt PStr (s_app_id r)),
      (''app_name'', PStr (s_app_name r)), (''started_at'', PStr (s_started_at r)),
      (''ended_at'', popt PStr (s_ended_at r)), (''duration_seconds'', PInt (py_round (s_duration r))),
      (''reason'', popt PStr (s_reason r))]"

section \<open>The heat map\<close>

definition heatmap_rows :: "bucket_row list \<Rightarrow> (string \<times> int \<times> real) list" where
  "heatmap_rows rows = map (\<lambda>(k, i). (k, i, sum_list (map b_seconds (filter (\<lambda>b. b_day_key b = k \<and> b_index b = i) rows))))
     (remdups (map (\<lambda>b. (b_day_key b, b_index b)) rows))"

fun fill_heatmap :: "(string \<times> int \<times> real) list \<Rightarrow> (string \<times> int list) list \<Rightarrow> py_exc + (string \<times> int list) list" where
  "fill_heatmap [] by_day = Inr by_day"
| "fill_heatmap ((k, i, seconds) # rest) by_day =
     (case map_of by_day k of
        None \<Rightarrow> Inl (KeyError k)
      | Some values \<Rightarrow> fill_heatmap rest (alist_set k (values[nat i := py_round seconds]) by_day))"

definition better_peak :: "string \<times> int \<times> int \<Rightarrow> (string \<times> int \<times> int) option \<Rightarrow> (string \<times> int \<times> int) option" where
  "better_peak cell peak =
     (case cell of (k, i, seconds) \<Rightarrow>
        if seconds \<le> 0 then peak
        else (case peak of
                None \<Rightarrow> Some cell
              | Some (pk, pj, ps) \<Rightarrow>
                  if ps < seconds \<or> seconds = ps \<and> (pk < k \<or> pk = k \<and> pj < i) then Some cell else peak))"

definition heatmap_cells :: "(string \<times> int list) list \<Rightarrow> (string \<times> int \<times> int) list" where
  "heatmap_cells by_day = concat (map (\<lambda>(k, values). map (\<lambda>(i, v). (k, int i, v)) (enumerate 0 values)) by_day)"

definition activity_summary :: "date \<Rightarrow> int \<Rightarrow> string \<Rightarrow> db \<Rightarrow> py_exc + activity" where
  "activity_summary end_day days timezone d =
     (if \<not> (1 \<le> days \<and> days \<le> 366) then Inl (ValueError ''days must be between 1 and 366'')
      else if str_strip timezone = [] \<or> length timezone > 128
      then Inl (ValueError ''timezone must contain 1..128 characters'')
      else let start_day = end_day - (days - 1) in
        if start_day < 1 then Inl (OverflowError ''date value out of range'')
        else
        let start_key = date_isoformat start_day; end_key = date_isoformat end_day;
            day_keys = map (\<lambda>offset. date_isoformat (start_day + int offset)) [0..<nat days];
            rows = in_range s_day_key start_key end_key (sessions d);
            totals = day_totals rows;
            heat = heatmap_rows (in_range b_day_key start_key end_key (buckets d))
        in (case fill_heatmap heat (map (\<lambda>k. (k, replicate 6 0)) day_keys) of
              Inl e \<Rightarrow> Inl e
            | Inr by_day \<Rightarrow> Inr
                \<lparr>as_start = start_key, as_end = end_key, as_days = days, as_timezone = timezone,
                 as_total_seconds = sum_list (map snd totals),
                 as_day_totals = map (\<lambda>k. (k, lookup_or_0 k totals)) day_keys,
                 as_top_games = top_games rows,
                 as_peak = fold better_peak (heatmap_cells by_day) None,
                 as_available = (heat \<noteq> []),
                 as_recorded_seconds = sum_list (map (\<lambda>(k, i, seconds). py_round seconds) heat),
                 as_max_seconds = (case concat (map snd by_day) of [] \<Rightarrow> 0 | v # vs \<Rightarrow> Max (set (v # vs))),
                 as_heatmap = map (\<lambda>(k, values). (k, lookup_or_0 k totals, values)) by_day,
                 as_recent = map recent_session (take 3 (order_desc s_started_at rows))\<rparr>))"

section \<open>The heat map and the table\<close>

text \<open>The reference: the seconds of one block, added up over the games.\<close>

definition block_total :: "string \<Rightarrow> int \<Rightarrow> bucket_row list \<Rightarrow> real" where
  "block_total k i bs = sum_list (map b_seconds (filter (\<lambda>b. b_day_key b = k \<and> b_index b = i) bs))"

definition day_total :: "string \<Rightarrow> session_row list \<Rightarrow> real" where
  "day_total k rows = sum_list (map s_duration (filter (\<lambda>r. s_day_key r = k) rows))"

lemma map_of_map_pair: "map_of (map (\<lambda>k. (k, f k)) ks) k = (if k \<in> set ks then Some (f k) else None)"
  by (induction ks) auto

lemma lookup_day_totals: "lookup_or_0 k (day_totals rows) = py_round (day_total k rows)"
proof (cases "k \<in> set (map s_day_key rows)")
  case False
  then have "filter (\<lambda>r. s_day_key r = k) rows = []" by (auto simp: filter_empty_conv)
  with False show ?thesis
    unfolding lookup_or_0_def day_totals_def map_of_map_pair day_total_def
    using py_round_of_int [of 0] by simp
qed (simp add: lookup_or_0_def day_totals_def map_of_map_pair day_total_def)

lemma sum_supported:
  fixes f :: "'a \<Rightarrow> int"
  assumes "distinct xs" "distinct ys" "set xs \<subseteq> set ys" "\<And>y. y \<in> set ys \<Longrightarrow> y \<notin> set xs \<Longrightarrow> f y = 0"
  shows "sum_list (map f xs) = sum_list (map f ys)"
proof -
  have "sum f (set xs) = sum f (set ys)"
    using assms by (intro sum.mono_neutral_left) auto
  then show ?thesis using assms(1,2) by (simp add: sum_list_distinct_conv_sum_set)
qed

text \<open>What filling leaves in each block.\<close>

lemma fill_keys: "fill_heatmap rows by_day = Inr out \<Longrightarrow> map fst out = map fst by_day"
proof (induction rows by_day rule: fill_heatmap.induct)
  case (2 k i seconds rest by_day)
  have "map fst (alist_set k v by_day) = map fst by_day" if "map_of by_day k = Some w" for v w
    using that by (induction k v by_day rule: alist_set.induct) (auto split: if_splits)
  with 2 show ?case by (auto split: option.splits)
qed simp

definition cell :: "string \<Rightarrow> int \<Rightarrow> (string \<times> int list) list \<Rightarrow> int" where
  "cell k i by_day = (case map_of by_day k of None \<Rightarrow> 0 | Some values \<Rightarrow> values ! nat i)"

definition six_blocks :: "(string \<times> int list) list \<Rightarrow> bool" where
  "six_blocks by_day = (\<forall>kv \<in> set by_day. length (snd kv) = 6)"

lemma fill_cells:
  assumes "\<forall>r \<in> set rows. fst r \<in> fst ` set by_day \<and> 0 \<le> fst (snd r) \<and> fst (snd r) < 6"
    and "distinct (map (\<lambda>r. (fst r, fst (snd r))) rows)" and "six_blocks by_day"
  shows "\<exists>out. fill_heatmap rows by_day = Inr out \<and> six_blocks out \<and> (\<forall>k i. 0 \<le> i \<and> i < 6 \<longrightarrow> cell k i out =
     (case map_of (map (\<lambda>r. ((fst r, fst (snd r)), snd (snd r))) rows) (k, i) of
        None \<Rightarrow> cell k i by_day | Some s \<Rightarrow> py_round s))"
  using assms
proof (induction rows by_day rule: fill_heatmap.induct)
  case (2 k i seconds rest by_day)
  obtain vals where v: "map_of by_day k = Some vals"
    using "2.prems"(1) by (cases "map_of by_day k") (auto simp: map_of_eq_None_iff)
  define nxt where "nxt = alist_set k (vals[nat i := py_round seconds]) by_day"
  have six: "length vals = 6"
    using "2.prems"(3) v by (auto simp: six_blocks_def dest!: map_of_SomeD)
  have nxt: "six_blocks nxt" "fst ` set nxt = fst ` set by_day"
    using "2.prems"(3) six set_alist_set [of k "vals[nat i := py_round seconds]" by_day]
      keys_alist_set [of k "vals[nat i := py_round seconds]" by_day] "2.prems"(1)
    by (auto simp: nxt_def six_blocks_def)
  obtain out where out: "fill_heatmap rest nxt = Inr out" "six_blocks out"
    "\<forall>k i. 0 \<le> i \<and> i < 6 \<longrightarrow> cell k i out =
     (case map_of (map (\<lambda>r. ((fst r, fst (snd r)), snd (snd r))) rest) (k, i) of
        None \<Rightarrow> cell k i nxt | Some s \<Rightarrow> py_round s)"
    using "2.IH" [OF v] "2.prems" nxt unfolding nxt_def by auto
  have fresh: "map_of (map (\<lambda>r. ((fst r, fst (snd r)), snd (snd r))) rest) (k, i) = None"
    using "2.prems"(2) by (force simp: map_of_eq_None_iff)
  have cell_nxt: "cell k' j nxt = (if k' = k \<and> j = i then py_round seconds else cell k' j by_day)"
    if "0 \<le> j" "j < 6" for k' j
    using that v six "2.prems"(1) by (auto simp: cell_def nxt_def nth_list_update)
  show ?case
    using out v fresh cell_nxt by (intro exI [of _ out]) (auto simp: nxt_def split: option.splits)
qed simp

lemma map_of_heatmap_rows:
  "map_of (map (\<lambda>r. ((fst r, fst (snd r)), snd (snd r))) (heatmap_rows rows)) (k, i) =
     (if (k, i) \<in> (\<lambda>b. (b_day_key b, b_index b)) ` set rows then Some (block_total k i rows) else None)"
proof -
  have "map (\<lambda>r. ((fst r, fst (snd r)), snd (snd r))) (heatmap_rows rows)
    = map (\<lambda>x. (x, block_total (fst x) (snd x) rows)) (remdups (map (\<lambda>b. (b_day_key b, b_index b)) rows))"
    by (simp add: heatmap_rows_def block_total_def case_prod_beta)
  then show ?thesis by (simp add: map_of_map_pair)
qed

lemma block_total_absent: "(k, i) \<notin> (\<lambda>b. (b_day_key b, b_index b)) ` set rows \<Longrightarrow> block_total k i rows = 0"
proof -
  assume "(k, i) \<notin> (\<lambda>b. (b_day_key b, b_index b)) ` set rows"
  then have "filter (\<lambda>b. b_day_key b = k \<and> b_index b = i) rows = []" by (auto simp: filter_empty_conv)
  then show ?thesis by (simp add: block_total_def)
qed

definition heat_of :: "bucket_row list \<Rightarrow> string \<Rightarrow> int list" where
  "heat_of rows k = map (\<lambda>i. py_round (block_total k i rows)) [0..5]"

lemma py_round_0 [simp]: "py_round 0 = 0"
  using py_round_of_int [of 0] by simp

lemma fill_is_reference:
  assumes "distinct ks" "\<forall>b \<in> set rows. b_day_key b \<in> set ks \<and> 0 \<le> b_index b \<and> b_index b < 6"
  shows "fill_heatmap (heatmap_rows rows) (map (\<lambda>k. (k, replicate 6 0)) ks) = Inr (map (\<lambda>k. (k, heat_of rows k)) ks)"
proof -
  let ?zero = "map (\<lambda>k. (k, replicate 6 0)) ks :: (string \<times> int list) list"
  have "\<forall>r \<in> set (heatmap_rows rows). fst r \<in> fst ` set ?zero \<and> 0 \<le> fst (snd r) \<and> fst (snd r) < 6"
    using assms(2) by (auto simp: heatmap_rows_def image_image)
  moreover have "distinct (map (\<lambda>r. (fst r, fst (snd r))) (heatmap_rows rows))"
    by (simp add: heatmap_rows_def o_def case_prod_beta)
  moreover have "six_blocks ?zero" by (simp add: six_blocks_def)
  ultimately obtain out where out: "fill_heatmap (heatmap_rows rows) ?zero = Inr out" "six_blocks out"
    and filled: "\<forall>k i. 0 \<le> i \<and> i < 6 \<longrightarrow> cell k i out =
     (case map_of (map (\<lambda>r. ((fst r, fst (snd r)), snd (snd r))) (heatmap_rows rows)) (k, i) of
        None \<Rightarrow> cell k i ?zero | Some s \<Rightarrow> py_round s)"
    using fill_cells [of "heatmap_rows rows" ?zero] by blast
  have zero: "cell k i ?zero = 0" if "0 \<le> i" "i < 6" for k i
    using that by (simp add: cell_def map_of_map_pair)
  have cells: "cell k i out = py_round (block_total k i rows)" if "0 \<le> i" "i < 6" for k i
    using filled that zero [of i k] block_total_absent [of k i rows] unfolding map_of_heatmap_rows by auto
  have keys: "map fst out = ks" using fill_keys [OF out(1)] by (simp add: o_def)
  have "out = map (\<lambda>k. (k, heat_of rows k)) (map fst out)"
  proof (rule nth_equalityI)
    fix n assume "n < length out"
    then obtain k vs where kv: "out ! n = (k, vs)" "(k, vs) \<in> set out" by (cases "out ! n") (metis nth_mem)
    then have lookup: "map_of out k = Some vs" using keys assms(1) by (simp add: map_of_eq_Some_iff)
    have "length vs = 6" using kv(2) out(2) by (auto simp: six_blocks_def)
    moreover have "vs ! j = heat_of rows k ! j" if "j < 6" for j
      using cells [of "int j" k] lookup that by (simp add: cell_def heat_of_def nth_upto)
    ultimately have "vs = heat_of rows k" by (intro nth_equalityI) (simp_all add: heat_of_def)
    then show "out ! n = map (\<lambda>k. (k, heat_of rows k)) (map fst out) ! n"
      using kv(1) \<open>n < length out\<close> by simp
  qed simp
  then show ?thesis using out(1) keys by simp
qed

text \<open>The peak is the largest cell, the latest of those that tie.\<close>

definition cell_le :: "string \<times> int \<times> int \<Rightarrow> string \<times> int \<times> int \<Rightarrow> bool" where
  "cell_le c c' = (snd (snd c) < snd (snd c') \<or> snd (snd c) = snd (snd c')
     \<and> (fst c < fst c' \<or> fst c = fst c' \<and> fst (snd c) \<le> fst (snd c')))"

definition is_peak :: "(string \<times> int \<times> int) list \<Rightarrow> (string \<times> int \<times> int) option \<Rightarrow> bool" where
  "is_peak cells peak = (case peak of
      None \<Rightarrow> (\<forall>c \<in> set cells. snd (snd c) \<le> 0)
    | Some p \<Rightarrow> p \<in> set cells \<and> 0 < snd (snd p) \<and> (\<forall>c \<in> set cells. cell_le c p))"

lemma cell_le_trans: "cell_le a b \<Longrightarrow> cell_le b c \<Longrightarrow> cell_le a c"
  by (auto simp: cell_le_def)

lemma better_peak_step: "is_peak cells peak \<Longrightarrow> is_peak (cells @ [c]) (better_peak c peak)"
proof -
  assume peak: "is_peak cells peak"
  obtain k i s where c: "c = (k, i, s)" by (cases c)
  show ?thesis
  proof (cases peak)
    case None
    then show ?thesis using peak c by (auto simp: is_peak_def better_peak_def cell_le_def)
  next
    case (Some p)
    obtain pk pj ps where p: "p = (pk, pj, ps)" by (cases p)
    have old: "0 < ps" "\<And>x. x \<in> set cells \<Longrightarrow> cell_le x p" "p \<in> set cells"
      using peak Some p by (auto simp: is_peak_def)
    have "cell_le c p \<or> cell_le p c \<and> c \<noteq> p"
      using less_linear [of k pk] less_linear [of i pj] less_linear [of s ps] c p by (auto simp: cell_le_def)
    then consider "s \<le> 0" | "0 < s" "cell_le p c" "c \<noteq> p" | "0 < s" "cell_le c p"
      by force
    then show ?thesis
    proof cases
      case 1
      then have "better_peak c peak = Some p" "cell_le c p"
        using c p Some old(1) by (auto simp: better_peak_def cell_le_def)
      then show ?thesis using old p by (simp add: is_peak_def)
    next
      case 2
      then have "better_peak c peak = Some c" "cell_le c c"
        using c p Some by (auto simp: better_peak_def cell_le_def)
      moreover have "cell_le x c" if "x \<in> set cells" for x
        by (rule cell_le_trans [OF old(2) [OF that] 2(2)])
      ultimately show ?thesis using 2 c by (simp add: is_peak_def)
    next
      case 3
      then have "better_peak c peak = Some p"
        using c p Some by (auto simp: better_peak_def cell_le_def)
      then show ?thesis using old p 3 by (simp add: is_peak_def)
    qed
  qed
qed

lemma fold_peak: "is_peak cells (fold better_peak cells None)"
  by (induction cells rule: rev_induct) (simp add: is_peak_def, simp add: better_peak_step)

section \<open>The summary\<close>

text \<open>Every row is filed under the date of a day, as the engine's day keys are.\<close>

definition dated :: "db \<Rightarrow> bool" where
  "dated d = ((\<forall>k \<in> s_day_key ` set (sessions d) \<union> b_day_key ` set (buckets d). \<exists>n. valid_date n \<and> k = date_isoformat n))"

definition range_keys :: "date \<Rightarrow> int \<Rightarrow> string list" where
  "range_keys end_day days = map (\<lambda>offset. date_isoformat (end_day - (days - 1) + int offset)) [0..<nat days]"

lemma range_keys_props:
  assumes "valid_date (end_day - (days - 1))" "valid_date end_day" "1 \<le> days"
  shows "distinct (range_keys end_day days)"
    and "k \<in> set (range_keys end_day days) \<Longrightarrow> \<exists>n. valid_date n \<and> k = date_isoformat n"
    and "(\<exists>n. valid_date n \<and> k = date_isoformat n) \<Longrightarrow>
      k \<in> set (range_keys end_day days) \<longleftrightarrow> date_isoformat (end_day - (days - 1)) \<le> k \<and> k \<le> date_isoformat end_day"
proof -
  have v: "valid_date (end_day - (days - 1) + int i)" if "i < nat days" for i
    using assms that by (auto simp: valid_date_def)
  show "distinct (range_keys end_day days)"
    unfolding range_keys_def distinct_map
  proof (intro conjI inj_onI)
    fix i j assume "i \<in> set [0..<nat days]" "j \<in> set [0..<nat days]"
      "date_isoformat (end_day - (days - 1) + int i) = date_isoformat (end_day - (days - 1) + int j)"
    then show "i = j" using date_isoformat_inj [OF v [of i] v [of j]] by simp
  qed simp
  show "k \<in> set (range_keys end_day days) \<Longrightarrow> \<exists>n. valid_date n \<and> k = date_isoformat n"
  proof -
    assume "k \<in> set (range_keys end_day days)"
    then obtain i where "i < nat days" "k = date_isoformat (end_day - (days - 1) + int i)"
      by (auto simp: range_keys_def)
    then show ?thesis using v [of i] by blast
  qed
  assume "\<exists>n. valid_date n \<and> k = date_isoformat n"
  then obtain n where n: "valid_date n" "k = date_isoformat n" by blast
  have le: "date_isoformat a \<le> date_isoformat b \<longleftrightarrow> a \<le> b" if "valid_date a" "valid_date b" for a b
    using date_isoformat_less [OF that(2,1)] by (simp add: not_less [symmetric])
  have "k \<in> set (range_keys end_day days) \<longleftrightarrow> end_day - (days - 1) \<le> n \<and> n \<le> end_day"
  proof
    assume "end_day - (days - 1) \<le> n \<and> n \<le> end_day"
    then have "nat (n - (end_day - (days - 1))) < nat days"
      "k = date_isoformat (end_day - (days - 1) + int (nat (n - (end_day - (days - 1)))))"
      using n by auto
    then show "k \<in> set (range_keys end_day days)"
      unfolding range_keys_def set_map by (intro image_eqI [where x = "nat (n - (end_day - (days - 1)))"]) auto
  next
    assume "k \<in> set (range_keys end_day days)"
    then obtain i where "i < nat days" "date_isoformat n = date_isoformat (end_day - (days - 1) + int i)"
      using n by (auto simp: range_keys_def)
    then have "n = end_day - (days - 1) + int i" using date_isoformat_inj n(1) v by blast
    then show "end_day - (days - 1) \<le> n \<and> n \<le> end_day" using \<open>i < nat days\<close> by auto
  qed
  then show "k \<in> set (range_keys end_day days) \<longleftrightarrow> date_isoformat (end_day - (days - 1)) \<le> k \<and> k \<le> date_isoformat end_day"
    using le n assms(1,2) by simp
qed

text \<open>The reference summary: what each day and block of the range holds in the tables.\<close>

definition days_of :: "date \<Rightarrow> int \<Rightarrow> db \<Rightarrow> (string \<times> int) list" where
  "days_of end_day days d = map (\<lambda>k. (k, py_round (day_total k (sessions d)))) (range_keys end_day days)"

definition heat_map_of :: "date \<Rightarrow> int \<Rightarrow> db \<Rightarrow> (string \<times> int list) list" where
  "heat_map_of end_day days d = map (\<lambda>k. (k, heat_of (buckets d) k)) (range_keys end_day days)"

lemma filter_in_range:
  "a \<le> k \<Longrightarrow> k \<le> b \<Longrightarrow> filter (\<lambda>r. day r = k \<and> Q r) (in_range day a b rows) = filter (\<lambda>r. day r = k \<and> Q r) rows"
  unfolding in_range_def filter_filter by (rule filter_cong) auto

lemma heat_sum:
  "sum_list (concat (map snd (map (\<lambda>k. (k, heat_of bs k)) ks)))
     = sum_list (map (\<lambda>(k, i). py_round (block_total k i bs)) (List.product ks [0..5]))"
  by (induction ks) (simp_all add: heat_of_def o_def)

lemma activity_is_reference:
  assumes "dated d" "\<forall>b \<in> set (buckets d). 0 \<le> b_index b \<and> b_index b < 6"
    and "valid_date (end_day - (days - 1))" "valid_date end_day" "1 \<le> days" "days \<le> 366"
    and "str_strip timezone \<noteq> []" "length timezone \<le> 128"
  shows "\<exists>a. activity_summary end_day days timezone d = Inr a
    \<and> as_day_totals a = days_of end_day days d
    \<and> as_total_seconds a = sum_list (map snd (days_of end_day days d))
    \<and> map (\<lambda>(k, t, vs). (k, vs)) (as_heatmap a) = heat_map_of end_day days d
    \<and> as_recorded_seconds a = sum_list (concat (map snd (heat_map_of end_day days d)))
    \<and> is_peak (heatmap_cells (heat_map_of end_day days d)) (as_peak a)"
proof -
  define ks where "ks = range_keys end_day days"
  define a where "a = date_isoformat (end_day - (days - 1))"
  define b where "b = date_isoformat end_day"
  define rows where "rows = in_range s_day_key a b (sessions d)"
  define bs where "bs = in_range b_day_key a b (buckets d)"
  note keys = range_keys_props [OF assms(3-5), folded ks_def a_def b_def]
  have in_ks: "a \<le> k \<and> k \<le> b" if "k \<in> set ks" for k
    using keys(3) [OF keys(2) [OF that]] that by simp
  have day: "day_total k rows = day_total k (sessions d)" if "k \<in> set ks" for k
    using in_ks [OF that] filter_in_range [of a k b s_day_key "\<lambda>_. True" "sessions d"]
    by (simp add: day_total_def rows_def)
  have block: "block_total k i bs = block_total k i (buckets d)" if "k \<in> set ks" for k i
    using in_ks [OF that] filter_in_range [of a k b b_day_key "\<lambda>r. b_index r = i" "buckets d"]
    by (simp add: block_total_def bs_def)
  have blocks_ok: "\<forall>b \<in> set bs. b_day_key b \<in> set ks \<and> 0 \<le> b_index b \<and> b_index b < 6"
    using assms(1,2) keys(3) by (auto simp: bs_def in_range_def dated_def)
  from blocks_ok have "fill_heatmap (heatmap_rows bs) (map (\<lambda>k. (k, replicate 6 0)) ks) = Inr (map (\<lambda>k. (k, heat_of bs k)) ks)"
    by (rule fill_is_reference [OF keys(1)])
  moreover have heat: "map (\<lambda>k. (k, heat_of bs k)) ks = heat_map_of end_day days d"
    by (simp add: heat_map_of_def ks_def [symmetric] heat_of_def block)
  ultimately have fill: "fill_heatmap (heatmap_rows bs) (map (\<lambda>k. (k, replicate 6 0)) ks) = Inr (heat_map_of end_day days d)"
    by simp
  have totals: "map (\<lambda>k. (k, lookup_or_0 k (day_totals rows))) ks = days_of end_day days d"
    by (simp add: lookup_day_totals days_of_def ks_def [symmetric] day)
  have days_here: "days_of end_day days d = map (\<lambda>k. (k, py_round (day_total k rows))) ks"
    unfolding totals [symmetric] by (simp add: lookup_day_totals)
  have "sum_list (map (\<lambda>k. py_round (day_total k rows)) (remdups (map s_day_key rows)))
      = sum_list (map (\<lambda>k. py_round (day_total k rows)) ks)"
  proof (rule sum_supported)
    show "set (remdups (map s_day_key rows)) \<subseteq> set ks"
      using assms(1) keys(3) by (auto simp: rows_def in_range_def dated_def)
    fix k assume "k \<notin> set (remdups (map s_day_key rows))"
    then have "filter (\<lambda>r. s_day_key r = k) rows = []" by (auto simp: filter_empty_conv)
    then show "py_round (day_total k rows) = 0" by (simp add: day_total_def)
  qed (simp_all add: keys(1))
  then have total: "sum_list (map snd (day_totals rows)) = sum_list (map snd (days_of end_day days d))"
    unfolding days_here by (simp add: day_totals_def day_total_def [symmetric] o_def)
  have "sum_list (map (\<lambda>(k, i). py_round (block_total k i bs)) (remdups (map (\<lambda>b. (b_day_key b, b_index b)) bs)))
      = sum_list (map (\<lambda>(k, i). py_round (block_total k i bs)) (List.product ks [0..5]))"
  proof (rule sum_supported)
    show "set (remdups (map (\<lambda>b. (b_day_key b, b_index b)) bs)) \<subseteq> set (List.product ks [0..5])"
      using blocks_ok by auto
    fix ki assume "ki \<notin> set (remdups (map (\<lambda>b. (b_day_key b, b_index b)) bs))"
    then show "(case ki of (k, i) \<Rightarrow> py_round (block_total k i bs)) = 0"
      using block_total_absent [of _ _ bs] by (cases ki) simp
  qed (simp_all add: keys(1) distinct_product)
  moreover have "map (\<lambda>(k, i, seconds). py_round seconds) (heatmap_rows bs)
      = map (\<lambda>(k, i). py_round (block_total k i bs)) (remdups (map (\<lambda>b. (b_day_key b, b_index b)) bs))"
    by (simp add: heatmap_rows_def block_total_def split_def)
  ultimately have recorded: "sum_list (map (\<lambda>(k, i, seconds). py_round seconds) (heatmap_rows bs))
      = sum_list (concat (map snd (heat_map_of end_day days d)))"
    unfolding heat [symmetric] heat_sum by simp
  show ?thesis
    using assms(3-8) fill totals total recorded fold_peak [of "heatmap_cells (heat_map_of end_day days d)"]
    by (simp add: activity_summary_def Let_def valid_date_def ks_def range_keys_def a_def b_def rows_def bs_def
        o_def case_prod_beta)
qed

text \<open>C23: The activity summary agrees with the tables: its day totals are the rounded durations of
  each day of the range, its total is their sum, each block of its heat map is the rounded time
  recorded for that block by all games, the recorded time is the sum of the heat map, and the peak
  is its largest positive block, the latest of those that tie.\<close>

theorem activity_agrees_with_tables:
  assumes "dated d" and "\<forall>b \<in> set (buckets d). 0 \<le> b_index b \<and> b_index b < 6"
    and "valid_date (end_day - (days - 1))" and "valid_date end_day" and "1 \<le> days" and "days \<le> 366"
    and "str_strip timezone \<noteq> []" and "length timezone \<le> 128"
  shows "\<exists>a. activity_summary end_day days timezone d = Inr a
    \<and> as_day_totals a = days_of end_day days d
    \<and> as_total_seconds a = sum_list (map snd (days_of end_day days d))
    \<and> map (\<lambda>(k, t, vs). (k, vs)) (as_heatmap a) = heat_map_of end_day days d
    \<and> as_recorded_seconds a = sum_list (concat (map snd (heat_map_of end_day days d)))
    \<and> is_peak (heatmap_cells (heat_map_of end_day days d)) (as_peak a)"
  by (rule activity_is_reference [OF assms])

definition activity_tables :: db where
  "activity_tables = (empty_db (\<lambda>n. replicate (Suc n) CHR ''u''))\<lparr>buckets :=
     [\<lparr>b_day_key = date_isoformat 738000, b_index = 3, b_app_key = ''app:620'', b_app_id = Some ''620'',
       b_app_name = ''Portal 2'', b_seconds = 90\<rparr>]\<rparr>"

theorem activity_agrees_with_tables_demo:
  "\<exists>a. activity_summary 738000 1 ''UTC'' activity_tables = Inr a \<and> as_recorded_seconds a = 90"
proof -
  have "dated activity_tables"
    by (auto simp: dated_def activity_tables_def empty_db_def valid_date_def max_ordinal_def intro!: exI [of _ 738000])
  moreover have "str_strip ''UTC'' \<noteq> []" by code_simp
  moreover have "sum_list (concat (map snd (heat_map_of 738000 1 activity_tables))) = 90"
    using py_round_of_int [of 90]
    by (simp add: heat_map_of_def heat_of_def range_keys_def activity_tables_def empty_db_def block_total_def upto.simps)
  ultimately show ?thesis
    using activity_agrees_with_tables [of activity_tables 738000 1 "''UTC''"]
    by (fastforce simp: valid_date_def max_ordinal_def activity_tables_def empty_db_def)
qed

end
