(* ===== verification/Service.thy ===== *)
theory Service
  imports Enforcement Settings Detectors EventBus Activity Export EngineRun
begin

text \<open>
  \<open>service.py\<close>: the service that owns the components. A request or a detector event is one
  program over the service's state; the lock makes its engine part atomic, and the model runs the
  dispatch of its events right after it. The event bus, the enforcement manager and the native
  notifications are part of the state; log records are not. The lemmas at the end say what a
  dispatch does to each of them.
\<close>

section \<open>State\<close>

record notification =
  nt_title :: string
  nt_body :: string
  nt_urgency :: string
  nt_persistent :: bool

record service =
  sv_settings :: pyval
  sv_config :: config
  sv_engine :: engine
  sv_manager :: manager
  sv_bus :: "pyval event_bus"
  sv_notices :: "notification list"
  sv_notifier_enabled :: bool
  sv_heartbeat :: "real option"
  sv_decky_signal :: "real option"
  sv_simulation :: bool
  sv_tick_wake :: bool

text \<open>What the service is given from outside: the zone database and the system's zone, how a float
  is written, the version, the process id, and the diagnostics.\<close>

record surrounding =
  ex_zoneinfo :: "pyval \<Rightarrow> zone_answer"
  ex_system_zone :: zone
  ex_float_repr :: "real \<Rightarrow> string"
  ex_version :: string
  ex_pid :: int

type_synonym 'a service_prog = "(service, 'a) prog"

definition with_engine :: "'a engine_prog \<Rightarrow> 'a service_prog" where
  "with_engine m = (\<lambda>s. case m (sv_engine s) of (r, e) \<Rightarrow> (r, s\<lparr>sv_engine := e\<rparr>))"

section \<open>Reading request parameters\<close>

definition param :: "string \<Rightarrow> pyval \<Rightarrow> (string \<times> pyval) list \<Rightarrow> pyval" where
  "param key fallback params = (case map_of params key of None \<Rightarrow> fallback | Some v \<Rightarrow> v)"

definition invalid_params :: "string \<Rightarrow> py_exc" where
  "invalid_params message = RpcError ''invalid_params'' message"

definition require_dict :: "(string \<times> pyval) list \<Rightarrow> string \<Rightarrow> py_exc + (string \<times> pyval) list" where
  "require_dict params key =
     (case param key PNone params of PDict kvs \<Rightarrow> Inr kvs
      | _ \<Rightarrow> Inl (invalid_params (key @ '' must be an object'')))"

definition require_text :: "(string \<times> pyval) list \<Rightarrow> string \<Rightarrow> nat \<Rightarrow> nat \<Rightarrow> py_exc + string" where
  "require_text params key least most =
     (let failure = Inl (invalid_params (key @ '' must contain '' @ nat_str least @ ''..'' @ nat_str most @ '' characters''))
      in case param key PNone params of
           PStr s \<Rightarrow> if least \<le> length (str_strip s) \<and> length (str_strip s) \<le> most then Inr (str_strip s) else failure
         | _ \<Rightarrow> failure)"

definition require_int :: "(string \<times> pyval) list \<Rightarrow> string \<Rightarrow> int \<Rightarrow> int \<Rightarrow> pyval \<Rightarrow> py_exc + int" where
  "require_int params key least most fallback =
     (let failure = Inl (invalid_params (key @ '' must be an integer from '' @ int_str least @ '' to '' @ int_str most))
      in case param key fallback params of
           PInt i \<Rightarrow> if least \<le> i \<and> i \<le> most then Inr i else failure
         | _ \<Rightarrow> failure)"

definition require_bool :: "(string \<times> pyval) list \<Rightarrow> string \<Rightarrow> pyval \<Rightarrow> py_exc + bool" where
  "require_bool params key fallback =
     (case param key fallback params of PBool b \<Rightarrow> Inr b
      | _ \<Rightarrow> Inl (invalid_params (key @ '' must be boolean'')))"

text \<open>\<open>str(value)\<close>\<close>

definition py_str :: "(real \<Rightarrow> string) \<Rightarrow> pyval \<Rightarrow> string" where
  "py_str fr v = (case v of PStr s \<Rightarrow> s | _ \<Rightarrow> py_repr fr v)"

definition optional_app_id :: "(real \<Rightarrow> string) \<Rightarrow> pyval \<Rightarrow> py_exc + string option" where
  "optional_app_id fr v =
     (let failure = Inl (invalid_params ''app_id must be a decimal string'')
      in if v = PNone \<or> v = PStr [] then Inr None
         else if is_bool v then failure
         else let text = py_str fr v in if 32 < length text \<or> \<not> str_isdigit text then failure else Inr (Some text))"

fun collect_pids :: "pyval list \<Rightarrow> int list \<Rightarrow> py_exc + int list" where
  "collect_pids [] result = Inr result"
| "collect_pids (item # rest) result =
     (case item of
        PInt i \<Rightarrow> if i \<le> 0 then Inl (invalid_params ''pids must contain positive integers'')
                  else collect_pids rest (if i \<in> set result then result else result @ [i])
      | _ \<Rightarrow> Inl (invalid_params ''pids must contain positive integers''))"

definition require_pids :: "pyval \<Rightarrow> py_exc + int list" where
  "require_pids v =
     (case v of
        PList items \<Rightarrow> if 256 < length items then Inl (invalid_params ''pids must be a list with at most 256 entries'')
                       else collect_pids items []
      | _ \<Rightarrow> Inl (invalid_params ''pids must be a list with at most 256 entries''))"

definition validate_day_key :: "string \<Rightarrow> py_exc + string" where
  "validate_day_key value =
     (case date_fromisoformat value of
        None \<Rightarrow> Inl (invalid_params ''day must use YYYY-MM-DD'') | Some n \<Rightarrow> Inr (date_isoformat n))"

section \<open>Dispatch\<close>

definition publish_event :: "domain_event \<Rightarrow> unit service_prog" where
  "publish_event event = modify (\<lambda>s. s\<lparr>sv_bus := publish (event_to_dict event) (sv_bus s)\<rparr>)"

definition send_notice :: "notification \<Rightarrow> unit service_prog" where
  "send_notice n = modify (\<lambda>s. if sv_notifier_enabled s then s\<lparr>sv_notices := sv_notices s @ [n]\<rparr> else s)"

definition py_truth :: "pyval \<Rightarrow> bool" where
  "py_truth v = (case v of PNone \<Rightarrow> False | PBool b \<Rightarrow> b | PInt i \<Rightarrow> i \<noteq> 0 | PFloat x \<Rightarrow> x \<noteq> 0
     | PStr s \<Rightarrow> s \<noteq> [] | PList vs \<Rightarrow> vs \<noteq> [] | PDict kvs \<Rightarrow> kvs \<noteq> [])"

definition payload_get :: "string \<Rightarrow> pyval \<Rightarrow> domain_event \<Rightarrow> pyval" where
  "payload_get key fallback event = (case dict_get key (e_payload event) of None \<Rightarrow> fallback | Some v \<Rightarrow> v)"

definition warning_notice :: "surrounding \<Rightarrow> domain_event \<Rightarrow> notification" where
  "warning_notice ex event = (let text = (\<lambda>key fallback. py_str (ex_float_repr ex) (payload_get key (PStr fallback) event))
     in \<lparr>nt_title = text ''title'' ''SteamOS Time Guardian'', nt_body = text ''body'' [],
         nt_urgency = text ''urgency'' ''normal'', nt_persistent = py_truth (payload_get ''persistent'' (PBool False) event)\<rparr>)"

definition restriction_notice :: "string \<Rightarrow> int \<Rightarrow> notification" where
  "restriction_notice reason level = \<lparr>nt_title = ''Play is currently restricted'',
     nt_body = ''Reason: '' @ map (\<lambda>c. if c = CHR ''_'' then CHR '' '' else c) reason @ ''. Restriction level ''
       @ int_str level @ '' is active.'', nt_urgency = ''critical'', nt_persistent = True\<rparr>"

definition arm_manager :: "game_identity \<Rightarrow> int \<Rightarrow> string \<Rightarrow> bool \<Rightarrow> unit service_prog" where
  "arm_manager game level reason launch_block = modify (\<lambda>s. s\<lparr>sv_manager :=
     arm game (sv_config s) level reason launch_block (monotonic (sv_engine s)) (sv_manager s)\<rparr>)"

definition cancel_manager :: "unit service_prog" where
  "cancel_manager = modify (\<lambda>s. s\<lparr>sv_manager := cancel (sv_manager s)\<rparr>)"

definition is_dict_payload :: "string \<Rightarrow> domain_event \<Rightarrow> bool" where
  "is_dict_payload key event = (case payload_get key (PDict []) event of PDict _ \<Rightarrow> True | _ \<Rightarrow> False)"

definition int_or_raise :: "pyval \<Rightarrow> py_exc + int" where
  "int_or_raise v =
     (case py_int_of v of
        Some i \<Rightarrow> Inr i
      | None \<Rightarrow> Inl (case v of
          PStr s \<Rightarrow> ValueError (''invalid literal for int() with base 10: '' @ str_repr s)
        | _ \<Rightarrow> TypeError (''int() argument must be a string, a bytes-like object or a real number, not '' @ quoted (py_type v))))"

definition dispatch_restriction :: "surrounding \<Rightarrow> domain_event \<Rightarrow> unit service_prog" where
  "dispatch_restriction ex event =
     bindP (liftP (int_or_raise (payload_get ''level'' (PInt 0) event))) (\<lambda>level.
          (let reason = py_str (ex_float_repr ex) (payload_get ''reason'' (PStr ''limit'') event)
           in thenP (whenP (py_truth (payload_get ''persistent_notice_required'' PNone event))
                       (send_notice (restriction_notice reason level)))
             (bindP (gets (\<lambda>s. current_game (sv_engine s))) (\<lambda>game.
              case game of Some g \<Rightarrow> whenP (level \<ge> 2) (arm_manager g level reason False) | None \<Rightarrow> ret ()))))"

definition dispatch_launch :: "domain_event \<Rightarrow> unit service_prog" where
  "dispatch_launch event =
     bindP (gets (\<lambda>s. (current_game (sv_engine s), restriction_level (sv_engine s), restriction_reason (sv_engine s))))
       (\<lambda>(game, level, reason).
     case game of
       None \<Rightarrow> ret ()
     | Some g \<Rightarrow> whenP (is_dict_payload ''game'' event)
         (let launch_block = (e_kind event = ''enforcement.new_game_blocked'')
          in arm_manager g (if launch_block then max 3 level else max 2 level) (reason_value reason) launch_block))"

definition dispatch :: "surrounding \<Rightarrow> domain_event \<Rightarrow> unit service_prog" where
  "dispatch ex event =
     thenP (publish_event event)
     (if e_kind event = ''notification.warning'' then send_notice (warning_notice ex event)
      else if e_kind event = ''restriction.activated'' then dispatch_restriction ex event
      else if e_kind event = ''enforcement.new_game_blocked''
        \<or> e_kind event = ''enforcement.game_started_while_restricted'' then dispatch_launch event
      else whenP (e_kind event = ''restriction.cleared'' \<or> e_kind event = ''game.stopped'') cancel_manager)"

fun dispatch_many :: "surrounding \<Rightarrow> domain_event list \<Rightarrow> unit service_prog" where
  "dispatch_many ex [] = ret ()"
| "dispatch_many ex (e # es) = thenP (dispatch ex e) (dispatch_many ex es)"

definition record_side_effect_event :: "string \<Rightarrow> pyval \<Rightarrow> string \<Rightarrow> unit service_prog" where
  "record_side_effect_event kind payload severity =
     bindP (with_engine (bindP (gets (engine_event kind payload severity)) (\<lambda>event.
       thenP (store (record_event kind (e_occurred_at event) payload None None)) (ret event)))) publish_event"

definition wake_tick :: "unit service_prog" where
  "wake_tick = modify (\<lambda>s. s\<lparr>sv_tick_wake := True\<rparr>)"

section \<open>Requests\<close>

datatype reply =
    Pong string int
  | StatusReply engine_status
  | ConfigReply pyval
  | ConfigUpdated pyval bool
  | EngineStatus engine_status
  | SessionList "pyval list"
  | EventList "pyval list"
  | Cleared
  | Exported string string
  | Daily "day_summary list"
  | Weekly "string \<times> string \<times> int \<times> day_summary list"
  | ActivityReply activity
  | DiagnosticsReply engine_status bool
  | Heartbeat int
  | Accepted
  | AcceptedStatus engine_status
  | Emitted string engine_status

definition plugin_is_recent :: "service \<Rightarrow> bool" where
  "plugin_is_recent s =
     (case sv_heartbeat s of None \<Rightarrow> False
      | Some t \<Rightarrow> monotonic (sv_engine s) - t \<le> real_of_int (c_decky_signal_ttl_seconds (sv_config s)))"

definition decky_signal_is_recent :: "service \<Rightarrow> bool" where
  "decky_signal_is_recent s =
     (case sv_decky_signal s of None \<Rightarrow> False
      | Some t \<Rightarrow> monotonic (sv_engine s) - t \<le> real_of_int (c_decky_signal_ttl_seconds (sv_config s)))"

definition note_heartbeat :: "unit service_prog" where
  "note_heartbeat = modify (\<lambda>s. s\<lparr>sv_heartbeat := Some (monotonic (sv_engine s))\<rparr>)"

definition note_decky_signal :: "unit service_prog" where
  "note_decky_signal = modify (\<lambda>s. s\<lparr>sv_decky_signal := Some (monotonic (sv_engine s))\<rparr>)"

text \<open>\<open>_engine_action\<close>: what the tick before a refused action did is still dispatched.\<close>

definition guarded_action :: "event_prog \<Rightarrow> (domain_event list \<times> string option) engine_prog" where
  "guarded_action action =
     bindP tick (\<lambda>ticked.
     catchP (bindP action (\<lambda>done. ret (ticked @ done, None)))
       (\<lambda>exc. case exc of DomainError m \<Rightarrow> ret (ticked, Some m) | _ \<Rightarrow> raise exc))"

definition engine_action :: "surrounding \<Rightarrow> event_prog \<Rightarrow> engine_status service_prog" where
  "engine_action ex action =
     bindP (with_engine (bindP (guarded_action action) (\<lambda>res. bindP (gets status) (\<lambda>st. ret (res, st)))))
       (\<lambda>((happened, error), st).
     thenP (dispatch_many ex happened)
     (thenP wake_tick
     (case error of Some m \<Rightarrow> raise (RpcError ''invalid_state'' m) | None \<Rightarrow> ret st)))"

definition rpc_action :: "surrounding \<Rightarrow> event_prog \<Rightarrow> reply service_prog" where
  "rpc_action ex action = bindP (engine_action ex action) (\<lambda>st. ret (EngineStatus st))"

definition rpc_status :: "surrounding \<Rightarrow> reply service_prog" where
  "rpc_status ex =
     bindP (with_engine (bindP tick (\<lambda>happened. bindP (gets status) (\<lambda>st. ret (happened, st))))) (\<lambda>(happened, st).
     thenP (dispatch_many ex happened) (ret (StatusReply st)))"

definition install_config :: "surrounding \<Rightarrow> pyval \<Rightarrow> unit service_prog" where
  "install_config ex settings = modify (\<lambda>s. s\<lparr>sv_settings := settings,
     sv_config := typed_config (ex_zoneinfo ex) (ex_system_zone ex) (ex_float_repr ex) settings\<rparr>)"

definition rpc_config_update :: "surrounding \<Rightarrow> (string \<times> pyval) list \<Rightarrow> reply service_prog" where
  "rpc_config_update ex params =
     bindP (liftP (require_dict params ''patch'')) (\<lambda>patch.
     bindP (gets sv_settings) (\<lambda>current.
     bindP (liftP (config_update (ex_zoneinfo ex) (ex_system_zone ex) (ex_float_repr ex) patch (dict_items current))) (\<lambda>settings.
     thenP (install_config ex settings)
     (bindP (gets sv_config) (\<lambda>c. bindP (with_engine (update_config c)) (\<lambda>happened.
      thenP (modify (\<lambda>s. s\<lparr>sv_notifier_enabled := c_native_notifications (sv_config s)\<rparr>))
      (thenP (dispatch_many ex happened)
      (thenP wake_tick
       (ret (ConfigUpdated settings (list_ex (\<lambda>key. key \<in> fst ` set patch) [''detector'', ''logging'', ''simulation''])))))))))))"

definition rpc_timer_start :: "surrounding \<Rightarrow> (string \<times> pyval) list \<Rightarrow> reply service_prog" where
  "rpc_timer_start ex params =
     bindP (liftP (require_int params ''seconds'' 60 86400 PNone)) (\<lambda>seconds.
     bindP (if param ''action'' PNone params = PNone then gets (\<lambda>s. c_default_action (sv_config s))
            else liftP (require_text params ''action'' 1 32)) (\<lambda>action.
     rpc_action ex (start_timer seconds action)))"

definition rpc_timer_adjust :: "surrounding \<Rightarrow> (string \<times> pyval) list \<Rightarrow> reply service_prog" where
  "rpc_timer_adjust ex params =
     bindP (liftP (require_int params ''seconds'' (-86400) 86400 PNone)) (\<lambda>seconds. rpc_action ex (adjust_timer seconds))"

definition rpc_daily_grant :: "surrounding \<Rightarrow> (string \<times> pyval) list \<Rightarrow> reply service_prog" where
  "rpc_daily_grant ex params =
     bindP (liftP (require_int params ''seconds'' (-86400) 86400 PNone)) (\<lambda>seconds.
     bindP (liftP (require_text params ''reason'' 1 200)) (\<lambda>reason.
     rpc_action ex (grant_daily_time seconds reason)))"

definition rpc_history_list :: "surrounding \<Rightarrow> (string \<times> pyval) list \<Rightarrow> reply service_prog" where
  "rpc_history_list ex params =
     bindP (liftP (require_int params ''limit'' 1 1000 (PInt 100))) (\<lambda>limit.
     bindP (case param ''day_key'' PNone params of
              PNone \<Rightarrow> ret None
            | v \<Rightarrow> bindP (liftP (validate_day_key (py_str (ex_float_repr ex) v))) (\<lambda>k. ret (Some k))) (\<lambda>day_key.
     gets (\<lambda>s. SessionList (list_sessions (Some limit) day_key (storage (sv_engine s))))))"

definition rpc_history_events :: "(string \<times> pyval) list \<Rightarrow> reply service_prog" where
  "rpc_history_events params =
     bindP (liftP (require_int params ''limit'' 1 1000 (PInt 100))) (\<lambda>limit.
     gets (\<lambda>s. EventList (list_events (Some limit) (storage (sv_engine s)))))"

definition clear_all :: "unit engine_prog" where
  "clear_all = thenP (store clear_history) (modify (\<lambda>e. e\<lparr>played_today := 0\<rparr>))"

definition rpc_history_clear :: "(string \<times> pyval) list \<Rightarrow> reply service_prog" where
  "rpc_history_clear params =
     thenP (guardP (param ''confirmation'' PNone params \<noteq> PStr ''PURGE_HISTORY'')
              (RpcError ''confirmation_required'' ''confirmation must be PURGE_HISTORY''))
     (thenP (catchP (with_engine clear_all)
        (\<lambda>exc. case exc of DatabaseError m \<Rightarrow> raise (RpcError ''invalid_state'' m) | _ \<Rightarrow> raise exc))
     (thenP (record_side_effect_event ''history.cleared'' (PDict []) ''warning'') (ret Cleared)))"

definition rpc_history_export :: "surrounding \<Rightarrow> (string \<times> pyval) list \<Rightarrow> reply service_prog" where
  "rpc_history_export ex params =
     (let format_name = py_str (ex_float_repr ex) (param ''format'' (PStr ''json'') params)
      in bindP (gets (\<lambda>s. export (ex_float_repr ex) (now_utc (sv_engine s)) format_name (storage (sv_engine s)))) (\<lambda>r.
         bindP (liftP r) (\<lambda>text. ret (Exported format_name text))))"

text \<open>Summaries. Dates outside the calendar overflow.\<close>

definition out_of_range :: py_exc where
  "out_of_range = OverflowError ''date value out of range''"

definition day_param :: "string \<Rightarrow> py_exc + date" where
  "day_param text =
     (case validate_day_key text of
        Inl exc \<Rightarrow> Inl exc
      | Inr k \<Rightarrow> (case date_fromisoformat k of
          None \<Rightarrow> Inl (ValueError (''Invalid isoformat string: '' @ str_repr k)) | Some n \<Rightarrow> Inr n))"

definition day_text :: "surrounding \<Rightarrow> string \<Rightarrow> (string \<times> pyval) list \<Rightarrow> service \<Rightarrow> string" where
  "day_text ex key params s = py_str (ex_float_repr ex) (param key (PStr (day_key (sv_engine s))) params)"

definition rpc_summary_daily :: "surrounding \<Rightarrow> (string \<times> pyval) list \<Rightarrow> reply service_prog" where
  "rpc_summary_daily ex params =
     bindP (gets (day_text ex ''start_day'' params)) (\<lambda>text.
     bindP (liftP (day_param text)) (\<lambda>start.
     bindP (liftP (require_int params ''days'' 1 366 (PInt 1))) (\<lambda>days.
     thenP (guardP (max_ordinal < start + days - 1) out_of_range)
       (gets (\<lambda>s. Daily (daily_summary start (nat days) (storage (sv_engine s))))))))"

definition rpc_summary_weekly :: "surrounding \<Rightarrow> (string \<times> pyval) list \<Rightarrow> reply service_prog" where
  "rpc_summary_weekly ex params =
     bindP (gets (day_text ex ''end_day'' params)) (\<lambda>text.
     bindP (liftP (day_param text)) (\<lambda>end_day.
     thenP (guardP (end_day - 6 < 1) out_of_range)
       (gets (\<lambda>s. Weekly (weekly_summary end_day (storage (sv_engine s)))))))"

definition activity_request :: "surrounding \<Rightarrow> (string \<times> pyval) list \<Rightarrow> string \<Rightarrow> int \<Rightarrow>
    (domain_event list \<times> activity) engine_prog" where
  "activity_request ex params timezone days =
     bindP tick (\<lambda>happened.
     bindP (gets day_key) (\<lambda>today.
     bindP (case param ''end_day'' PNone params of
              PNone \<Rightarrow> ret today
            | v \<Rightarrow> liftP (validate_day_key (py_str (ex_float_repr ex) v))) (\<lambda>text.
     bindP (liftP (day_param text)) (\<lambda>end_day.
     bindP (gets (\<lambda>e. activity_summary end_day days timezone (storage e))) (\<lambda>r.
     bindP (liftP r) (\<lambda>result. ret (happened, result)))))))"

definition timezone_name :: "service \<Rightarrow> string" where
  "timezone_name s = text_of (entry ''timezone'' (entry ''daily_limits'' (sv_settings s)))"

definition rpc_summary_activity :: "surrounding \<Rightarrow> (string \<times> pyval) list \<Rightarrow> reply service_prog" where
  "rpc_summary_activity ex params =
     bindP (liftP (require_int params ''days'' 1 90 (PInt 7))) (\<lambda>days.
     bindP (gets timezone_name) (\<lambda>timezone.
     bindP (with_engine (activity_request ex params timezone days)) (\<lambda>(happened, result).
     thenP (dispatch_many ex happened) (ret (ActivityReply result)))))"

text \<open>Reports of the plugin.\<close>

definition rpc_report_lifetime :: "surrounding \<Rightarrow> (string \<times> pyval) list \<Rightarrow> reply service_prog" where
  "rpc_report_lifetime ex params =
     thenP note_heartbeat
     (bindP (liftP (optional_app_id (ex_float_repr ex) (param ''app_id'' PNone params))) (\<lambda>app_id.
      bindP (liftP (require_bool params ''running'' PNone)) (\<lambda>running.
      bindP (liftP (require_int params ''instance_id'' 0 (2 ^ 63 - 1) (PInt 0))) (\<lambda>instance_id.
      thenP (record_side_effect_event ''decky.app_lifetime'' (PDict [(''app_id'', popt PStr app_id),
               (''running'', PBool running), (''instance_id'', PStr (int_str instance_id))]) ''info'')
      (ret Accepted)))))"

definition rpc_report_result :: "surrounding \<Rightarrow> (string \<times> pyval) list \<Rightarrow> reply service_prog" where
  "rpc_report_result ex params =
     thenP note_heartbeat
     (bindP (liftP (optional_app_id (ex_float_repr ex) (param ''app_id'' PNone params))) (\<lambda>app_id.
      bindP (liftP (require_bool params ''success'' PNone)) (\<lambda>success.
      thenP (record_side_effect_event ''enforcement.plugin_result'' (PDict [(''app_id'', popt PStr app_id),
               (''success'', PBool success),
               (''detail'', PStr (take 300 (py_str (ex_float_repr ex) (param ''detail'' (PStr []) params))))]) ''info'')
      (ret Accepted))))"

definition foreground_game :: "surrounding \<Rightarrow> (string \<times> pyval) list \<Rightarrow> py_exc + game_identity" where
  "foreground_game ex params =
     (case optional_app_id (ex_float_repr ex) (param ''app_id'' PNone params) of
        Inl exc \<Rightarrow> Inl exc
      | Inr app_id \<Rightarrow>
          (case require_text params ''name'' 1 200 of
             Inl exc \<Rightarrow> Inl exc
           | Inr name \<Rightarrow>
               (case require_pids (param ''pids'' (PList []) params) of
                  Inl exc \<Rightarrow> Inl exc
                | Inr pids \<Rightarrow> Inr \<lparr>g_app_id = app_id, g_name = name, g_source = ''decky'', g_pids = pids,
                    g_confidence = 1, g_instance_id = (case param ''instance_id'' PNone params of
                      PNone \<Rightarrow> None | v \<Rightarrow> Some (take 64 (py_str (ex_float_repr ex) v)))\<rparr>)))"

definition foreground_events :: "surrounding \<Rightarrow> (string \<times> pyval) list \<Rightarrow> bool \<Rightarrow> (domain_event list \<times> engine_status) engine_prog" where
  "foreground_events ex params running =
     bindP (if \<not> running then stop_game ''decky_foreground_cleared''
            else bindP (liftP (foreground_game ex params)) (\<lambda>game. set_game game ''decky_foreground'')) (\<lambda>happened.
     bindP (gets status) (\<lambda>st. ret (happened, st)))"

definition rpc_report_foreground :: "surrounding \<Rightarrow> (string \<times> pyval) list \<Rightarrow> reply service_prog" where
  "rpc_report_foreground ex params =
     thenP note_heartbeat
     (thenP note_decky_signal
     (bindP (liftP (require_bool params ''running'' (PBool True))) (\<lambda>running.
      bindP (catchP (with_engine (foreground_events ex params running))
        (\<lambda>exc. case exc of DomainError m \<Rightarrow> raise (RpcError ''invalid_state'' m) | _ \<Rightarrow> raise exc)) (\<lambda>(happened, st).
      thenP (dispatch_many ex happened) (thenP wake_tick (ret (AcceptedStatus st)))))))"

section \<open>Simulation\<close>

definition emitted :: "string \<Rightarrow> engine_status service_prog \<Rightarrow> reply service_prog" where
  "emitted event_name m = bindP m (\<lambda>st. ret (Emitted event_name st))"

definition simulated_game :: "surrounding \<Rightarrow> (string \<times> pyval) list \<Rightarrow> py_exc + game_identity" where
  "simulated_game ex params =
     (case optional_app_id (ex_float_repr ex) (param ''app_id'' (PStr ''999999'') params) of
        Inl exc \<Rightarrow> Inl exc
      | Inr app_id \<Rightarrow>
          (case (if ''name'' \<in> fst ` set params then require_text params ''name'' 1 200 else Inr ''Simulated Game'') of
             Inl exc \<Rightarrow> Inl exc
           | Inr name \<Rightarrow>
               (case require_pids (param ''pids'' (PList []) params) of
                  Inl exc \<Rightarrow> Inl exc
                | Inr pids \<Rightarrow> Inr \<lparr>g_app_id = app_id, g_name = name, g_source = ''simulation'', g_pids = pids,
                    g_confidence = 1, g_instance_id = None\<rparr>)))"

definition checkpoint_now :: "unit engine_prog" where
  "checkpoint_now =
     bindP (gets (\<lambda>e. (session_id e, session_duration e, now_utc e))) (\<lambda>(sid, duration, now).
     whenP (truthy sid) (store (checkpoint_session (the sid) duration now)))"

definition simulation_emit :: "surrounding \<Rightarrow> (string \<times> pyval) list \<Rightarrow> reply service_prog" where
  "simulation_emit ex params =
     bindP (liftP (require_text params ''event'' 1 64)) (\<lambda>event_name.
     if event_name = ''game_started'' \<or> event_name = ''game_changed''
     then bindP (liftP (simulated_game ex params)) (\<lambda>game. emitted event_name (engine_action ex (set_game game event_name)))
     else if event_name = ''game_stopped'' \<or> event_name = ''close_success''
     then emitted event_name (engine_action ex
            (stop_game (if event_name = ''close_success'' then ''controlled_close'' else ''simulated_exit'')))
     else if event_name = ''suspend'' then emitted event_name (engine_action ex (suspend ''simulation''))
     else if event_name = ''resume'' then emitted event_name (engine_action ex (resume ''simulation''))
     else if event_name = ''limit_reached''
     then bindP (gets (\<lambda>s. st_remaining_today (status (sv_engine s)))) (\<lambda>remaining.
          emitted event_name (engine_action ex
            (case remaining of
               Some n \<Rightarrow> if 0 < n then grant_daily_time (- n) ''simulation: limit reached'' else tick
             | None \<Rightarrow> tick)))
     else if event_name = ''game_unresponsive''
     then bindP (gets (\<lambda>s. current_game (sv_engine s))) (\<lambda>game.
          thenP (record_side_effect_event ''simulation.game_unresponsive''
                   (PDict [(''game'', popt game_to_dict game)]) ''warning'')
          (gets (\<lambda>s. Emitted event_name (status (sv_engine s)))))
     else if event_name = ''service_restart_checkpoint''
     then thenP (with_engine checkpoint_now)
          (thenP (record_side_effect_event ''simulation.restart_checkpoint'' (PDict []) ''warning'')
          (gets (\<lambda>s. Emitted event_name (status (sv_engine s)))))
     else raise (invalid_params (''unsupported simulation event: '' @ event_name)))"

section \<open>Methods\<close>

definition handle_rpc :: "surrounding \<Rightarrow> string \<Rightarrow> (string \<times> pyval) list \<Rightarrow> reply service_prog" where
  "handle_rpc ex meth params =
     (if meth = ''service.ping'' then ret (Pong (ex_version ex) (ex_pid ex))
      else if meth = ''status'' \<or> meth = ''status.get'' then rpc_status ex
      else if meth = ''config.get'' then gets (\<lambda>s. ConfigReply (sv_settings s))
      else if meth = ''config.update'' then rpc_config_update ex params
      else if meth = ''timer.start'' then rpc_timer_start ex params
      else if meth = ''timer.pause'' then rpc_action ex pause_timer
      else if meth = ''timer.resume'' then rpc_action ex resume_timer
      else if meth = ''timer.cancel'' then rpc_action ex cancel_timer
      else if meth = ''timer.adjust'' then rpc_timer_adjust ex params
      else if meth = ''daily.grant'' then rpc_daily_grant ex params
      else if meth = ''history.list'' then rpc_history_list ex params
      else if meth = ''history.events'' then rpc_history_events params
      else if meth = ''history.clear'' then rpc_history_clear params
      else if meth = ''history.export'' then rpc_history_export ex params
      else if meth = ''summary.daily'' then rpc_summary_daily ex params
      else if meth = ''summary.weekly'' then rpc_summary_weekly ex params
      else if meth = ''summary.activity'' then rpc_summary_activity ex params
      else if meth = ''diagnostics.get'' then gets (\<lambda>s. DiagnosticsReply (status (sv_engine s)) (plugin_is_recent s))
      else if meth = ''plugin.heartbeat'' then thenP note_heartbeat
        (gets (\<lambda>s. Heartbeat (c_decky_signal_ttl_seconds (sv_config s))))
      else if meth = ''detector.report_foreground'' then rpc_report_foreground ex params
      else if meth = ''detector.report_lifetime'' then rpc_report_lifetime ex params
      else if meth = ''enforcement.report_result'' then rpc_report_result ex params
      else if meth = ''simulation.emit'' then bindP (gets sv_simulation) (\<lambda>enabled.
        if enabled then simulation_emit ex params
        else raise (RpcError ''simulation_disabled'' ''simulation mode is not enabled''))
      else raise (RpcError ''method_not_found'' (''unknown method: '' @ meth)))"

section \<open>Detector events, ticks, start and stop\<close>

definition is_value_error :: "py_exc \<Rightarrow> bool" where
  "is_value_error exc = (case exc of DomainError _ \<Rightarrow> True | ValueError _ \<Rightarrow> True | ConfigError _ \<Rightarrow> True | _ \<Rightarrow> False)"

definition event_type_value :: "detector_event_type \<Rightarrow> string" where
  "event_type_value t = (case t of STARTED \<Rightarrow> ''started'' | STOPPED \<Rightarrow> ''stopped'' | CHANGED \<Rightarrow> ''changed''
     | SUSPEND \<Rightarrow> ''suspend'' | RESUME \<Rightarrow> ''resume'' | ERROR \<Rightarrow> ''error'')"

definition reason_or :: "string \<Rightarrow> string option \<Rightarrow> string" where
  "reason_or fallback r = (if truthy r then the r else fallback)"

text \<open>The engine's answer to one event.\<close>

definition apply_detector_event :: "detector_event \<Rightarrow> event_prog" where
  "apply_detector_event event =
     (case (de_type event, de_game event) of
        (STARTED, Some g) \<Rightarrow> set_game g (reason_or (event_type_value STARTED) (de_reason event))
      | (CHANGED, Some g) \<Rightarrow> set_game g (reason_or (event_type_value CHANGED) (de_reason event))
      | (STOPPED, g) \<Rightarrow>
          bindP (gets current_game) (\<lambda>current.
          if (case (g, current) of
                (Some g, Some c) \<Rightarrow> truthy (g_app_id g) \<and> g_app_id c \<noteq> g_app_id g | _ \<Rightarrow> False)
          then ret []
          else stop_game (reason_or ''detector_exit'' (de_reason event)))
      | (SUSPEND, _) \<Rightarrow> suspend ''detector''
      | (RESUME, _) \<Rightarrow> resume ''detector''
      | _ \<Rightarrow> ret [])"

text \<open>Decky's word stands while its signal is recent and its game is shown.\<close>

definition decky_overrides :: "detector_event \<Rightarrow> service \<Rightarrow> bool" where
  "decky_overrides event s =
     (case de_game event of
        None \<Rightarrow> False
      | Some g \<Rightarrow> g_source g \<noteq> ''decky'' \<and> decky_signal_is_recent s
          \<and> (case current_game (sv_engine s) of None \<Rightarrow> False | Some c \<Rightarrow> g_source c = ''decky''))"

definition consume_detector_event :: "surrounding \<Rightarrow> detector_event \<Rightarrow> unit service_prog" where
  "consume_detector_event ex event =
     catchP
       (if de_type event = ERROR
        then record_side_effect_event ''detector.error''
               (PDict [(''reason'', PStr (reason_or ''unknown'' (de_reason event)))]) ''warning''
        else bindP (gets (decky_overrides event)) (\<lambda>overridden.
          if overridden then ret ()
          else bindP (with_engine (apply_detector_event event)) (\<lambda>happened.
               thenP (dispatch_many ex happened) wake_tick)))
       (\<lambda>exc. if is_value_error exc then ret () else raise exc)"

text \<open>One round of the tick loop: the seconds until the next one, unless it is woken.\<close>

definition tick_round :: "surrounding \<Rightarrow> int service_prog" where
  "tick_round ex =
     bindP (with_engine (bindP tick (\<lambda>happened. bindP (gets status) (\<lambda>st. ret (happened, st))))) (\<lambda>(happened, st).
     bindP (gets (\<lambda>s. t_state (timer (sv_engine s)) = RUNNING)) (\<lambda>timer_running.
     thenP (dispatch_many ex happened)
     (bindP (gets (\<lambda>s. c_count_only_while_playing (sv_config s))) (\<lambda>only_playing.
      thenP (modify (\<lambda>s. s\<lparr>sv_tick_wake := False\<rparr>))
      (ret (if st_game st \<noteq> None \<or> timer_running \<and> \<not> only_playing then 5 else 30))))))"

definition service_start :: "surrounding \<Rightarrow> string \<Rightarrow> string \<Rightarrow> unit service_prog" where
  "service_start ex detector_name socket =
     bindP (with_engine take_initial_events) (\<lambda>happened.
     thenP (dispatch_many ex happened)
     (record_side_effect_event ''service.started'' (PDict [(''version'', PStr (ex_version ex)),
        (''detector'', PStr detector_name), (''socket'', PStr socket)]) ''info''))"

definition service_stop :: "surrounding \<Rightarrow> unit service_prog" where
  "service_stop ex =
     thenP cancel_manager
     (bindP (with_engine (shutdown ''service_shutdown'')) (\<lambda>happened.
      thenP (dispatch_many ex happened)
      (record_side_effect_event ''service.stopped'' (PDict []) ''info'')))"

text \<open>The enforcement task runs up to its next await; what it records goes out as side effects.\<close>

fun record_notices :: "notice list \<Rightarrow> unit service_prog" where
  "record_notices [] = ret ()"
| "record_notices (n # ns) =
     thenP (record_side_effect_event (no_kind n) (no_payload n) (no_severity n)) (record_notices ns)"

definition enforcement_round :: "(game_identity \<Rightarrow> bool \<Rightarrow> int list) \<Rightarrow> unit service_prog" where
  "enforcement_round term =
     bindP (gets (\<lambda>s. (task (sv_manager s), \<lparr>su_manager = sv_manager s, su_status = status (sv_engine s),
         su_time = monotonic (sv_engine s), su_plugin_recent = plugin_is_recent s, su_terminate = term\<rparr>))) (\<lambda>(t, su).
     case t of
       None \<Rightarrow> ret ()
     | Some f \<Rightarrow> whenP (fl_due f \<le> su_time su)
         (case run_task su f of (m, ns) \<Rightarrow> thenP (modify (\<lambda>s. s\<lparr>sv_manager := m\<rparr>)) (record_notices ns)))"

section \<open>Construction\<close>

datatype child_detector =
    SimulationDetector
  | DisabledDetector
  | SteamLogDetector string
  | ProcfsDetector int "string list" "string list"

definition build_detector :: "bool \<Rightarrow> pyval \<Rightarrow> child_detector list" where
  "build_detector simulation settings =
     (let detector = entry ''detector'' settings; setting = text_of (entry ''mode'' detector);
          texts = (\<lambda>key. map text_of (items_of (entry key detector)));
          detectors =
            (if setting = ''auto'' \<or> setting = ''steam_log''
             then [SteamLogDetector (text_of (entry ''steam_log_path'' detector))] else [])
            @ (if setting = ''auto'' \<or> setting = ''procfs''
               then [ProcfsDetector (int_at ''detector'' ''procfs_fallback_interval_seconds'' settings)
                       (texts ''ignored_app_ids'') (texts ''ignored_names'')] else [])
      in if simulation then [SimulationDetector]
         else if setting = ''disabled'' then [DisabledDetector]
         else if detectors = [] then [DisabledDetector] else detectors)"

definition with_simulation :: "bool option \<Rightarrow> pyval \<Rightarrow> pyval" where
  "with_simulation override settings =
     (case override of None \<Rightarrow> settings
      | Some b \<Rightarrow> update_entry ''simulation'' ''enabled'' (\<lambda>_. PBool b) settings)"

definition service_init :: "surrounding \<Rightarrow> bool option \<Rightarrow> bool \<Rightarrow> config_file \<Rightarrow> db \<Rightarrow> fake_clock \<Rightarrow> py_exc + service" where
  "service_init ex override environment_simulation file d k =
     (case load_config (ex_zoneinfo ex) (ex_system_zone ex) (ex_float_repr ex) file of
        Inl exc \<Rightarrow> Inl exc
      | Inr (loaded, note) \<Rightarrow>
          (let settings = with_simulation override loaded;
               c = typed_config (ex_zoneinfo ex) (ex_system_zone ex) (ex_float_repr ex) settings
           in case new_engine d c k of
                (Inl exc, _) \<Rightarrow> Inl exc
              | (Inr _, e) \<Rightarrow> Inr \<lparr>sv_settings = settings, sv_config = c, sv_engine = e, sv_manager = new_manager,
                  sv_bus = new_bus 128, sv_notices = [], sv_notifier_enabled = c_native_notifications c,
                  sv_heartbeat = None, sv_decky_signal = None,
                  sv_simulation = (bool_at ''simulation'' ''enabled'' settings
                    \<or> override = None \<and> environment_simulation),
                  sv_tick_wake = False\<rparr>))"

end
