(* ===== verification/Served.thy ===== *)
theory Served
  imports Service Demo
begin

text \<open>
  The service over time, and what its dispatch does. Every request, detector event, tick,
  enforcement round and restart keeps the engine's invariant; the events of the engine's
  operations dispatch without a raise, and leave the bus, the notices and the enforcement
  manager as the events in their order say.
\<close>

section \<open>Programs on the engine\<close>

lemma with_engine_run: "with_engine m s = (fst (m (sv_engine s)), s\<lparr>sv_engine := snd (m (sv_engine s))\<rparr>)"
  by (simp add: with_engine_def split: prod.splits)

lemma wp_with_engine [wp_simps]:
  "wp (with_engine m) Q E s = wp m (\<lambda>a e. Q a (s\<lparr>sv_engine := e\<rparr>)) (\<lambda>x e. E x (s\<lparr>sv_engine := e\<rparr>)) (sv_engine s)"
  by (simp add: wp_def with_engine_def split: prod.splits sum.splits)

definition engine_holds :: "(engine \<Rightarrow> bool) \<Rightarrow> service \<Rightarrow> bool" where
  "engine_holds I s = I (sv_engine s)"

lemma holds_with_engine: "holds I m \<Longrightarrow> holds (engine_holds I) (with_engine m)"
  by (simp add: holds_def engine_holds_def wp_with_engine)

lemma engine_holds_fields [simp]:
  "engine_holds I (s\<lparr>sv_settings := a\<rparr>) = engine_holds I s" "engine_holds I (s\<lparr>sv_config := b\<rparr>) = engine_holds I s"
  "engine_holds I (s\<lparr>sv_manager := c\<rparr>) = engine_holds I s" "engine_holds I (s\<lparr>sv_bus := d\<rparr>) = engine_holds I s"
  "engine_holds I (s\<lparr>sv_notices := f\<rparr>) = engine_holds I s"
  "engine_holds I (s\<lparr>sv_notifier_enabled := g\<rparr>) = engine_holds I s"
  "engine_holds I (s\<lparr>sv_heartbeat := h\<rparr>) = engine_holds I s" "engine_holds I (s\<lparr>sv_decky_signal := i\<rparr>) = engine_holds I s"
  "engine_holds I (s\<lparr>sv_tick_wake := j\<rparr>) = engine_holds I s"
  by (simp_all add: engine_holds_def)

lemma holds_catchP [inv_intros]: "holds I m \<Longrightarrow> (\<And>e. holds I (h e)) \<Longrightarrow> holds I (catchP m h)"
  unfolding holds_def by (auto intro: wp_mono)

lemma holds_exc_case [inv_intros]:
  "(\<And>m. holds I (f m)) \<Longrightarrow> (\<And>e. holds I (g e)) \<Longrightarrow>
     holds I (case exc of DomainError m \<Rightarrow> f m | _ \<Rightarrow> g exc)"
  "(\<And>m. holds I (f m)) \<Longrightarrow> (\<And>e. holds I (g e)) \<Longrightarrow>
     holds I (case exc of DatabaseError m \<Rightarrow> f m | _ \<Rightarrow> g exc)"
  by (cases exc; simp)+

lemma holds_none_case [inv_intros]:
  "holds I m \<Longrightarrow> (\<And>v. holds I (f v)) \<Longrightarrow>
     holds I (case v of PNone \<Rightarrow> m | PBool b \<Rightarrow> f (PBool b) | PInt i \<Rightarrow> f (PInt i) | PFloat x \<Rightarrow> f (PFloat x)
       | PStr t \<Rightarrow> f (PStr t) | PList vs \<Rightarrow> f (PList vs) | PDict kvs \<Rightarrow> f (PDict kvs))"
  by (cases v) simp_all

section \<open>Dispatch leaves the engine alone\<close>

lemma deaf_modify: "(\<And>s. sv_engine (f s) = sv_engine s) \<Longrightarrow> holds (engine_holds I) (modify f)"
  by (rule holds_modify) (simp add: engine_holds_def)

lemma dispatch_engine [inv_intros]: "holds (engine_holds I) (dispatch ex event)"
  unfolding dispatch_def publish_event_def send_notice_def dispatch_restriction_def dispatch_launch_def
    arm_manager_def cancel_manager_def Let_def
  by (rule inv_intros deaf_modify | simp; fail)+

section \<open>Every operation keeps the engine's invariant\<close>

abbreviation serves :: "'a service_prog \<Rightarrow> bool" where
  "serves \<equiv> holds (engine_holds (eng_inv False))"

lemmas engine_ops = keeps_tick keeps_set_game keeps_stop_game keeps_suspend keeps_resume keeps_start_timer
  keeps_pause_timer keeps_resume_timer keeps_cancel_timer keeps_adjust_timer keeps_grant_daily_time keeps_shutdown

lemma keeps_clear_all: "keeps False clear_all"
proof (rule holdsI)
  fix e assume inv: "eng_inv False e"
  then have d: "db_inv (storage e)" by (simp add: eng_inv_def)
  show "wp clear_all (\<lambda>_. eng_inv False) (\<lambda>_. eng_inv False) e"
    unfolding clear_all_def wp_thenP wp_store
    by (rule clear_history_wp [OF d])
      (use inv in \<open>auto simp: eng_inv_def session_ok_def stored_total_def closed_usage_def timer_saved_def load_timer_def
        current_session_def open_row_def\<close>)
qed

lemma keeps_checkpoint_now: "keeps False checkpoint_now"
proof (rule holdsI)
  fix e assume inv: "eng_inv False e"
  then show "wp checkpoint_now (\<lambda>_. eng_inv False) (\<lambda>_. eng_inv False) e"
    unfolding checkpoint_now_def by (auto intro!: checkpoint_wp [OF inv])
qed

lemma serves_many [inv_intros]: "holds (engine_holds I) (dispatch_many ex es)"
  by (induction es) (simp_all only: dispatch_many.simps inv_intros)

lemma serves_record [inv_intros]: "serves (record_side_effect_event k p sv)"
  unfolding record_side_effect_event_def publish_event_def
  by (rule inv_intros holds_with_engine deaf_modify | simp; fail)+

lemmas serve_intros = inv_intros deaf_modify holds_with_engine engine_ops keeps_clear_all keeps_checkpoint_now

lemma keeps_guarded: "keeps False action \<Longrightarrow> keeps False (guarded_action action)"
  unfolding guarded_action_def by (intro holds_bindP [OF keeps_tick] inv_intros) auto

lemma serves_action [inv_intros]: "keeps False action \<Longrightarrow> serves (engine_action ex action)"
  unfolding engine_action_def wake_tick_def case_prod_beta
  by (rule serve_intros keeps_guarded | assumption | simp; fail)+

lemma serves_config_update:
  assumes "zones_ok (ex_zoneinfo ex) (ex_system_zone ex)"
  shows "serves (rpc_config_update ex params)"
proof -
  have "serves (bindP (liftP (config_update (ex_zoneinfo ex) (ex_system_zone ex) (ex_float_repr ex) patch current)) (\<lambda>settings.
     thenP (install_config ex settings) (bindP (gets sv_config) (\<lambda>c. bindP (with_engine (update_config c)) (f settings c)))))"
    if "\<And>x c es. serves (f x c es)" for patch current and f :: "pyval \<Rightarrow> config \<Rightarrow> domain_event list \<Rightarrow> reply service_prog"
  proof (cases "config_update (ex_zoneinfo ex) (ex_system_zone ex) (ex_float_repr ex) patch current")
    case (Inl exc)
    then show ?thesis by (simp add: holds_def)
  next
    case (Inr settings)
    define c where "c = typed_config (ex_zoneinfo ex) (ex_system_zone ex) (ex_float_repr ex) settings"
    have "serves (bindP (with_engine (update_config c)) (f settings c))"
      using updated_wf [OF assms Inr] that
      by (intro holds_bindP holds_with_engine keeps_update_config) (simp_all add: c_def)
    then show ?thesis
      unfolding Inr holds_def by (simp add: install_config_def c_def [symmetric])
  qed
  note update = this
  show ?thesis
    unfolding rpc_config_update_def wake_tick_def
    by (rule holds_bindP [OF holds_liftP], rule holds_bindP [OF holds_gets], rule update)
      (rule serve_intros | assumption | simp; fail)+
qed

lemma serves_rpc:
  assumes "zones_ok (ex_zoneinfo ex) (ex_system_zone ex)"
  shows "serves (handle_rpc ex meth params)"
  unfolding handle_rpc_def rpc_status_def rpc_action_def rpc_timer_start_def rpc_timer_adjust_def rpc_daily_grant_def
    rpc_history_list_def rpc_history_events_def rpc_history_clear_def rpc_history_export_def rpc_summary_daily_def
    rpc_summary_weekly_def rpc_summary_activity_def activity_request_def rpc_report_lifetime_def rpc_report_result_def
    rpc_report_foreground_def foreground_events_def simulation_emit_def emitted_def note_heartbeat_def note_decky_signal_def
    wake_tick_def Let_def case_prod_beta
  by (rule serves_config_update [OF assms] serves_action serve_intros | simp; fail)+

lemma keeps_detector_event: "keeps False (apply_detector_event event)"
  unfolding apply_detector_event_def
  by (cases "de_type event"; cases "de_game event") (simp_all, (rule serve_intros | simp; fail)+)

lemma serves_detector_event: "serves (consume_detector_event ex event)"
  unfolding consume_detector_event_def wake_tick_def
  by (rule keeps_detector_event serve_intros | simp; fail)+

lemma serves_tick_round: "serves (tick_round ex)"
  unfolding tick_round_def case_prod_beta by (rule serve_intros | simp; fail)+

lemma keeps_initial_events: "keeps False take_initial_events"
  unfolding take_initial_events_def by (intro inv_intros holds_modify) simp

lemma serves_start: "serves (service_start ex n k)"
  unfolding service_start_def by (rule keeps_initial_events serve_intros | simp; fail)+

lemma serves_stop: "serves (service_stop ex)"
  unfolding service_stop_def cancel_manager_def by (rule serve_intros | simp; fail)+

lemma serves_notices: "serves (record_notices ns)"
  by (induction ns) (simp_all only: record_notices.simps inv_intros)

lemma serves_enforcement: "serves (enforcement_round term)"
  unfolding enforcement_round_def case_prod_beta by (rule serves_notices serve_intros | simp; fail)+

section \<open>The service over time\<close>

text \<open>What the service is asked, and time passing; a restart opens the stored tables again.\<close>

inductive serve_step :: "surrounding \<Rightarrow> service \<Rightarrow> service \<Rightarrow> bool" for ex where
  requested: "handle_rpc ex meth params s = (r, s') \<Longrightarrow> serve_step ex s s'"
| detected: "consume_detector_event ex event s = (r, s') \<Longrightarrow> serve_step ex s s'"
| ticked: "tick_round ex s = (r, s') \<Longrightarrow> serve_step ex s s'"
| enforced: "enforcement_round term s = (r, s') \<Longrightarrow> serve_step ex s s'"
| started: "service_start ex n k s = (r, s') \<Longrightarrow> serve_step ex s s'"
| stopped: "service_stop ex s = (r, s') \<Longrightarrow> serve_step ex s s'"
| elapsed: "serve_step ex s (s\<lparr>sv_engine := (sv_engine s)\<lparr>clock := k\<rparr>\<rparr>)"
| restarted: "service_init ex ov en file (storage (sv_engine s)) k = Inr s' \<Longrightarrow> serve_step ex s s'"

inductive served :: "surrounding \<Rightarrow> service \<Rightarrow> bool" for ex where
  installed: "inj src \<Longrightarrow> \<forall>n. src n \<noteq> [] \<Longrightarrow> service_init ex ov en file (empty_db src) k = Inr s \<Longrightarrow> served ex s"
| goes_on: "served ex s \<Longrightarrow> serve_step ex s s' \<Longrightarrow> served ex s'"

lemma simulation_typed: "typed_config z sys fr (with_simulation ov settings) = typed_config z sys fr settings"
proof -
  have "entry s (update_entry ''simulation'' ''enabled'' f settings) = entry s settings" if "s \<noteq> ''simulation''" for s f
    using entry_update_section that by blast
  then show ?thesis
    by (simp add: with_simulation_def typed_config_def int_at_def bool_at_def Let_def split: option.splits)
qed

lemma init_inv:
  assumes "zones_ok (ex_zoneinfo ex) (ex_system_zone ex)" "db_inv d" "timer_ok (load_timer d)"
    and "service_init ex ov en file d k = Inr s"
  shows "eng_inv False (sv_engine s)"
proof -
  obtain loaded msg res e where loaded: "load_config (ex_zoneinfo ex) (ex_system_zone ex) (ex_float_repr ex) file = Inr (loaded, msg)"
    and run: "new_engine d (typed_config (ex_zoneinfo ex) (ex_system_zone ex) (ex_float_repr ex) loaded) k = (Inr res, e)"
    and "sv_engine s = e"
    using assms(4) by (auto simp: service_init_def Let_def simulation_typed split: sum.splits prod.splits)
  with new_engine_eng_inv [OF assms(2) loaded_wf [OF assms(1) loaded] assms(3) run] show ?thesis by simp
qed

lemma serve_step_inv:
  assumes "zones_ok (ex_zoneinfo ex) (ex_system_zone ex)" "serve_step ex s s'" "eng_inv False (sv_engine s)"
  shows "eng_inv False (sv_engine s')"
  using assms(2)
proof cases
  case (restarted ov en fl k)
  have "db_inv (storage (sv_engine s))" using assms(3) by (simp add: eng_inv_def)
  then show ?thesis using init_inv [OF assms(1) _ stored_timer_ok [OF assms(3)] restarted] by blast
next
  case (elapsed k)
  then show ?thesis using clock_inv assms(3) by simp
qed (use assms(3) holds_run [OF serves_rpc [OF assms(1)]] holds_run [OF serves_detector_event] holds_run [OF serves_tick_round]
      holds_run [OF serves_enforcement] holds_run [OF serves_start] holds_run [OF serves_stop]
     in \<open>unfold engine_holds_def, blast\<close>)+

lemma served_inv:
  assumes "zones_ok (ex_zoneinfo ex) (ex_system_zone ex)" "served ex s"
  shows "eng_inv False (sv_engine s)"
  using assms(2)
proof induction
  case (installed src ov en fl k s)
  then show ?case using init_inv [OF assms(1) _ _ installed(3)] empty_db_inv [of src] by (simp add: empty_timer)
next
  case (goes_on s s')
  then show ?case using serve_step_inv [OF assms(1)] by blast
qed

end
