(* ===== verification/Dispatched.thy ===== *)
theory Dispatched
  imports Served
begin

text \<open>
  What a dispatch leaves behind, as functions of the events: the bus, and the enforcement
  manager. A restriction event of the engine always carries a whole level, so dispatching what
  the engine's operations emit never raises.
\<close>

section \<open>The events the engine emits\<close>

definition level_given :: "domain_event \<Rightarrow> bool" where
  "level_given event = (e_kind event = ''restriction.activated'' \<longrightarrow> (\<exists>n. payload_get ''level'' (PInt 0) event = PInt n))"

definition emits :: "event_prog \<Rightarrow> bool" where
  "emits m = (\<forall>e es e'. m e = (Inr es, e') \<longrightarrow> list_all level_given es)"

definition emits1 :: "domain_event engine_prog \<Rightarrow> bool" where
  "emits1 m = (\<forall>e ev e'. m e = (Inr ev, e') \<longrightarrow> level_given ev)"

named_theorems emit_intros "programs whose events carry their level"

lemma emits_ret [emit_intros]: "list_all level_given es \<Longrightarrow> emits (ret es)"
  by (simp add: emits_def)

lemma emits_raise [emit_intros]: "emits (raise x)"
  by (simp add: emits_def)

lemma emits_gets [emit_intros]: "(\<And>e. list_all level_given (f e)) \<Longrightarrow> emits (gets f)"
  by (simp add: emits_def)

lemma emits_bind: "(\<And>a. emits (f a)) \<Longrightarrow> emits (bindP m f)"
  unfolding emits_def bindP_def by (fastforce split: prod.splits sum.splits)

lemma emits_bind_events: "emits m \<Longrightarrow> (\<And>es. list_all level_given es \<Longrightarrow> emits (f es)) \<Longrightarrow> emits (bindP m f)"
  unfolding emits_def bindP_def by (fastforce split: prod.splits sum.splits)

lemma emits_bind_event: "emits1 m \<Longrightarrow> (\<And>ev. level_given ev \<Longrightarrow> emits (f ev)) \<Longrightarrow> emits (bindP m f)"
  unfolding emits_def emits1_def bindP_def by (fastforce split: prod.splits sum.splits)

lemma emits_bind_gets: "(\<And>e. emits (f (g e))) \<Longrightarrow> emits (bindP (gets g) f)"
  unfolding emits_def bindP_def by fastforce

lemma emits_then [emit_intros]: "emits n \<Longrightarrow> emits (thenP m n)"
  unfolding thenP_def by (rule emits_bind)

lemma emits_if [emit_intros]: "(b \<Longrightarrow> emits m) \<Longrightarrow> (\<not> b \<Longrightarrow> emits n) \<Longrightarrow> emits (if b then m else n)"
  by simp

lemma emits_option [emit_intros]:
  "(y = None \<Longrightarrow> emits m) \<Longrightarrow> (\<And>a. y = Some a \<Longrightarrow> emits (f a)) \<Longrightarrow> emits (case y of None \<Rightarrow> m | Some a \<Rightarrow> f a)"
  by (cases y) simp_all

lemma emits_prod [emit_intros]: "(\<And>a b. emits (f a b)) \<Longrightarrow> emits (case y of (a, b) \<Rightarrow> f a b)"
  by (cases y) simp

lemma level_given_event [simp]: "k \<noteq> ''restriction.activated'' \<Longrightarrow> level_given (engine_event k p sv e)"
  by (simp add: level_given_def engine_event_def)

lemma level_given_restriction: "level_given (engine_event k (restriction_payload r l e) sv e')"
  by (simp add: level_given_def payload_get_def engine_event_def restriction_payload_def dict_get_def)

lemma recorded_event: "engine_record_event k p sv e = (Inr ev, e') \<Longrightarrow> ev = engine_event k p sv e"
  by (auto simp: engine_record_event_def bindP_def thenP_def store_def record_event_def)

lemma emits_record: "k \<noteq> ''restriction.activated'' \<Longrightarrow> emits1 (engine_record_event k p sv)"
  by (auto simp: emits1_def dest!: recorded_event)

lemma emits_gets_event: "k \<noteq> ''restriction.activated'' \<Longrightarrow> emits1 (gets (engine_event k p sv))"
  by (simp add: emits1_def)

lemma emits_restriction: "emits1 (engine_record_event k (restriction_payload r l e) sv)"
  by (auto simp: emits1_def level_given_restriction dest!: recorded_event)

lemma emits_refresh [emit_intros]: "emits (refresh_restriction b)"
  unfolding refresh_restriction_def
  by (rule emits_bind_event [OF emits_restriction] emits_bind_gets emit_intros | simp; fail)+

lemmas emit_steps = emits_bind_event [OF emits_record] emits_bind_event [OF emits_gets_event]

lemma emits_gap: "emits (record_suspend_gap d)"
  unfolding record_suspend_gap_def Let_def by (rule emits_bind emit_intros | simp; fail)+

lemma emits_clock: "emits (tick_clock a b)"
  unfolding tick_clock_def Let_def by (rule emits_gap emit_steps emit_intros | simp; fail)+

lemma emits_offset: "emits tick_offset"
  unfolding tick_offset_def by (rule emit_steps emit_intros emits_bind | simp; fail)+

lemma emits_rotate: "emits (rotate_current_session now k)"
  unfolding rotate_current_session_def by (rule emit_steps emit_intros emits_bind | simp; fail)+

lemma emits_roll: "emits (roll_day now k)"
  unfolding roll_day_def
  by (rule emits_bind_events [OF emits_rotate] emit_steps emit_intros emits_bind | simp; fail)+

lemma emits_account: "emits (tick_account a b)"
  unfolding tick_account_def by (rule emits_bind_events [OF emits_roll] emit_intros emits_bind | simp; fail)+

lemma emits_timer: "emits (tick_timer d)"
  unfolding tick_timer_def by (rule emit_steps emit_intros emits_bind | simp; fail)+

lemma emits_thresholds: "emits (threshold_events a b c d)"
  unfolding threshold_events_def Let_def by (rule emit_steps emit_intros emits_bind | simp; fail)+

lemma emits_warnings: "emits (warning_events p)"
proof -
  have first: "emits (if truthy g then bindP (gets f) (\<lambda>r. case r of None \<Rightarrow> ret [] | Some r \<Rightarrow> threshold_events a b (k r) r) else ret [])"
    "emits (case r of None \<Rightarrow> ret [] | Some r \<Rightarrow> threshold_events a b (k r) r)" for g f a b k r
    by (rule emits_thresholds emit_intros emits_bind | simp; fail)+
  show ?thesis
    unfolding warning_events_def
    by (rule emits_bind_gets emits_bind_events [OF first(1)] emits_bind_events [OF first(2)] emit_intros | simp; fail)+
qed

lemma emits_tick: "emits tick"
  unfolding tick_def case_prod_beta
  by (rule emits_bind_events [OF emits_clock] emits_bind_events [OF emits_offset] emits_bind_events [OF emits_account]
      emits_bind_events [OF emits_timer] emits_bind_events [OF emits_warnings] emits_bind_events [OF emits_refresh]
      emits_bind_gets emit_intros | simp; fail)+

lemma emits_close: "emits (close_current_game now reason)"
  unfolding close_current_game_def by (rule emit_intros emits_bind | simp; fail)+

lemma emits_stop: "emits (stop_game reason)"
  unfolding stop_game_def
  by (rule emits_bind_events [OF emits_tick] emits_bind_events [OF emits_close] emits_bind_events [OF emits_refresh]
      emits_bind_gets emit_intros | simp; fail)+

lemma emits_set_game: "emits (set_game game reason)"
proof -
  have first: "emits (if b then close_current_game now r else ret [])" for b now r
    by (rule emits_close emit_intros | simp; fail)+
  show ?thesis
    unfolding set_game_def case_prod_beta
    by (rule emits_bind_events [OF emits_tick] emits_bind_events [OF first] emit_steps emit_intros emits_bind_gets emits_bind
        | simp add: game_started_events_def; fail)+
qed

section \<open>What a dispatch leaves behind\<close>

text \<open>The enforcement manager after one event, for the engine and the configuration at hand.\<close>

definition managed :: "surrounding \<Rightarrow> config \<Rightarrow> engine \<Rightarrow> domain_event \<Rightarrow> manager \<Rightarrow> manager" where
  "managed ex c e event m =
     (if e_kind event = ''restriction.activated''
      then (case (current_game e, payload_get ''level'' (PInt 0) event) of
              (Some g, PInt level) \<Rightarrow>
                if 2 \<le> level
                then arm g c level (py_str (ex_float_repr ex) (payload_get ''reason'' (PStr ''limit'') event)) False (monotonic e) m
                else m
            | _ \<Rightarrow> m)
      else if e_kind event = ''enforcement.new_game_blocked'' \<or> e_kind event = ''enforcement.game_started_while_restricted''
      then (case current_game e of
              Some g \<Rightarrow>
                if is_dict_payload ''game'' event
                then arm g c (if e_kind event = ''enforcement.new_game_blocked'' then max 3 (restriction_level e)
                              else max 2 (restriction_level e)) (reason_value (restriction_reason e))
                       (e_kind event = ''enforcement.new_game_blocked'') (monotonic e) m
                else m
            | None \<Rightarrow> m)
      else if e_kind event = ''restriction.cleared'' \<or> e_kind event = ''game.stopped'' then cancel m
      else m)"

definition published :: "domain_event \<Rightarrow> pyval event_bus \<Rightarrow> pyval event_bus" where
  "published event b = publish (event_to_dict event) b"

text \<open>\<open>t\<close> is \<open>s\<close> with another bus, manager and list of notices.\<close>

definition moved_to :: "service \<Rightarrow> pyval event_bus \<Rightarrow> manager \<Rightarrow> service \<Rightarrow> bool" where
  "moved_to s b m t = (sv_bus t = b \<and> sv_manager t = m \<and> sv_engine t = sv_engine s \<and> sv_config t = sv_config s
     \<and> sv_settings t = sv_settings s \<and> sv_heartbeat t = sv_heartbeat s \<and> sv_decky_signal t = sv_decky_signal s
     \<and> sv_simulation t = sv_simulation s \<and> sv_tick_wake t = sv_tick_wake s
     \<and> sv_notifier_enabled t = sv_notifier_enabled s)"

lemma dispatch_run:
  assumes "level_given event"
  shows "\<exists>t. dispatch ex event s = (Inr (), t)
    \<and> moved_to s (published event (sv_bus s)) (managed ex (sv_config s) (sv_engine s) event (sv_manager s)) t"
proof -
  consider "e_kind event = ''notification.warning''" | "e_kind event = ''restriction.activated''"
    | "e_kind event = ''enforcement.new_game_blocked'' \<or> e_kind event = ''enforcement.game_started_while_restricted''"
    | "e_kind event \<notin> {''notification.warning'', ''restriction.activated'', ''enforcement.new_game_blocked'',
        ''enforcement.game_started_while_restricted''}" by blast
  then show ?thesis
  proof cases
    case 1
    then show ?thesis
      by (simp add: dispatch_def publish_event_def published_def send_notice_def managed_def thenP_run moved_to_def)
  next
    case 2
    then obtain level where level: "payload_get ''level'' (PInt 0) event = PInt level"
      using assms by (auto simp: level_given_def)
    then have int: "int_or_raise (payload_get ''level'' (PInt 0) event) = Inr level"
      by (simp add: int_or_raise_def py_int_of_def)
    show ?thesis
      using 2 level int
      by (simp add: dispatch_def publish_event_def published_def dispatch_restriction_def send_notice_def arm_manager_def
          managed_def prog_simps Let_def moved_to_def split: option.splits)
  next
    case 3
    then show ?thesis
      by (auto simp: dispatch_def publish_event_def published_def dispatch_launch_def arm_manager_def
          managed_def prog_simps Let_def moved_to_def split: option.splits)
  next
    case 4
    then show ?thesis
      by (auto simp: dispatch_def publish_event_def published_def cancel_manager_def managed_def prog_simps moved_to_def)
  qed
qed

lemma dispatch_many_run:
  "list_all level_given es \<Longrightarrow> \<exists>t. dispatch_many ex es s = (Inr (), t)
    \<and> moved_to s (fold published es (sv_bus s)) (fold (managed ex (sv_config s) (sv_engine s)) es (sv_manager s)) t"
proof (induction es arbitrary: s)
  case Nil
  show ?case by (simp add: moved_to_def)
next
  case (Cons event es)
  then obtain t where t: "dispatch ex event s = (Inr (), t)"
    "moved_to s (published event (sv_bus s)) (managed ex (sv_config s) (sv_engine s) event (sv_manager s)) t"
    using dispatch_run [of event ex s] by auto
  obtain t' where "dispatch_many ex es t = (Inr (), t')"
    "moved_to t (fold published es (sv_bus t)) (fold (managed ex (sv_config t) (sv_engine t)) es (sv_manager t)) t'"
    using Cons.IH [of t] Cons.prems by auto
  with t show ?case by (auto simp: thenP_run moved_to_def)
qed

end
