(* ===== verification/Launch.thy ===== *)
theory Launch
  imports Dispatched
begin

text \<open>
  What starting and stopping a game does to the engine, and through the dispatch of its events
  to the enforcement manager: a launch under a restriction leaves a flow armed for that game,
  a stop leaves none.
\<close>

section \<open>The engine's answer\<close>

text \<open>What the session changes leave alone.\<close>

definition standing :: "engine \<Rightarrow> config \<times> fake_clock \<times> restriction_reason \<times> int" where
  "standing e = (cfg e, clock e, restriction_reason e, restriction_level e)"

lemma standing_store [inv_intros]: "holds (\<lambda>e. standing e = v) (store m)"
  by (intro holds_store) (simp add: standing_def)

lemma standing_flush [inv_intros]: "holds (\<lambda>e. standing e = v) flush_usage_buckets"
  unfolding flush_usage_buckets_def
  by (rule inv_intros holds_modify | simp add: standing_def; fail)+

lemma standing_close: "holds (\<lambda>e. standing e = v) (close_current_game now reason)"
  unfolding close_current_game_def
  by (rule inv_intros holds_modify | simp add: standing_def; fail)+

lemma standing_open: "holds (\<lambda>e. standing e = v) (open_game_session game now)"
  unfolding open_game_session_def
  by (rule inv_intros holds_modify | simp add: standing_def; fail)+

lemma close_returns:
  assumes "ready e"
  shows "wp (close_current_game now reason)
    (\<lambda>_ e'. ready e' \<and> frame e' = frame e \<and> session_of e' = (None, None, 0) \<and> standing e' = standing e) (\<lambda>_ _. False) e"
proof -
  have inv: "eng_inv False e" using assms by (simp add: ready_def)
  have "wp (close_current_game now reason)
      (\<lambda>_ e'. ready e' \<and> frame e' = frame e \<and> session_of e' = (None, None, 0)) (\<lambda>_ _. False) e"
  proof (rule close_current_game_wp [OF inv])
    fix e' assume e': "eng_inv False e'" "frame e' = frame e" "session_of e' = (None, None, 0)"
      "pending_usage_buckets e' \<in> {[], pending_usage_buckets e}"
    then have "ready e'" by (intro ready_after [OF assms]) (simp_all add: session_of_def)
    with e' show "ready e' \<and> frame e' = frame e \<and> session_of e' = (None, None, 0)" by simp
  qed (use ready_not_unflushable [OF assms] in simp)
  from wp_holds [OF standing_close refl this] show ?thesis by (rule wp_mono) simp_all
qed

lemma open_returns:
  assumes "ready e" "session_id e = None" "bucketable game"
  shows "wp (open_game_session game now)
    (\<lambda>_ e'. eng_inv False e' \<and> current_game e' = Some game \<and> standing e' = standing e) (\<lambda>_ _. False) e"
proof -
  have inv: "eng_inv False e" using assms by (simp add: ready_def)
  have "wp (open_game_session game now)
      (\<lambda>_ e'. eng_inv False e' \<and> current_game e' = Some game) (\<lambda>_ _. False) e"
    by (rule open_game_session_wp [OF inv assms(2)]) (simp_all add: session_of_def)
  from wp_holds [OF standing_open refl this] show ?thesis by (rule wp_mono) simp_all
qed

text \<open>\<open>e1\<close> is the engine after the tick with which a launch begins.\<close>

lemma set_game_launches:
  assumes ready: "ready e1" and ticked: "tick e = (Inr evs, e1)" and game: "bucketable game"
    and new: "case current_game e1 of None \<Rightarrow> True | Some g \<Rightarrow> \<not> same_game g game"
  shows "\<exists>es e'. set_game game reason e = (Inr (es @ game_started_events game reason e'), e')
    \<and> eng_inv False e' \<and> current_game e' = Some game \<and> standing e' = standing e1"
proof -
  let ?done = "\<lambda>_ e'. eng_inv False e' \<and> current_game e' = Some game \<and> standing e' = standing e1"
  have opens: "wp (open_game_session game now) ?done (\<lambda>_ _. False) e2"
    if "ready e2" "session_id e2 = None" "standing e2 = standing e1" for e2 now
    using open_returns [OF that(1,2) game, of now] that(3) by simp
  have inv: "eng_inv False e1" using ready by (simp add: ready_def)
  have "wp (if current_game e1 \<noteq> None then close_current_game (now_utc e1) ''game_changed'' else ret [])
      (\<lambda>_ e2. ready e2 \<and> session_id e2 = None \<and> standing e2 = standing e1) (\<lambda>_ _. False) e1"
  proof (cases "current_game e1")
    case None
    then show ?thesis using no_game_no_session [OF inv] ready by simp
  next
    case (Some g)
    then show ?thesis
      using close_returns [OF ready] by simp (rule wp_mono, assumption, simp_all add: session_of_def)
  qed
  from wp_bindI [OF this, of "\<lambda>ev2. thenP (open_game_session game (now_utc e1))
      (bindP (gets (game_started_events game reason)) (\<lambda>ev3. ret (evs @ ev2 @ ev3)))"
      "\<lambda>es e'. (\<exists>pre. es = pre @ game_started_events game reason e') \<and> ?done es e'"]
  have step: "wp (bindP (if current_game e1 \<noteq> None then close_current_game (now_utc e1) ''game_changed'' else ret [])
     (\<lambda>ev2. thenP (open_game_session game (now_utc e1))
      (bindP (gets (game_started_events game reason)) (\<lambda>ev3. ret (evs @ ev2 @ ev3)))))
     (\<lambda>es e'. (\<exists>pre. es = pre @ game_started_events game reason e') \<and> ?done es e') (\<lambda>_ _. False) e1"
  proof this
    fix ev2 e2 assume "ready e2 \<and> session_id e2 = None \<and> standing e2 = standing e1"
    then show "wp (thenP (open_game_session game (now_utc e1))
      (bindP (gets (game_started_events game reason)) (\<lambda>ev3. ret (evs @ ev2 @ ev3))))
      (\<lambda>es e'. (\<exists>pre. es = pre @ game_started_events game reason e') \<and> ?done es e') (\<lambda>_ _. False) e2"
      using opens [of e2 "now_utc e1"]
      by simp
  qed
  have "set_game game reason e = bindP (if current_game e1 \<noteq> None then close_current_game (now_utc e1) ''game_changed'' else ret [])
     (\<lambda>ev2. thenP (open_game_session game (now_utc e1))
      (bindP (gets (game_started_events game reason)) (\<lambda>ev3. ret (evs @ ev2 @ ev3)))) e1"
    using game ticked new by (simp add: set_game_def bucketable_def prog_simps split: option.splits)
  with wp_returns [OF step] show ?thesis by auto
qed

section \<open>The enforcement manager after the dispatch\<close>

lemma managed_without_game:
  "current_game e = None \<Longrightarrow> task m = None \<Longrightarrow> task (managed ex c e event m) = None"
  by (simp add: managed_def cancel_def)

lemma managed_many_without_game:
  "current_game e = None \<Longrightarrow> task m = None \<Longrightarrow> task (fold (managed ex c e) es m) = None"
  by (induction es arbitrary: m) (simp_all add: managed_without_game)

lemma managed_stop: "e_kind event = ''game.stopped'' \<Longrightarrow> task (managed ex c e event m) = None"
  by (simp add: managed_def cancel_def)

text \<open>The flow a launch under restriction \<open>level\<close> arms.\<close>

definition launch_flow :: "game_identity \<Rightarrow> config \<Rightarrow> engine \<Rightarrow> manager \<Rightarrow> flow" where
  "launch_flow g c e m = \<lparr>fl_generation = generation m, fl_game = g, fl_plan = build_plan c (restriction_level e),
     fl_reason = reason_value (restriction_reason e),
     fl_delay = (if 3 \<le> restriction_level e then c_launch_grace_seconds c else c_grace_seconds c),
     fl_stage = Started, fl_due = monotonic e\<rparr>"

lemma managed_launch:
  assumes "2 \<le> restriction_level e" and "current_game e = Some g"
  shows "let m' = fold (managed ex c e) (game_started_events g reason e) m in task m' = Some (launch_flow g c e m')"
  using assms
  by (simp add: game_started_events_def managed_def engine_event_def is_dict_payload_def payload_get_def dict_get_def
      game_to_dict_def arm_def Let_def launch_flow_def build_plan_def)

lemma moved_tick_wake: "moved_to s b m t \<Longrightarrow> wake_tick t = (Inr (), t\<lparr>sv_tick_wake := True\<rparr>)"
  by (simp add: wake_tick_def)

lemma detector_run:
  assumes "de_type event \<noteq> ERROR" "\<not> decky_overrides event s"
    and "apply_detector_event event (sv_engine s) = (Inr es, e')" "list_all level_given es"
  shows "\<exists>t. consume_detector_event ex event s = (Inr (), t) \<and> sv_engine t = e'
    \<and> sv_bus t = fold published es (sv_bus s) \<and> sv_manager t = fold (managed ex (sv_config s) e') es (sv_manager s)"
proof -
  obtain t where "dispatch_many ex es (s\<lparr>sv_engine := e'\<rparr>) = (Inr (), t)"
    "moved_to (s\<lparr>sv_engine := e'\<rparr>) (fold published es (sv_bus s)) (fold (managed ex (sv_config s) e') es (sv_manager s)) t"
    using dispatch_many_run [OF assms(4), of ex "s\<lparr>sv_engine := e'\<rparr>"] by auto
  with assms(1-3) show ?thesis
    by (simp add: consume_detector_event_def prog_simps with_engine_run wake_tick_def moved_to_def catchP_def)
qed

section \<open>What a tick keeps and settles\<close>

lemma game_kept: "holds (\<lambda>e. current_game e = v) tick"
proof -
  have deaf: "deaf (\<lambda>e. current_game e = v)" by (simp add: deaf_def)
  have charge: "holds (\<lambda>e. current_game e = v) (account_game_elapsed a b c d)" for a b c d
    unfolding account_game_elapsed_def queue_usage_buckets_def by (intro inv_intros holds_modify deaf) simp_all
  have rotate: "holds (\<lambda>e. current_game e = v) (rotate_current_session now k)" for now k
    unfolding rotate_current_session_def by (intro inv_intros holds_modify deaf) simp_all
  have roll: "holds (\<lambda>e. current_game e = v) (roll_day now k)" for now k
    unfolding roll_day_def by (intro rotate inv_intros holds_modify deaf) simp_all
  have account: "holds (\<lambda>e. current_game e = v) (tick_account a b)" for a b
    unfolding tick_account_def by (intro charge roll inv_intros holds_modify deaf)
  have parts: "holds (\<lambda>e. current_game e = v) tick_offset" "holds (\<lambda>e. current_game e = v) (tick_timer a)"
    "holds (\<lambda>e. current_game e = v) tick_checkpoint" for a
    unfolding tick_offset_def tick_timer_def tick_checkpoint_def
    by (intro inv_intros holds_modify deaf; simp)+
  show ?thesis
    unfolding tick_def by (intro account parts inv_intros holds_modify deaf) simp_all
qed

text \<open>What a tick that returns leaves: the same game, configuration and clock, and the policy's verdict.\<close>

lemma tick_leaves:
  assumes "tick e = (Inr evs, e')"
  shows "current_game e' = current_game e" "cfg e' = cfg e" "clock e' = clock e" "settled e'"
    "restriction_of e' = (restriction_reason e', restriction_level e')"
  using holds_run [OF game_kept refl assms] tick_settles [of e] assms by (auto simp: wp_def settled_def)

lemma tick_ready: "ready e \<Longrightarrow> tick e = (r, e') \<Longrightarrow> ready e' \<and> (\<exists>evs. r = Inr evs \<and> list_all level_given evs)"
  using wp_returns [OF surelyD [OF sure_tick]] emits_tick unfolding emits_def by fastforce

text \<open>A tick right after a tick.\<close>

lemma tick_again:
  assumes "ready e" "settled e"
  shows "\<exists>e'. tick e = (Inr [], e') \<and> ready e' \<and> settled e' \<and> usage_view e' = usage_view e
    \<and> timer_core (timer e') = timer_core (timer e)
    \<and> restriction_level e' = restriction_level e \<and> restriction_reason e' = restriction_reason e"
proof -
  obtain evs e' where run: "tick e = (Inr evs, e')" "ready e'"
    using tick_ready [OF assms(1)] by (cases "tick e") blast
  have "eng_inv False e" using assms(1) by (simp add: ready_def)
  from second_tick [OF this assms(2)] run tick_leaves(4) [OF run(1)] show ?thesis by (auto simp: wp_def)
qed

section \<open>Stopping\<close>

lemma close_emits:
  assumes "close_current_game now reason e = (Inr es, e')" "current_game e \<noteq> None" "truthy (session_id e)"
  shows "\<exists>x. es = [x] \<and> e_kind x = ''game.stopped''"
  using assms
  by (auto simp: close_current_game_def prog_simps bindP_def thenP_def engine_event_def
      split: prod.splits sum.splits)

lemma session_truthy:
  assumes "eng_inv x e" "current_game e \<noteq> None"
  shows "truthy (session_id e)"
proof -
  obtain i where i: "session_id e = Some i" using no_game_no_session [OF assms(1)] assms(2) by auto
  then have "i \<noteq> []" using assms(1) by (auto simp: eng_inv_def session_ok_def)
  with i show ?thesis by simp
qed

lemma stop_game_stops:
  assumes "ready e" "current_game e \<noteq> None"
  shows "\<exists>pre x post e'. stop_game reason e = (Inr (pre @ [x] @ post), e') \<and> e_kind x = ''game.stopped''
    \<and> ready e' \<and> current_game e' = None"
proof -
  obtain evs e1 where tick: "tick e = (Inr evs, e1)" "ready e1"
    using tick_ready [OF assms(1)] by (cases "tick e") blast
  have game: "current_game e1 \<noteq> None" using tick_leaves(1) [OF tick(1)] assms(2) by simp
  obtain es e2 where close: "close_current_game (now_utc e) reason e1 = (Inr es, e2)" "ready e2" "current_game e2 = None"
    using wp_returns [OF close_returns [OF tick(2), of "now_utc e" reason]] by (auto simp: session_of_def)
  have "eng_inv False e1" using tick(2) by (simp add: ready_def)
  then obtain x where x: "es = [x]" "e_kind x = ''game.stopped''"
    using close_emits [OF close(1) game session_truthy] game by blast
  have "deaf (\<lambda>e. current_game e = None)" by (simp add: deaf_def)
  from wp_holds [OF deaf_refresh [OF this] close(3) surelyD [OF sure_refresh close(2)]]
  have "wp (refresh_restriction True) (\<lambda>_ e3. ready e3 \<and> current_game e3 = None) (\<lambda>_ _. False) e2"
    by (rule wp_mono) simp_all
  from wp_returns [OF this]
  obtain post e3 where "refresh_restriction True e2 = (Inr post, e3)" "ready e3" "current_game e3 = None"
    by blast
  then show ?thesis
    using tick(1) close(1) x by (auto simp: stop_game_def prog_simps intro!: exI [of _ evs])
qed

section \<open>Starting the timer\<close>

lemma start_timer_runs:
  assumes "ready e" "settled e" "restriction_level e = 0" "60 \<le> seconds" "seconds \<le> 86400" "action \<in> set timer_actions"
  shows "\<exists>event e' g. start_timer seconds action e = (Inr [event], e') \<and> level_given event
    \<and> timer e' = new_timer seconds action g (now_utc e) \<and> load_timer (storage e') = timer e'
    \<and> current_game e' = current_game e \<and> played_today e' = played_today e"
proof -
  obtain e1 where e1: "tick e = (Inr [], e1)" "usage_view e1 = usage_view e" "restriction_level e1 = 0"
    using tick_again [OF assms(1,2)] assms(3) by auto
  moreover from e1(2) have "now_utc e1 = now_utc e" "current_game e1 = current_game e" "played_today e1 = played_today e"
    by (simp_all add: usage_view_def now_utc_def)
  moreover have "\<exists>d. engine_record_event k p sv x = (Inr (engine_event k p sv x), x\<lparr>storage := d\<rparr>)
      \<and> timer_table d = timer_table (storage x)" for k p sv x
    by (simp add: engine_record_event_def prog_simps store_def record_event_def, intro exI conjI, rule refl, simp)
  then obtain d where "\<And>k p sv x. engine_record_event k p sv x = (Inr (engine_event k p sv x), x\<lparr>storage := d k p sv x\<rparr>)"
    "\<And>k p sv x. timer_table (d k p sv x) = timer_table (storage x)"
    by metis
  ultimately show ?thesis
    using assms(4-6)
    by (simp add: start_timer_def prog_simps new_uuid_def install_timer_def save_timer_def load_timer_def
        clear_notification_scope_def store_def new_timer_def)
qed

lemma start_timer_refused:
  assumes "ready e" "settled e" "1 \<le> restriction_level e"
  shows "\<exists>e'. start_timer seconds action e = (Inl (DomainError ''cannot start a timer while play is restricted''), e')
    \<and> usage_view e' = usage_view e \<and> timer_core (timer e') = timer_core (timer e)"
  using tick_again [OF assms(1,2)] assms(3) by (auto simp: start_timer_def prog_simps)

section \<open>A silent tick changes no restriction\<close>

abbreviation verdict :: "engine \<Rightarrow> restriction_reason \<times> int" where
  "verdict e \<equiv> (restriction_reason e, restriction_level e)"

lemma verdict_kept [inv_intros]:
  "holds (\<lambda>e. verdict e = v) (store m)"
  "holds (\<lambda>e. verdict e = v) (engine_record_event k p sv)"
  "holds (\<lambda>e. verdict e = v) flush_usage_buckets"
  "holds (\<lambda>e. verdict e = v) (warning_text l sc n)"
proof -
  show store: "holds (\<lambda>e. verdict e = v) (store m)" for m :: "'x db_prog" by (intro holds_store) simp
  show "holds (\<lambda>e. verdict e = v) (engine_record_event k p sv)"
    unfolding engine_record_event_def by (intro inv_intros store)
  show "holds (\<lambda>e. verdict e = v) flush_usage_buckets"
    unfolding flush_usage_buckets_def by (intro inv_intros store holds_modify) simp_all
  show "holds (\<lambda>e. verdict e = v) (warning_text l sc n)"
    by (rule deaf_warning_text)
qed

lemma verdict_parts:
  "holds (\<lambda>e. verdict e = v) (tick_clock a b)" "holds (\<lambda>e. verdict e = v) tick_offset"
  "holds (\<lambda>e. verdict e = v) (tick_account a r)" "holds (\<lambda>e. verdict e = v) (tick_timer a)"
  "holds (\<lambda>e. verdict e = v) tick_checkpoint" "holds (\<lambda>e. verdict e = v) (warning_events p)"
proof -
  have charge: "holds (\<lambda>e. verdict e = v) (account_game_elapsed a b c d)" for a b c d
    unfolding account_game_elapsed_def queue_usage_buckets_def by (intro inv_intros verdict_kept holds_modify) simp_all
  have rotate: "holds (\<lambda>e. verdict e = v) (rotate_current_session now k)" for now k
    unfolding rotate_current_session_def by (intro inv_intros verdict_kept holds_modify) simp_all
  have roll: "holds (\<lambda>e. verdict e = v) (roll_day now k)" for now k
    unfolding roll_day_def by (intro rotate inv_intros verdict_kept holds_modify) simp_all
  have threshold: "holds (\<lambda>e. verdict e = v) (threshold_events sc k pr re)" for sc k pr re
    unfolding threshold_events_def Let_def by (intro inv_intros verdict_kept)
  show "holds (\<lambda>e. verdict e = v) (tick_clock a b)"
    unfolding tick_clock_def record_suspend_gap_def Let_def by (intro inv_intros verdict_kept)
  show "holds (\<lambda>e. verdict e = v) tick_offset"
    unfolding tick_offset_def by (intro inv_intros verdict_kept holds_modify) simp_all
  show "holds (\<lambda>e. verdict e = v) (tick_account a r)"
    unfolding tick_account_def by (intro charge roll inv_intros verdict_kept holds_modify)
  show "holds (\<lambda>e. verdict e = v) (tick_timer a)"
    unfolding tick_timer_def by (intro inv_intros verdict_kept holds_modify) simp_all
  show "holds (\<lambda>e. verdict e = v) tick_checkpoint"
    unfolding tick_checkpoint_def by (intro inv_intros verdict_kept holds_modify) simp_all
  show "holds (\<lambda>e. verdict e = v) (warning_events p)"
    unfolding warning_events_def by (intro threshold inv_intros verdict_kept)
qed

lemma silent_refresh: "wp (refresh_restriction True) (\<lambda>evs e'. evs = [] \<longrightarrow> verdict e' = verdict e) (\<lambda>_ _. True) e"
  by (auto simp: wp_def refresh_restriction_def prog_simps bindP_def split: prod.splits sum.splits)

lemma silent_tick: "wp tick (\<lambda>evs e'. evs = [] \<longrightarrow> verdict e' = verdict e) (\<lambda>_ _. True) e"
proof -
  define V where "V e' = (verdict e' = verdict e)" for e'
  note kept = verdict_parts [of "verdict e", folded V_def]
  have refresh: "wp (refresh_restriction True) (\<lambda>evs e'. evs = [] \<longrightarrow> V e') (\<lambda>_ _. True) e1" if "V e1" for e1
    by (rule wp_mono [OF silent_refresh]) (use that in \<open>simp_all add: V_def\<close>)
  have start: "V e" by (simp add: V_def)
  show ?thesis
    unfolding tick_def wp_bindP [of "gets _"] wp_gets case_prod_beta V_def [symmetric]
    by (rule wp_bindI [OF holds_post [OF kept(1) start]], rule wp_bindI [OF holds_post [OF kept(2)]], assumption,
        rule wp_bindI [OF holds_post [OF kept(3)]], assumption, rule wp_bindI [OF holds_post [OF kept(4)]], assumption,
        rule wp_thenI [OF holds_post [OF kept(5)]], assumption, rule wp_bindI [OF holds_post [OF kept(6)]], assumption,
        rule wp_bindI [OF refresh], assumption) (simp add: V_def)
qed

end
