(* ===== verification/Serving.thy ===== *)
theory Serving
  imports Launch
begin

text \<open>
  The properties of the service: what every request keeps, what a launch and a stop do to the
  enforcement, and what a request answers, publishes and refuses.
\<close>

section \<open>Concrete services\<close>

definition demo_surrounding :: surrounding where
  "demo_surrounding = \<lparr>ex_zoneinfo = no_zones, ex_system_zone = utc_zone, ex_float_repr = blank,
     ex_version = ''1.0'', ex_pid = 7\<rparr>"

definition demo_service :: "engine \<Rightarrow> service" where
  "demo_service e = \<lparr>sv_settings = DEFAULT_CONFIG, sv_config = cfg e, sv_engine = e, sv_manager = new_manager,
     sv_bus = new_bus 128, sv_notices = [], sv_notifier_enabled = True, sv_heartbeat = None, sv_decky_signal = None,
     sv_simulation = False, sv_tick_wake = False\<rparr>"

lemma demo_service_fields [simp]:
  "sv_engine (demo_service e) = e" "sv_config (demo_service e) = cfg e" "sv_decky_signal (demo_service e) = None"
  "sv_manager (demo_service e) = new_manager" "sv_settings (demo_service e) = DEFAULT_CONFIG"
  "sv_bus (demo_service e) = new_bus 128"
  by (simp_all add: demo_service_def)

lemma demo_not_overridden [simp]: "\<not> decky_overrides event (demo_service e)"
  by (simp add: decky_overrides_def decky_signal_is_recent_def split: option.splits)

text \<open>Ten seconds into a game, at noon, with play allowed in the first hour of the day only and
  the restriction level 2.\<close>

definition demo_shut :: engine where
  "demo_shut = demo_playing\<lparr>cfg := demo_config\<lparr>c_level := 2,
     c_allowed_periods := [\<lparr>ap_days = [weekday_at 0], ap_start = 0, ap_end = 3600000000\<rparr>]\<rparr>\<rparr>"

lemma demo_shut_fields:
  "storage demo_shut = demo_tables" "current_game demo_shut = Some demo_game" "timer demo_shut = idle_timer"
  "c_level (cfg demo_shut) = 2" "c_daily_enabled (cfg demo_shut)" "monotonic demo_shut = 10"
  using demo_playing_fields(12)
  by (simp_all add: demo_shut_def demo_playing_fields monotonic_def) (simp_all add: demo_config_def)

lemma demo_shut_ready: "ready demo_shut"
proof -
  have "compute_day_key demo_shut = compute_day_key demo_playing"
    by (simp add: demo_shut_def compute_day_key_def now_utc_def demo_playing_fields demo_config_def)
  moreover have "wf_config (cfg demo_shut)"
    using demo_config_ok by (simp add: demo_shut_def wf_config_def wf_period_def day_us_def demo_config_def)
  ultimately show ?thesis
    using demo_playing_ready
    by (simp add: ready_def ready_extra_def demo_shut_def eng_inv_def session_ok_def stored_total_def)
qed

lemma demo_shut_outside: "\<not> within_allowed_period (cfg demo_shut) (now_utc demo_shut)"
  by (simp add: demo_shut_def demo_playing_def base_engine_def within_allowed_period_def Let_def period_allows_def
      demo_config_def demo_clock_def clock_advance_def now_utc_def to_local_def zone_offset_def utc_zone_def
      timedelta_seconds_def py_round_def day_us_def time_of_def at_time_def)

section \<open>Every state of the service\<close>

text \<open>C20: Whatever is requested, detected or left to run, restarts included, the service's tables and
  memory agree: the one open session row is the session in memory, the day's stored play time is
  covered by the time charged, and the session timer holds at most a day. The zone database is
  assumed to give well-formed zones.\<close>

theorem service_keeps_ledger:
  assumes "zones_ok (ex_zoneinfo ex) (ex_system_zone ex)" and "served ex s"
  shows "(case session_id (sv_engine s) of
      None \<Rightarrow> current_game (sv_engine s) = None \<and> filter is_open (sessions (storage (sv_engine s))) = []
    | Some i \<Rightarrow> current_game (sv_engine s) \<noteq> None
        \<and> (\<exists>r. filter is_open (sessions (storage (sv_engine s))) = [r] \<and> s_id r = i
            \<and> s_day_key r = day_key (sv_engine s) \<and> s_duration r \<le> session_duration (sv_engine s)))
    \<and> usage_for_day (day_key (sv_engine s)) (storage (sv_engine s)) \<le> played_today (sv_engine s)
    \<and> 0 \<le> t_remaining (timer (sv_engine s)) \<and> t_remaining (timer (sv_engine s)) \<le> 86400"
proof -
  have inv: "eng_inv False (sv_engine s)" using served_inv [OF assms] .
  show ?thesis
    using inv_one_session [OF inv] inv_usage_covered [OF inv] inv_timer [OF inv]
    by (auto split: option.splits)
qed

lemma demo_installed: "\<exists>s. service_init demo_surrounding None False Missing (empty_db demo_ids) demo_clock = Inr s"
proof -
  define c where "c = typed_config no_zones utc_zone blank DEFAULT_CONFIG"
  have load: "load_config no_zones utc_zone blank Missing = Inr (DEFAULT_CONFIG, None)"
    by (simp add: load_config_def default_items_valid)
  have "wf_config c" unfolding c_def by (rule loaded_wf [OF no_zones_ok load])
  then obtain e where "new_engine (empty_db demo_ids) c demo_clock = (Inr (), e)"
    using new_engine_inv [OF demo_db_ok(1) _ demo_db_ok(2)] by blast
  then show ?thesis
    by (simp add: service_init_def load demo_surrounding_def with_simulation_def Let_def c_def [symmetric])
qed

theorem service_keeps_ledger_demo:
  "\<exists>s. served demo_surrounding s
    \<and> usage_for_day (day_key (sv_engine s)) (storage (sv_engine s)) \<le> played_today (sv_engine s)"
proof -
  obtain s where "service_init demo_surrounding None False Missing (empty_db demo_ids) demo_clock = Inr s"
    using demo_installed by blast
  then have served: "served demo_surrounding s" by (rule served.installed [OF demo_ids_ok])
  have zones: "zones_ok (ex_zoneinfo demo_surrounding) (ex_system_zone demo_surrounding)"
    using no_zones_ok by (simp add: demo_surrounding_def)
  show ?thesis using served service_keeps_ledger [OF zones served] by blast
qed

section \<open>Launch and stop\<close>

text \<open>C21: A game the detectors report while play is restricted at level 2 or 3 is set as the running
  game and, by the dispatch of its launch, has an enforcement flow armed: for this game, at the
  level in force, due now, with the launch grace at level 3 and the ordinary grace at level 2.
  Whatever flow was armed before is gone.\<close>

theorem restricted_launch_is_armed:
  assumes "ready (sv_engine s)" and "bucketable game"
    and "de_type event = STARTED" and "de_game event = Some game" and "\<not> decky_overrides event s"
    and "tick (sv_engine s) = (Inr evs, e1)" and "2 \<le> restriction_level e1"
    and "case current_game e1 of None \<Rightarrow> True | Some g \<Rightarrow> \<not> same_game g game"
  shows "\<exists>s' f. consume_detector_event ex event s = (Inr (), s') \<and> current_game (sv_engine s') = Some game
    \<and> task (sv_manager s') = Some f \<and> fl_generation f = generation (sv_manager s') \<and> fl_game f = game
    \<and> fl_stage f = Started \<and> fl_due f = monotonic (sv_engine s)
    \<and> fl_plan f = build_plan (sv_config s) (restriction_level e1)
    \<and> fl_delay f = (if 3 \<le> restriction_level e1 then c_launch_grace_seconds (sv_config s) else c_grace_seconds (sv_config s))"
proof -
  have "ready e1" using tick_ready [OF assms(1,6)] by blast
  from set_game_launches [OF this assms(6,2,8), of "reason_or (event_type_value STARTED) (de_reason event)"]
  obtain es e' where run: "apply_detector_event event (sv_engine s)
      = (Inr (es @ game_started_events game (reason_or (event_type_value STARTED) (de_reason event)) e'), e')"
    and game: "current_game e' = Some game" and stands: "standing e' = standing e1"
    using assms(3,4) by (auto simp: apply_detector_event_def)
  have "list_all level_given (es @ game_started_events game (reason_or (event_type_value STARTED) (de_reason event)) e')"
    using run emits_set_game assms(3,4) unfolding emits_def apply_detector_event_def by fastforce
  from detector_run [OF _ assms(5) run this] assms(3)
  obtain t where t: "consume_detector_event ex event s = (Inr (), t)" "sv_engine t = e'" "sv_manager t
      = fold (managed ex (sv_config s) e') (game_started_events game (reason_or (event_type_value STARTED) (de_reason event)) e')
          (fold (managed ex (sv_config s) e') es (sv_manager s))"
    by auto
  have same: "restriction_level e' = restriction_level e1" "monotonic e' = monotonic (sv_engine s)"
    using stands tick_leaves(3) [OF assms(6)] by (simp_all add: standing_def monotonic_def)
  with assms(7) have "2 \<le> restriction_level e'" by simp
  from managed_launch [OF this game] t game same show ?thesis
    by (auto simp: Let_def launch_flow_def)
qed

definition demo_other :: game_identity where
  "demo_other = demo_game\<lparr>g_app_id := Some ''400'', g_name := ''Portal''\<rparr>"

lemma demo_other_bucketable: "bucketable demo_other"
  by (simp add: bucketable_def demo_other_def demo_game_def validate_game_def str_isdigit_def str_isdecimal_def ch_isdigit_def
      ch_isdecimal_def str_strip_def ch_isspace_def str_casefold_def ch_casefold_def Let_def)

lemma demo_shut_ticks:
  "\<exists>evs e1. tick demo_shut = (Inr evs, e1) \<and> current_game e1 = Some demo_game \<and> restriction_level e1 = 2"
proof -
  obtain evs e1 where run: "tick demo_shut = (Inr evs, e1)"
    using tick_ready [OF demo_shut_ready] by (cases "tick demo_shut") blast
  have "timer_core (timer e1) = timer_core (ticked_timer demo_shut)"
    using tick_runs_timer [of demo_shut] run by (simp add: wp_def)
  from timer_core_fields [OF this] have "t_state (timer e1) \<noteq> EXPIRED"
    by (simp add: ticked_timer_def demo_shut_fields idle_timer_def Let_def)
  moreover have "\<not> within_allowed_period (cfg e1) (now_utc e1)"
    using demo_shut_outside tick_leaves(2,3) [OF run] by (simp add: now_utc_def)
  ultimately have "restriction_level e1 = 2"
    using tick_leaves(2,5) [OF run] demo_shut_fields by (auto simp: restriction_of_def Let_def split: if_splits)
  with run tick_leaves(1) [OF run] demo_shut_fields show ?thesis by simp
qed

theorem restricted_launch_is_armed_demo:
  "\<exists>s' f. consume_detector_event demo_surrounding \<lparr>de_type = STARTED, de_game = Some demo_other, de_reason = None\<rparr>
      (demo_service demo_shut) = (Inr (), s') \<and> current_game (sv_engine s') = Some demo_other
    \<and> task (sv_manager s') = Some f \<and> fl_game f = demo_other \<and> pl_level (fl_plan f) = 2 \<and> fl_due f = 10"
proof -
  let ?event = "\<lparr>de_type = STARTED, de_game = Some demo_other, de_reason = None\<rparr>"
  obtain evs e1 where tick: "tick demo_shut = (Inr evs, e1)" "current_game e1 = Some demo_game" "restriction_level e1 = 2"
    using demo_shut_ticks by blast
  have new: "case current_game e1 of None \<Rightarrow> True | Some g \<Rightarrow> \<not> same_game g demo_other"
    using tick(2) by (simp add: same_game_def demo_other_def demo_game_def)
  have facts: "ready (sv_engine (demo_service demo_shut))" "de_type ?event = STARTED" "de_game ?event = Some demo_other"
    "tick (sv_engine (demo_service demo_shut)) = (Inr evs, e1)" "2 \<le> restriction_level e1"
    using demo_shut_ready tick by simp_all
  obtain s' f where "consume_detector_event demo_surrounding ?event (demo_service demo_shut) = (Inr (), s')"
    "current_game (sv_engine s') = Some demo_other" "task (sv_manager s') = Some f" "fl_game f = demo_other"
    "fl_plan f = build_plan (sv_config (demo_service demo_shut)) (restriction_level e1)"
    "fl_due f = monotonic (sv_engine (demo_service demo_shut))"
    using restricted_launch_is_armed [OF facts(1) demo_other_bucketable facts(2,3) demo_not_overridden facts(4,5) new] by blast
  moreover from this have "pl_level (fl_plan f) = 2" "fl_due f = 10"
    using tick(3) by (simp_all add: build_plan_def demo_shut_fields)
  ultimately show ?thesis by blast
qed

text \<open>A stop that concerns the running game closes its session and disarms the enforcement: after
  the dispatch no game, no open session row and no flow is left.\<close>

theorem stop_disarms:
  assumes "ready (sv_engine s)" and "current_game (sv_engine s) = Some game"
    and "de_type event = STOPPED" and "\<not> decky_overrides event s"
    and "case de_game event of None \<Rightarrow> True | Some g \<Rightarrow> truthy (g_app_id g) \<longrightarrow> g_app_id g = g_app_id game"
  shows "\<exists>s'. consume_detector_event ex event s = (Inr (), s') \<and> current_game (sv_engine s') = None
    \<and> session_id (sv_engine s') = None \<and> filter is_open (sessions (storage (sv_engine s'))) = []
    \<and> task (sv_manager s') = None"
proof -
  define reason where "reason = reason_or ''detector_exit'' (de_reason event)"
  obtain pre x post e' where run: "stop_game reason (sv_engine s) = (Inr (pre @ [x] @ post), e')"
    "e_kind x = ''game.stopped''" "ready e'" "current_game e' = None"
    using stop_game_stops [OF assms(1), of reason] assms(2) by auto
  have apply_it: "apply_detector_event event (sv_engine s) = (Inr (pre @ [x] @ post), e')"
    using assms(2,3,5) run(1) by (auto simp: apply_detector_event_def prog_simps reason_def split: option.splits)
  have "list_all level_given (pre @ [x] @ post)"
    using run(1) emits_stop unfolding emits_def by blast
  from detector_run [OF _ assms(4) apply_it this] assms(3)
  obtain t where t: "consume_detector_event ex event s = (Inr (), t)" "sv_engine t = e'"
    "sv_manager t = fold (managed ex (sv_config s) e') (pre @ [x] @ post) (sv_manager s)" by auto
  have "task (sv_manager t) = None"
    using run(2,4) t(3) by (simp add: managed_many_without_game managed_stop)
  moreover have "eng_inv False e'" using run(3) by (simp add: ready_def)
  ultimately show ?thesis
    using t inv_one_session [of False e'] no_game_no_session [of False e'] run(4) by (auto split: option.splits)
qed

theorem stop_disarms_demo:
  "\<exists>s'. consume_detector_event demo_surrounding \<lparr>de_type = STOPPED, de_game = Some demo_game, de_reason = None\<rparr>
      (demo_service demo_shut) = (Inr (), s') \<and> current_game (sv_engine s') = None \<and> task (sv_manager s') = None"
proof -
  let ?event = "\<lparr>de_type = STOPPED, de_game = Some demo_game, de_reason = None\<rparr>"
  have facts: "ready (sv_engine (demo_service demo_shut))" "current_game (sv_engine (demo_service demo_shut)) = Some demo_game"
    "de_type ?event = STOPPED"
    "case de_game ?event of None \<Rightarrow> True | Some g \<Rightarrow> truthy (g_app_id g) \<longrightarrow> g_app_id g = g_app_id demo_game"
    using demo_shut_ready by (simp_all add: demo_shut_fields)
  show ?thesis using stop_disarms [OF facts(1-3) demo_not_overridden facts(4)] by blast
qed

section \<open>Requests\<close>

lemma action_run:
  assumes "guarded_action action (sv_engine s) = (Inr (es, error), e')" and "list_all level_given es"
  shows "\<exists>t. engine_action ex action s
      = ((case error of Some m \<Rightarrow> Inl (RpcError ''invalid_state'' m) | None \<Rightarrow> Inr (status e')), t)
    \<and> sv_engine t = e' \<and> sv_bus t = fold published es (sv_bus s)
    \<and> sv_manager t = fold (managed ex (sv_config s) e') es (sv_manager s) \<and> sv_tick_wake t"
proof -
  obtain t where "dispatch_many ex es (s\<lparr>sv_engine := e'\<rparr>) = (Inr (), t)"
    "moved_to (s\<lparr>sv_engine := e'\<rparr>) (fold published es (sv_bus s)) (fold (managed ex (sv_config s) e') es (sv_manager s)) t"
    using dispatch_many_run [OF assms(2), of ex "s\<lparr>sv_engine := e'\<rparr>"] by auto
  with assms(1) show ?thesis
    by (auto simp: engine_action_def prog_simps with_engine_run wake_tick_def moved_to_def split: option.splits)
qed

text \<open>A status request accounts for the time up to now, answers with the state after that, and
  hands the events of the accounting in their order to the subscribers and to the enforcement; a
  second one at the same time publishes nothing more.\<close>

theorem status_publishes_tick:
  assumes "ready (sv_engine s)"
  shows "\<exists>evs e1 s1. tick (sv_engine s) = (Inr evs, e1) \<and> handle_rpc ex ''status'' params s = (Inr (StatusReply (status e1)), s1)
    \<and> sv_engine s1 = e1 \<and> sv_bus s1 = fold published evs (sv_bus s)
    \<and> sv_manager s1 = fold (managed ex (sv_config s) e1) evs (sv_manager s)
    \<and> (\<exists>reply s2. handle_rpc ex ''status'' params s1 = (Inr reply, s2) \<and> sv_bus s2 = sv_bus s1 \<and> sv_manager s2 = sv_manager s1
        \<and> usage_view (sv_engine s2) = usage_view e1)"
proof -
  have run: "\<exists>t. handle_rpc ex ''status'' params s = (Inr (StatusReply (status e1)), t) \<and> sv_engine t = e1
      \<and> sv_bus t = fold published evs (sv_bus s) \<and> sv_manager t = fold (managed ex (sv_config s) e1) evs (sv_manager s)"
    if tick: "tick (sv_engine s) = (Inr evs, e1)" "list_all level_given evs" for s evs e1
  proof -
    obtain t where "dispatch_many ex evs (s\<lparr>sv_engine := e1\<rparr>) = (Inr (), t)"
      "moved_to (s\<lparr>sv_engine := e1\<rparr>) (fold published evs (sv_bus s)) (fold (managed ex (sv_config s) e1) evs (sv_manager s)) t"
      using dispatch_many_run [OF tick(2), of ex "s\<lparr>sv_engine := e1\<rparr>"] by auto
    with tick(1) show ?thesis
      by (simp add: handle_rpc_def rpc_status_def prog_simps with_engine_run moved_to_def)
  qed
  obtain evs e1 where tick: "tick (sv_engine s) = (Inr evs, e1)" "ready e1" "list_all level_given evs"
    using tick_ready [OF assms] by (cases "tick (sv_engine s)") blast
  obtain s1 where s1: "handle_rpc ex ''status'' params s = (Inr (StatusReply (status e1)), s1)" "sv_engine s1 = e1"
    "sv_bus s1 = fold published evs (sv_bus s)" "sv_manager s1 = fold (managed ex (sv_config s) e1) evs (sv_manager s)"
    using run [OF tick(1,3)] by blast
  obtain e2 where "tick (sv_engine s1) = (Inr [], e2)" "usage_view e2 = usage_view e1"
    using tick_again [OF tick(2) tick_leaves(4) [OF tick(1)]] s1(2) by auto
  with run [of s1 "[]" e2] tick(1) s1 show ?thesis by auto
qed

theorem status_publishes_tick_demo:
  "\<exists>evs e1 s1. tick demo_shut = (Inr evs, e1)
    \<and> handle_rpc demo_surrounding ''status'' [] (demo_service demo_shut) = (Inr (StatusReply (status e1)), s1)"
proof -
  have "ready (sv_engine (demo_service demo_shut))" using demo_shut_ready by simp
  from status_publishes_tick [OF this, of demo_surrounding "[]"] show ?thesis unfolding demo_service_fields by blast
qed

text \<open>A timer request within bounds, while play is not restricted, leaves the timer running with
  the requested time and action, in memory and in the tables alike; the answer is the state.\<close>

theorem timer_request_starts:
  assumes "ready (sv_engine s)" and "tick (sv_engine s) = (Inr evs, e1)" and "restriction_level e1 = 0"
    and "param ''seconds'' PNone params = PInt seconds" and "60 \<le> seconds" and "seconds \<le> 86400"
    and "(if param ''action'' PNone params = PNone then Inr (c_default_action (sv_config s))
          else require_text params ''action'' 1 32) = Inr action" and "action \<in> set timer_actions"
  shows "\<exists>s' g. handle_rpc ex ''timer.start'' params s = (Inr (EngineStatus (status (sv_engine s'))), s')
    \<and> timer (sv_engine s') = new_timer seconds action g (now_utc (sv_engine s))
    \<and> load_timer (storage (sv_engine s')) = timer (sv_engine s') \<and> played_today (sv_engine s') = played_today e1"
proof -
  have e1: "ready e1" "list_all level_given evs" using tick_ready [OF assms(1,2)] by simp_all
  obtain event e' g where start: "start_timer seconds action e1 = (Inr [event], e')" "level_given event"
    "timer e' = new_timer seconds action g (now_utc e1)" "load_timer (storage e') = timer e'" "played_today e' = played_today e1"
    using start_timer_runs [OF e1(1) tick_leaves(4) [OF assms(2)] assms(3,5,6,8)] by auto
  have "guarded_action (start_timer seconds action) (sv_engine s) = (Inr (evs @ [event], None), e')"
    using assms(2) start(1) by (simp add: guarded_action_def prog_simps catchP_def)
  from action_run [OF this] e1(2) start(2)
  obtain t where run: "engine_action ex (start_timer seconds action) s = (Inr (status e'), t)" "sv_engine t = e'"
    by auto
  have "now_utc e1 = now_utc (sv_engine s)" using tick_leaves(3) [OF assms(2)] by (simp add: now_utc_def)
  with start run assms(4-7) show ?thesis
    by (cases "param ''action'' PNone params = PNone")
      (auto simp: handle_rpc_def rpc_timer_start_def rpc_action_def require_int_def Let_def prog_simps)
qed

text \<open>A timer request while play is restricted is refused with \<open>invalid_state\<close> and starts no
  timer, but the time up to now is accounted for and the events of that reach the subscribers
  and the enforcement before the refusal does.\<close>

theorem timer_request_refused:
  assumes "ready (sv_engine s)" and "tick (sv_engine s) = (Inr evs, e1)" and "1 \<le> restriction_level e1"
    and "param ''seconds'' PNone params = PInt seconds" and "60 \<le> seconds" and "seconds \<le> 86400"
    and "param ''action'' PNone params = PNone"
  shows "\<exists>s'. handle_rpc ex ''timer.start'' params s
      = (Inl (RpcError ''invalid_state'' ''cannot start a timer while play is restricted''), s')
    \<and> timer_core (timer (sv_engine s')) = timer_core (timer e1) \<and> played_today (sv_engine s') = played_today e1
    \<and> sv_bus s' = fold published evs (sv_bus s)
    \<and> sv_manager s' = fold (managed ex (sv_config s) (sv_engine s')) evs (sv_manager s)"
proof -
  have e1: "ready e1" "list_all level_given evs" using tick_ready [OF assms(1,2)] by simp_all
  obtain e' where refused: "start_timer seconds (c_default_action (sv_config s)) e1
      = (Inl (DomainError ''cannot start a timer while play is restricted''), e')"
    "usage_view e' = usage_view e1" "timer_core (timer e') = timer_core (timer e1)"
    using start_timer_refused [OF e1(1) tick_leaves(4) [OF assms(2)] assms(3)] by blast
  have "guarded_action (start_timer seconds (c_default_action (sv_config s))) (sv_engine s)
      = (Inr (evs, Some ''cannot start a timer while play is restricted''), e')"
    using assms(2) refused(1) by (simp add: guarded_action_def prog_simps catchP_def)
  from action_run [OF this e1(2), of ex] refused assms(4-7) show ?thesis
    by (auto simp: handle_rpc_def rpc_timer_start_def rpc_action_def require_int_def Let_def prog_simps usage_view_def)
qed

definition demo_free :: engine where
  "demo_free = demo_playing\<lparr>cfg := demo_config\<lparr>c_daily_enabled := False\<rparr>\<rparr>"

lemma demo_free_ready: "ready demo_free"
proof -
  have "compute_day_key demo_free = compute_day_key demo_playing"
    by (simp add: demo_free_def compute_day_key_def now_utc_def demo_playing_fields demo_config_def)
  moreover have "wf_config (cfg demo_free)"
    using demo_config_ok by (simp add: demo_free_def wf_config_def demo_config_def)
  ultimately show ?thesis
    using demo_playing_ready
    by (simp add: ready_def ready_extra_def demo_free_def eng_inv_def session_ok_def stored_total_def)
qed

lemma idle_stays:
  assumes "tick e = (Inr evs, e1)" "timer e = idle_timer"
  shows "t_state (timer e1) = IDLE"
proof -
  have "timer_core (timer e1) = timer_core (ticked_timer e)"
    using tick_runs_timer [of e] assms(1) by (simp add: wp_def)
  from timer_core_fields [OF this] assms(2) show ?thesis by (simp add: ticked_timer_def idle_timer_def Let_def)
qed

lemma demo_free_ticks: "\<exists>evs e1. tick demo_free = (Inr evs, e1) \<and> restriction_level e1 = 0"
proof -
  obtain evs e1 where run: "tick demo_free = (Inr evs, e1)"
    using tick_ready [OF demo_free_ready] by (cases "tick demo_free") blast
  have "timer demo_free = idle_timer" by (simp add: demo_free_def demo_playing_fields)
  from idle_stays [OF run this] have "t_state (timer e1) \<noteq> EXPIRED" by simp
  moreover have "\<not> c_daily_enabled (cfg e1)" using tick_leaves(2) [OF run] by (simp add: demo_free_def)
  ultimately have "restriction_level e1 = 0"
    using tick_leaves(5) [OF run] by (auto simp: restriction_of_def effective_daily_limit_def Let_def)
  with run show ?thesis by blast
qed

theorem timer_request_starts_demo:
  "\<exists>s' g. handle_rpc demo_surrounding ''timer.start'' [(''seconds'', PInt 3600)] (demo_service demo_free)
      = (Inr (EngineStatus (status (sv_engine s'))), s')
    \<and> timer (sv_engine s') = new_timer 3600 ''inherit'' g (now_utc demo_free)"
proof -
  let ?params = "[(''seconds'', PInt 3600)]"
  obtain evs e1 where tick: "tick (sv_engine (demo_service demo_free)) = (Inr evs, e1)" "restriction_level e1 = 0"
    using demo_free_ticks by auto
  have ready: "ready (sv_engine (demo_service demo_free))" using demo_free_ready by simp
  have "c_default_action (sv_config (demo_service demo_free)) = ''inherit''" by (simp add: demo_free_def demo_config_def)
  then have facts: "param ''seconds'' PNone ?params = PInt 3600" "(60::int) \<le> 3600" "(3600::int) \<le> 86400"
    "(if param ''action'' PNone ?params = PNone then Inr (c_default_action (sv_config (demo_service demo_free)))
      else require_text ?params ''action'' 1 32) = Inr ''inherit''" "''inherit'' \<in> set timer_actions"
    by (simp_all add: param_def timer_actions_def)
  show ?thesis
    using timer_request_starts [OF ready tick facts, of demo_surrounding] by (simp add: demo_service_fields) blast
qed

theorem timer_request_refused_demo:
  "\<exists>s'. handle_rpc demo_surrounding ''timer.start'' [(''seconds'', PInt 3600)] (demo_service demo_shut)
      = (Inl (RpcError ''invalid_state'' ''cannot start a timer while play is restricted''), s')"
proof -
  let ?params = "[(''seconds'', PInt 3600)]"
  obtain evs e1 where tick: "tick (sv_engine (demo_service demo_shut)) = (Inr evs, e1)" "1 \<le> restriction_level e1"
    using demo_shut_ticks by auto
  have ready: "ready (sv_engine (demo_service demo_shut))" using demo_shut_ready by simp
  have facts: "param ''seconds'' PNone ?params = PInt 3600" "(60::int) \<le> 3600" "(3600::int) \<le> 86400"
    "param ''action'' PNone ?params = PNone"
    by (simp_all add: param_def)
  show ?thesis using timer_request_refused [OF ready tick facts, of demo_surrounding] by blast
qed

text \<open>C22: An activity request for a day that is no date is refused after the tick it began with has
  changed the engine: the events of that tick reach neither the subscribers nor the notices nor the
  enforcement, and the next tick at the same time does not repeat them.\<close>

theorem activity_request_swallows_events:
  assumes "ready (sv_engine s)" and "require_int params ''days'' 1 90 (PInt 7) = Inr days"
    and "param ''end_day'' PNone params = PStr day" and "date_fromisoformat day = None"
  shows "\<exists>evs e1. tick (sv_engine s) = (Inr evs, e1)
    \<and> handle_rpc ex ''summary.activity'' params s
        = (Inl (RpcError ''invalid_params'' ''day must use YYYY-MM-DD''), s\<lparr>sv_engine := e1\<rparr>)
    \<and> (\<exists>e2. tick e1 = (Inr [], e2))"
proof -
  obtain evs e1 where tick: "tick (sv_engine s) = (Inr evs, e1)" "ready e1"
    using tick_ready [OF assms(1)] by (cases "tick (sv_engine s)") blast
  have "handle_rpc ex ''summary.activity'' params s
      = (Inl (RpcError ''invalid_params'' ''day must use YYYY-MM-DD''), s\<lparr>sv_engine := e1\<rparr>)"
    using assms(2-4) tick(1)
    by (simp add: handle_rpc_def rpc_summary_activity_def activity_request_def prog_simps with_engine_run
        validate_day_key_def py_str_def invalid_params_def bindP_def)
  with tick tick_again [OF tick(2) tick_leaves(4) [OF tick(1)]] show ?thesis by auto
qed

theorem activity_request_swallows_events_demo:
  "\<exists>evs e1. tick demo_shut = (Inr evs, e1) \<and> evs \<noteq> []
    \<and> handle_rpc demo_surrounding ''summary.activity'' [(''end_day'', PStr ''today'')] (demo_service demo_shut)
        = (Inl (RpcError ''invalid_params'' ''day must use YYYY-MM-DD''), (demo_service demo_shut)\<lparr>sv_engine := e1\<rparr>)"
proof -
  let ?params = "[(''end_day'', PStr ''today'')]"
  have facts: "require_int ?params ''days'' 1 90 (PInt 7) = Inr 7" "param ''end_day'' PNone ?params = PStr ''today''"
    "date_fromisoformat ''today'' = None"
    by (simp_all add: require_int_def param_def Let_def, code_simp)
  have "ready (sv_engine (demo_service demo_shut))" using demo_shut_ready by simp
  from activity_request_swallows_events [OF this facts, of demo_surrounding]
  obtain evs e1 where run: "tick demo_shut = (Inr evs, e1)"
    "handle_rpc demo_surrounding ''summary.activity'' ?params (demo_service demo_shut)
        = (Inl (RpcError ''invalid_params'' ''day must use YYYY-MM-DD''), (demo_service demo_shut)\<lparr>sv_engine := e1\<rparr>)"
    unfolding demo_service_fields by blast
  have "restriction_level demo_shut = 0" by (simp add: demo_shut_def demo_playing_def base_engine_def Let_def)
  moreover have "restriction_level e1 = 2" using demo_shut_ticks run(1) by simp
  ultimately have "evs \<noteq> []" using silent_tick [of demo_shut] run(1) by (auto simp: wp_def)
  with run show ?thesis by blast
qed

end
