(* ===== verification/Wire.thy ===== *)
theory Wire
  imports Service "HOL-Library.Sublist"
begin

text \<open>
  The messages of \<open>ipc.py\<close> as bytes: \<open>json.dumps\<close> without blanks, its UTF-8 encoding, lines of a
  stream with a bound on their length, and the dictionaries in which the service's replies go out.
  The lemmas: a message is exactly one line, and a stream of messages splits into them again.
\<close>

section \<open>Writing a message\<close>

text \<open>\<open>json.dumps(.., separators=(",", ":"))\<close>: the service writes characters beyond ASCII as they
  are (\<open>plain_char\<close>), the client escapes them (\<open>json_char\<close>).\<close>

fun json_compact :: "(char \<Rightarrow> string) \<Rightarrow> (real \<Rightarrow> string) \<Rightarrow> pyval \<Rightarrow> string" where
  "json_compact esc fr PNone = ''null''"
| "json_compact esc fr (PBool b) = (if b then ''true'' else ''false'')"
| "json_compact esc fr (PInt i) = int_str i"
| "json_compact esc fr (PFloat x) = fr x"
| "json_compact esc fr (PStr s) = json_string esc s"
| "json_compact esc fr (PList vs) = ''['' @ join '','' (map (json_compact esc fr) vs) @ '']''"
| "json_compact esc fr (PDict kvs) =
     ''{'' @ join '','' (map (\<lambda>kt. json_string esc (fst kt) @ '':'' @ snd kt)
       (map (\<lambda>kv. (fst kv, json_compact esc fr (snd kv))) kvs)) @ ''}''"

abbreviation newline :: char where
  "newline \<equiv> CHR 0x0A"

definition wire :: "(char \<Rightarrow> string) \<Rightarrow> (real \<Rightarrow> string) \<Rightarrow> pyval \<Rightarrow> string" where
  "wire esc fr v = utf8 (json_compact esc fr v) @ [newline]"

section \<open>Reading lines\<close>

definition MAX_MESSAGE_BYTES :: nat where
  "MAX_MESSAGE_BYTES = 64 * 1024"

definition MAX_RESPONSE_BYTES :: nat where
  "MAX_RESPONSE_BYTES = 32 * 1024 * 1024"

definition cut_line :: "string \<Rightarrow> string \<times> string" where
  "cut_line input =
     (case dropWhile (\<lambda>c. c \<noteq> newline) input of
        [] \<Rightarrow> (input, [])
      | n # rest \<Rightarrow> (takeWhile (\<lambda>c. c \<noteq> newline) input @ [n], rest))"

text \<open>\<open>StreamReader.readline\<close> with its limit: the line and what follows it, or \<open>None\<close> for the
  \<open>ValueError\<close> of a line beyond the limit, which the newline does not count towards.\<close>

definition readline :: "nat \<Rightarrow> string \<Rightarrow> (string \<times> string) option" where
  "readline limit input =
     (case cut_line input of (line, rest) \<Rightarrow>
        if length (takeWhile (\<lambda>c. c \<noteq> newline) input) \<le> limit then Some (line, rest) else None)"

lemma before_newline:
  assumes "newline \<notin> set l"
  shows "takeWhile (\<lambda>c. c \<noteq> newline) (l @ newline # rest) = l" "dropWhile (\<lambda>c. c \<noteq> newline) (l @ newline # rest) = newline # rest"
proof -
  have "\<And>c. c \<in> set l \<Longrightarrow> c \<noteq> newline" using assms by blast
  then show "takeWhile (\<lambda>c. c \<noteq> newline) (l @ newline # rest) = l"
    "dropWhile (\<lambda>c. c \<noteq> newline) (l @ newline # rest) = newline # rest"
    by (simp_all add: takeWhile_append2 dropWhile_append2)
qed

lemma cut_line_append: "newline \<notin> set l \<Longrightarrow> cut_line (l @ newline # rest) = (l @ [newline], rest)"
  by (simp add: cut_line_def before_newline)

lemma cut_line_length: "input \<noteq> [] \<Longrightarrow> length (snd (cut_line input)) < length input"
proof -
  assume "input \<noteq> []"
  have "length (dropWhile (\<lambda>c. c \<noteq> newline) input) \<le> length input" by (rule length_dropWhile_le)
  with \<open>input \<noteq> []\<close> show ?thesis by (auto simp: cut_line_def split: list.splits)
qed

lemma readline_shorter: "readline limit input = Some (line, rest) \<Longrightarrow> input \<noteq> [] \<Longrightarrow> length rest < length input"
  using cut_line_length by (fastforce simp: readline_def split: prod.splits if_splits)

lemma readline_append:
  "newline \<notin> set l \<Longrightarrow> length l \<le> limit \<Longrightarrow> readline limit (l @ newline # rest) = Some (l @ [newline], rest)"
  by (simp add: readline_def cut_line_append before_newline)

section \<open>A message is one line\<close>

definition one_line :: "string \<Rightarrow> bool" where
  "one_line s = (newline \<notin> set s)"

lemma one_line_simps [simp]:
  "one_line []" "one_line (c # s) = (c \<noteq> newline \<and> one_line s)" "one_line (s @ t) = (one_line s \<and> one_line t)"
  by (auto simp: one_line_def)

lemma one_line_concat: "list_all one_line ss \<Longrightarrow> one_line (concat ss)"
  by (induction ss) simp_all

lemma one_line_join: "one_line sep \<Longrightarrow> list_all one_line ss \<Longrightarrow> one_line (join sep ss)"
  by (induction sep ss rule: join.induct) simp_all

lemma code_less: "code c < 256"
proof -
  have "code (char_of (code c)) = code c mod 256" by (rule of_char_of)
  then show ?thesis by simp
qed

lemma not_newline: "code c \<noteq> 10 \<Longrightarrow> c \<noteq> newline"
  by auto

lemma char_of_line: "k < 256 \<Longrightarrow> k \<noteq> 10 \<Longrightarrow> char_of (k :: nat) \<noteq> newline"
  by (intro not_newline) simp

lemma one_line_nat: "one_line (nat_str n)"
proof (induction n rule: nat_str.induct)
  case (1 n)
  have "digit_ch n \<noteq> newline" using code_digit_ch [of n] by (intro not_newline) linarith
  with 1 show ?case by (simp add: nat_str.simps [of n])
qed

text \<open>What a character is written as.\<close>

definition keeps_lines :: "(char \<Rightarrow> string) \<Rightarrow> bool" where
  "keeps_lines esc = (\<forall>c. one_line (esc c))"

lemma hex_digit_line: "n < 16 \<Longrightarrow> hex_digit n \<noteq> newline"
  by (simp add: hex_digit_def char_of_line)

lemma json_char_line: "one_line (json_char c)"
proof -
  have n: "code c < 256" by (rule code_less)
  then have "hex_digit (code c div 16) \<noteq> newline" by (intro hex_digit_line) linarith
  moreover have "hex_digit (code c mod 16) \<noteq> newline" by (intro hex_digit_line) simp
  moreover have "c \<noteq> newline" if "code c \<noteq> 10" using that by auto
  ultimately show ?thesis by (simp add: json_char_def Let_def)
qed

lemma plain_char_line: "one_line (plain_char c)"
  using json_char_line [of c] by (auto simp: plain_char_def)

lemma one_line_int: "one_line (int_str i)"
  by (simp add: int_str_def one_line_nat)

lemma one_line_string: "keeps_lines esc \<Longrightarrow> one_line (json_string esc s)"
  by (simp add: json_string_def keeps_lines_def one_line_concat list_all_iff)

lemma one_line_json:
  assumes esc: "keeps_lines esc" and floats: "\<And>x. one_line (fr x)"
  shows "one_line (json_compact esc fr v)"
  using assms
proof (induction esc fr v rule: json_compact.induct)
  case (6 esc fr vs)
  then show ?case by (simp add: one_line_join list_all_iff)
next
  case (7 esc fr kvs)
  then show ?case by (force simp: list_all_iff one_line_string intro!: one_line_join)
qed (simp_all add: one_line_int one_line_string)

lemma utf8_line: "one_line s \<Longrightarrow> one_line (utf8 s)"
proof (induction s)
  case (Cons c s)
  have "code c < 256" by (rule code_less)
  then have "code c div 64 < 4" by linarith
  with Cons show ?case by (simp add: utf8_def Let_def char_of_line)
qed (simp add: utf8_def)

lemma wire_line:
  assumes "keeps_lines esc" "\<And>x. one_line (fr x)"
  shows "\<exists>l. wire esc fr v = l @ [newline] \<and> newline \<notin> set l"
  using utf8_line [OF one_line_json [OF assms]] by (auto simp: wire_def one_line_def)

text \<open>The lines of a stream, without their ends; \<open>None\<close> when the last one is not ended.\<close>

function stream_lines :: "string \<Rightarrow> string list option" where
  "stream_lines input =
     (if input = [] then Some []
      else if newline \<notin> set input then None
      else (case cut_line input of (line, rest) \<Rightarrow> map_option ((#) (butlast line)) (stream_lines rest)))"
  by auto
termination
proof (relation "measure length", goal_cases)
  case (2 input line rest)
  then have "length (snd (cut_line input)) < length input" "rest = snd (cut_line input)"
    using cut_line_length by (simp_all add: prod_eq_iff)
  then show ?case by simp
qed simp

declare stream_lines.simps [simp del]

lemma stream_lines_wires:
  assumes "\<And>m. m \<in> set ms \<Longrightarrow> \<exists>l. m = l @ [newline] \<and> newline \<notin> set l"
  shows "stream_lines (concat ms) = Some (map butlast ms)"
  using assms
proof (induction ms)
  case (Cons m ms)
  then obtain l where l: "m = l @ [newline]" "newline \<notin> set l" by auto
  then have "stream_lines (concat (m # ms)) = map_option ((#) l) (stream_lines (concat ms))"
    by (subst stream_lines.simps) (simp add: cut_line_append)
  with Cons l show ?case by simp
qed (simp add: stream_lines.simps)

section \<open>Replies as dictionaries\<close>

definition status_value :: "engine_status \<Rightarrow> pyval" where
  "status_value st = PDict
     [(''schema_version'', PInt 1), (''now'', PStr (st_now st)), (''day_key'', PStr (st_day_key st)),
      (''played_today_seconds'', PInt (st_played_today st)), (''daily_limit_seconds'', popt PInt (st_daily_limit st)),
      (''daily_adjustment_seconds'', PInt (st_daily_adjustment st)),
      (''remaining_today_seconds'', popt PInt (st_remaining_today st)),
      (''seconds_until_reset'', PInt (st_seconds_until_reset st)),
      (''within_allowed_period'', PBool (st_within_allowed_period st)), (''game'', popt game_to_dict (st_game st)),
      (''timer'', st_timer st), (''next_warning_seconds'', popt (\<lambda>w. PInt (wc_play_seconds_until w)) (st_next_warning st)),
      (''next_warning'', popt (\<lambda>w. PDict [(''scope'', PStr (wc_scope w)),
         (''threshold_seconds'', PInt (wc_threshold_seconds w)),
         (''play_seconds_until'', PInt (wc_play_seconds_until w))]) (st_next_warning st)),
      (''restriction'', PDict [(''configured_level'', PInt (st_configured_level st)),
         (''effective_level'', PInt (st_effective_level st)), (''reason'', PStr (st_reason st)),
         (''force_kill_enabled'', PBool (st_force_kill_enabled st))]),
      (''suspended'', PBool (st_suspended st))]"

definition app_value :: "string option \<times> string \<times> int \<times> int \<Rightarrow> pyval" where
  "app_value a = (case a of (app_id, app_name, seconds, count) \<Rightarrow>
     PDict [(''app_id'', popt PStr app_id), (''app_name'', PStr app_name), (''seconds'', PInt seconds), (''sessions'', PInt count)])"

definition day_value :: "day_summary \<Rightarrow> pyval" where
  "day_value day = PDict [(''day_key'', PStr (ds_day_key day)), (''total_seconds'', PInt (ds_total_seconds day)),
     (''adjustment_seconds'', PInt (ds_adjustment_seconds day)), (''apps'', PList (map app_value (ds_apps day)))]"

definition activity_value :: "activity \<Rightarrow> pyval" where
  "activity_value a = PDict
     [(''schema_version'', PInt 1),
      (''range'', PDict [(''start_day'', PStr (as_start a)), (''end_day'', PStr (as_end a)), (''days'', PInt (as_days a)),
         (''timezone'', PStr (as_timezone a))]),
      (''total_seconds'', PInt (as_total_seconds a)),
      (''days'', PList (map (\<lambda>(k, n). PDict [(''day_key'', PStr k), (''total_seconds'', PInt n)]) (as_day_totals a))),
      (''top_games'', PList (map (\<lambda>g. app_value (tg_app_id g, tg_app_name g, tg_seconds g, tg_sessions g)) (as_top_games a))),
      (''peak'', popt (\<lambda>(k, i, n). PDict [(''day_key'', PStr k), (''bucket_index'', PInt i), (''seconds'', PInt n)]) (as_peak a)),
      (''heatmap'', PDict [(''available'', PBool (as_available a)), (''bucket_hours'', PInt 4),
         (''recorded_seconds'', PInt (as_recorded_seconds a)), (''max_seconds'', PInt (as_max_seconds a)),
         (''days'', PList (map (\<lambda>(k, n, values). PDict [(''day_key'', PStr k), (''total_seconds'', PInt n),
            (''buckets'', PList (map PInt values))]) (as_heatmap a)))]),
      (''recent_sessions'', PList (as_recent a))]"

text \<open>The dictionary a request is answered with; \<open>diagnose\<close> stands for the probes of the operating
  system in \<open>collect_diagnostics\<close>.\<close>

definition reply_value :: "(engine_status \<Rightarrow> bool \<Rightarrow> pyval) \<Rightarrow> reply \<Rightarrow> pyval" where
  "reply_value diagnose r =
     (case r of
        Pong version pid \<Rightarrow> PDict [(''ok'', PBool True), (''version'', PStr version), (''pid'', PInt pid)]
      | StatusReply st \<Rightarrow> status_value st
      | ConfigReply settings \<Rightarrow> settings
      | ConfigUpdated settings restart \<Rightarrow> PDict [(''config'', settings), (''restart_recommended'', PBool restart)]
      | EngineStatus st \<Rightarrow> PDict [(''status'', status_value st)]
      | SessionList rows \<Rightarrow> PDict [(''sessions'', PList rows)]
      | EventList rows \<Rightarrow> PDict [(''events'', PList rows)]
      | Cleared \<Rightarrow> PDict [(''cleared'', PBool True)]
      | Exported format_name content \<Rightarrow> PDict [(''format'', PStr format_name), (''content'', PStr content)]
      | Daily days \<Rightarrow> PDict [(''days'', PList (map day_value days))]
      | Weekly w \<Rightarrow> (case w of (start, stop, seconds, days) \<Rightarrow> PDict [(''start_day'', PStr start), (''end_day'', PStr stop),
          (''total_seconds'', PInt seconds), (''days'', PList (map day_value days))])
      | ActivityReply a \<Rightarrow> activity_value a
      | DiagnosticsReply st recent \<Rightarrow> diagnose st recent
      | Heartbeat ttl \<Rightarrow> PDict [(''ok'', PBool True), (''detector_signal_ttl_seconds'', PInt ttl)]
      | Accepted \<Rightarrow> PDict [(''accepted'', PBool True)]
      | AcceptedStatus st \<Rightarrow> PDict [(''accepted'', PBool True), (''status'', status_value st)]
      | Emitted name st \<Rightarrow> PDict [(''emitted'', PStr name), (''status'', status_value st)])"

end
