(* ===== verification/Ipc.thy ===== *)
theory Ipc
  imports Wire
begin

text \<open>
  \<open>ipc.py\<close>: one connection of \<open>UnixRpcServer\<close> as a function of the bytes the peer sends before it
  closes, and \<open>UnixRpcClient.call\<close>. What \<open>json.loads\<close> makes of a line is an argument (\<open>loads\<close>),
  so that everything proved holds of every decoder. The handler of the requests is an argument as
  well; the locale at the end states what it has to keep.
\<close>

section \<open>One request\<close>

text \<open>\<open>json.loads\<close>: a value, a \<open>JSONDecodeError\<close>, another \<open>ValueError\<close> (bytes that are no UTF-8)
  or another exception (nesting too deep).\<close>

datatype decoded = Decoded pyval | Malformed string | Undecodable string | TooDeep

type_synonym params = "(string \<times> pyval) list"

definition method_ok :: "string \<Rightarrow> bool" where
  "method_ok meth =
     (case meth of
        [] \<Rightarrow> False
      | c # cs \<Rightarrow> CHR ''a'' \<le> c \<and> c \<le> CHR ''z'' \<and> length cs \<le> 79
          \<and> list_all (\<lambda>c. CHR ''a'' \<le> c \<and> c \<le> CHR ''z'' \<or> CHR ''0'' \<le> c \<and> c \<le> CHR ''9''
              \<or> c \<in> {CHR ''_'', CHR ''.'', CHR ''-''}) cs)"

definition id_ok :: "pyval \<Rightarrow> bool" where
  "id_ok v = (case v of PNone \<Rightarrow> True | PStr _ \<Rightarrow> True | PInt _ \<Rightarrow> True | PBool _ \<Rightarrow> True | _ \<Rightarrow> False)"

text \<open>The id to answer with, and the method with its parameters or the refusal.\<close>

definition read_request :: "pyval \<Rightarrow> pyval \<times> (py_exc + string \<times> params)" where
  "read_request request =
     (case request of
        PDict kvs \<Rightarrow>
          (let request_id = param ''id'' PNone kvs in
           (request_id,
            if \<not> id_ok request_id then Inl (RpcError ''invalid_request'' ''id must be a string, integer, or null'')
            else case param ''method'' PNone kvs of
              PStr meth \<Rightarrow>
                if \<not> method_ok meth then Inl (RpcError ''invalid_method'' ''method name is invalid'')
                else (case param ''params'' (PDict []) kvs of
                        PDict ps \<Rightarrow> Inr (meth, ps)
                      | _ \<Rightarrow> Inl (RpcError ''invalid_params'' ''params must be an object''))
            | _ \<Rightarrow> Inl (RpcError ''invalid_method'' ''method name is invalid'')))
      | _ \<Rightarrow> (PNone, Inl (RpcError ''invalid_request'' ''request must be a JSON object'')))"

definition result_message :: "pyval \<Rightarrow> pyval \<Rightarrow> pyval" where
  "result_message request_id v = PDict [(''id'', request_id), (''result'', v)]"

definition error_message :: "pyval \<Rightarrow> string \<times> string \<Rightarrow> pyval" where
  "error_message request_id e = PDict [(''id'', request_id),
     (''error'', PDict [(''code'', PStr (fst e)), (''message'', PStr (snd e))])]"

text \<open>The \<open>except\<close> clauses: code and message of what an exception is answered with.\<close>

definition answer_to :: "py_exc \<Rightarrow> string \<times> string" where
  "answer_to exc =
     (case exc of
        RpcError c m \<Rightarrow> (c, m)
      | ValueError m \<Rightarrow> (''invalid_params'', m)
      | DomainError m \<Rightarrow> (''invalid_params'', m)
      | ConfigError m \<Rightarrow> (''invalid_params'', m)
      | KeyError k \<Rightarrow> (''invalid_params'', str_repr k)
      | TypeError m \<Rightarrow> (''invalid_params'', m)
      | _ \<Rightarrow> (''internal_error'', ''request failed''))"

datatype answer = Answer pyval | Subscribe pyval

definition answer_request :: "(string \<Rightarrow> params \<Rightarrow> ('s, pyval) prog) \<Rightarrow> pyval \<Rightarrow> 's \<Rightarrow> answer \<times> 's" where
  "answer_request handle request s =
     (case read_request request of
        (request_id, Inl exc) \<Rightarrow> (Answer (error_message request_id (answer_to exc)), s)
      | (request_id, Inr (meth, ps)) \<Rightarrow>
          if meth = ''events.subscribe''
          then (Subscribe (result_message request_id (PDict [(''subscribed'', PBool True)])), s)
          else (case handle meth ps s of
                  (Inr v, s') \<Rightarrow> (Answer (result_message request_id v), s')
                | (Inl exc, s') \<Rightarrow> (Answer (error_message request_id (answer_to exc)), s')))"

definition answer_line :: "(string \<Rightarrow> decoded) \<Rightarrow> (string \<Rightarrow> params \<Rightarrow> ('s, pyval) prog) \<Rightarrow> string \<Rightarrow> 's \<Rightarrow> answer \<times> 's" where
  "answer_line loads handle line s =
     (case loads line of
        Decoded request \<Rightarrow> answer_request handle request s
      | Malformed _ \<Rightarrow> (Answer (error_message PNone (''invalid_json'', ''malformed JSON'')), s)
      | Undecodable m \<Rightarrow> (Answer (error_message PNone (''invalid_params'', m)), s)
      | TooDeep \<Rightarrow> (Answer (error_message PNone (''internal_error'', ''request failed'')), s))"

section \<open>A connection\<close>

datatype ending = PeerClosed | MessageTooLarge | Subscribed

definition too_large :: pyval where
  "too_large = error_message PNone (''message_too_large'', ''message exceeds 64 KiB'')"

text \<open>The messages written for what the peer sends, how the loop ended, and the state it left.\<close>

function converse :: "(string \<Rightarrow> decoded) \<Rightarrow> (string \<Rightarrow> params \<Rightarrow> ('s, pyval) prog) \<Rightarrow> string \<Rightarrow> 's \<Rightarrow>
    pyval list \<times> ending \<times> 's" where
  "converse loads handle input s =
     (if input = [] then ([], PeerClosed, s)
      else case readline (MAX_MESSAGE_BYTES + 1) input of
        None \<Rightarrow> ([too_large], MessageTooLarge, s)
      | Some (line, rest) \<Rightarrow>
          if MAX_MESSAGE_BYTES < length line then ([too_large], MessageTooLarge, s)
          else (case answer_line loads handle line s of
                  (Subscribe ack, s') \<Rightarrow> ([ack], Subscribed, s')
                | (Answer m, s') \<Rightarrow> (case converse loads handle rest s' of (ms, fin, s'') \<Rightarrow> (m # ms, fin, s''))))"
  by auto
termination
  by (relation "measure (\<lambda>(_, _, input, _). length input)") (auto dest: readline_shorter)

declare converse.simps [simp del]

definition verify_peer :: "int option \<Rightarrow> int \<Rightarrow> bool" where
  "verify_peer peer own = (case peer of None \<Rightarrow> True | Some uid \<Rightarrow> uid = own)"

text \<open>The bytes written on the connection. \<open>peer\<close> is the user id of the peer, where the system
  tells it.\<close>

definition handle_client :: "(real \<Rightarrow> string) \<Rightarrow> int option \<Rightarrow> int \<Rightarrow> (string \<Rightarrow> decoded) \<Rightarrow>
    (string \<Rightarrow> params \<Rightarrow> ('s, pyval) prog) \<Rightarrow> string \<Rightarrow> 's \<Rightarrow> string \<times> 's" where
  "handle_client fr peer own loads handle input s =
     (if verify_peer peer own
      then (case converse loads handle input s of (ms, fin, s') \<Rightarrow> (concat (map (wire plain_char fr) ms), s'))
      else ([], s))"

definition stream_event :: "(real \<Rightarrow> string) \<Rightarrow> pyval \<Rightarrow> string" where
  "stream_event fr event = wire plain_char fr (PDict [(''event'', event)])"

section \<open>The client\<close>

definition client_request :: "(real \<Rightarrow> string) \<Rightarrow> int \<Rightarrow> string \<Rightarrow> params \<Rightarrow> string" where
  "client_request fr request_id meth ps =
     wire json_char fr (PDict [(''id'', PInt request_id), (''method'', PStr meth), (''params'', PDict ps)])"

text \<open>\<open>"error" in response\<close> and \<open>response["error"]\<close>\<close>

definition client_response :: "(real \<Rightarrow> string) \<Rightarrow> pyval \<Rightarrow> py_exc + pyval" where
  "client_response fr response =
     (case response of
        PDict kvs \<Rightarrow>
          (case map_of kvs ''error'' of
             None \<Rightarrow> Inr (param ''result'' PNone kvs)
           | Some (PDict err) \<Rightarrow> Inl (RpcError (py_str fr (param ''code'' (PStr ''error'') err))
               (py_str fr (param ''message'' (PStr ''request failed'') err)))
           | Some v \<Rightarrow> Inl (no_attribute v ''get''))
      | PList vs \<Rightarrow> if PStr ''error'' \<in> set vs then Inl (TypeError ''list indices must be integers or slices, not str'')
          else Inl (no_attribute response ''get'')
      | PStr t \<Rightarrow> if sublist ''error'' t then Inl (TypeError (''string indices must be integers, not '' @ quoted ''str''))
          else Inl (no_attribute response ''get'')
      | _ \<Rightarrow> Inl (TypeError (''argument of type '' @ quoted (py_type response) @ '' is not iterable'')))"

text \<open>What the client makes of the bytes it receives. \<open>None\<close> is the \<open>ValueError\<close> of \<open>readline\<close>.\<close>

definition client_receive :: "(string \<Rightarrow> decoded) \<Rightarrow> (real \<Rightarrow> string) \<Rightarrow> string \<Rightarrow> py_exc + pyval" where
  "client_receive loads fr input =
     (case readline (MAX_RESPONSE_BYTES + 1) input of
        None \<Rightarrow> Inl (ValueError ''Separator is found, but chunk is longer than limit'')
      | Some (line, _) \<Rightarrow>
          if line = [] then Inl (RpcError ''connection_closed'' ''service closed the connection'')
          else if MAX_RESPONSE_BYTES < length line then Inl (RpcError ''response_too_large'' ''service response exceeds 32 MiB'')
          else (case loads line of
                  Decoded response \<Rightarrow> client_response fr response
                | Malformed m \<Rightarrow> Inl (ValueError m)
                | Undecodable m \<Rightarrow> Inl (ValueError m)
                | TooDeep \<Rightarrow> Inl (RecursionError ''maximum recursion depth exceeded'')))"

section \<open>Requests one by one\<close>

text \<open>The conversation on a list of lines.\<close>

fun answer_lines :: "(string \<Rightarrow> decoded) \<Rightarrow> (string \<Rightarrow> params \<Rightarrow> ('s, pyval) prog) \<Rightarrow> string list \<Rightarrow> 's \<Rightarrow>
    pyval list \<times> ending \<times> 's" where
  "answer_lines loads handle [] s = ([], PeerClosed, s)"
| "answer_lines loads handle (l # ls) s =
     (case answer_line loads handle l s of
        (Subscribe ack, s') \<Rightarrow> ([ack], Subscribed, s')
      | (Answer m, s') \<Rightarrow> (case answer_lines loads handle ls s' of (ms, fin, s'') \<Rightarrow> (m # ms, fin, s'')))"

lemma converse_Nil: "converse loads handle [] s = ([], PeerClosed, s)"
  by (simp add: converse.simps)

lemma converse_line:
  assumes "newline \<notin> set l"
  shows "converse loads handle (l @ newline # rest) s =
    (if length l < MAX_MESSAGE_BYTES
     then (case answer_line loads handle (l @ [newline]) s of
             (Subscribe ack, s') \<Rightarrow> ([ack], Subscribed, s')
           | (Answer m, s') \<Rightarrow> (case converse loads handle rest s' of (ms, fin, s'') \<Rightarrow> (m # ms, fin, s'')))
     else ([too_large], MessageTooLarge, s))"
proof (cases "length l \<le> MAX_MESSAGE_BYTES + 1")
  case True
  then show ?thesis
    using readline_append [OF assms, of "MAX_MESSAGE_BYTES + 1" rest] by (subst converse.simps) (simp add: less_eq_Suc_le)
next
  case False
  then have "readline (MAX_MESSAGE_BYTES + 1) (l @ newline # rest) = None"
    by (simp add: readline_def before_newline [OF assms] split: prod.splits)
  with False show ?thesis by (subst converse.simps) simp
qed

definition well_sent :: "string \<Rightarrow> bool" where
  "well_sent line = (\<exists>l. line = l @ [newline] \<and> newline \<notin> set l \<and> length line \<le> MAX_MESSAGE_BYTES)"

lemma converse_lines:
  "list_all well_sent ls \<Longrightarrow> converse loads handle (concat ls) s = answer_lines loads handle ls s"
proof (induction ls arbitrary: s)
  case (Cons line ls)
  then obtain l where "line = l @ [newline]" "newline \<notin> set l" "length l < MAX_MESSAGE_BYTES"
    by (auto simp: well_sent_def)
  then show ?case
    using Cons converse_line [of l loads handle "concat ls" s] by (auto split: prod.splits answer.splits)
qed (simp add: converse_Nil)

definition reply_id :: "pyval \<Rightarrow> pyval" where
  "reply_id m = (case m of PDict kvs \<Rightarrow> param ''id'' PNone kvs | _ \<Rightarrow> PNone)"

lemma reply_id_messages [simp]: "reply_id (result_message i v) = i" "reply_id (error_message i e) = i"
  by (simp_all add: reply_id_def result_message_def error_message_def param_def)

text \<open>The line asks for something else than the stream of events.\<close>

definition asks :: "decoded \<Rightarrow> bool" where
  "asks d = (case d of Decoded (PDict kvs) \<Rightarrow> param ''method'' PNone kvs \<noteq> PStr ''events.subscribe'' | _ \<Rightarrow> True)"

definition line_id :: "decoded \<Rightarrow> pyval" where
  "line_id d = (case d of Decoded request \<Rightarrow> fst (read_request request) | _ \<Rightarrow> PNone)"

lemma answer_line_id:
  assumes "asks (loads line)"
  shows "\<exists>m s'. answer_line loads handle line s = (Answer m, s') \<and> reply_id m = line_id (loads line)"
proof (cases "loads line")
  case (Decoded request)
  show ?thesis
  proof (cases "snd (read_request request)")
    case (Inl exc)
    then show ?thesis
      using Decoded by (cases "read_request request") (simp add: answer_line_def answer_request_def line_id_def)
  next
    case (Inr mp)
    then obtain meth ps where mp: "read_request request = (fst (read_request request), Inr (meth, ps))"
      by (cases mp; cases "read_request request") simp
    then have "meth \<noteq> ''events.subscribe''"
      using assms Decoded by (auto simp: asks_def read_request_def Let_def split: pyval.splits if_splits)
    then show ?thesis
      using Decoded mp
      by (cases "handle meth ps s") (auto simp: answer_line_def answer_request_def line_id_def split: prod.splits sum.splits)
  qed
qed (simp_all add: answer_line_def line_id_def)

lemma answer_lines_ids:
  "list_all (\<lambda>l. asks (loads l)) ls \<Longrightarrow> \<exists>ms s'. answer_lines loads handle ls s = (ms, PeerClosed, s')
    \<and> map reply_id ms = map (\<lambda>l. line_id (loads l)) ls"
proof (induction ls arbitrary: s)
  case (Cons l ls)
  then obtain m s1 where m: "answer_line loads handle l s = (Answer m, s1)" "reply_id m = line_id (loads l)"
    using answer_line_id [of loads l] by fastforce
  obtain ms s' where "answer_lines loads handle ls s1 = (ms, PeerClosed, s')" "map reply_id ms = map (\<lambda>l. line_id (loads l)) ls"
    using Cons by fastforce
  with m show ?case by simp
qed simp

section \<open>What a handler has to keep\<close>

locale request_handler =
  fixes legit :: bool
    and handle :: "string \<Rightarrow> params \<Rightarrow> ('s, pyval) prog"
    and I :: "'s \<Rightarrow> bool"
  assumes keeps: "legit \<Longrightarrow> holds I (handle meth ps)"
begin

lemma answer_keeps:
  assumes "legit" "I s" "answer_line loads handle line s = (a, s')"
  shows "I s'"
proof -
  have "I t" if "handle meth ps s = (r, t)" for meth ps r t
    using holdsD [OF keeps [OF assms(1)] assms(2), of meth ps] that by (auto simp: wp_def split: sum.splits)
  then show ?thesis
    using assms(2,3)
    by (auto simp: answer_line_def answer_request_def split: decoded.splits prod.splits sum.splits if_splits)
qed

lemma converse_keeps:
  assumes "legit" "I s"
  shows "I (snd (snd (converse loads handle input s)))"
  using assms(2)
proof (induction "length input" arbitrary: input s rule: less_induct)
  case less
  show ?case
  proof (cases "input = [] \<or> readline (MAX_MESSAGE_BYTES + 1) input = None")
    case True
    with less.prems show ?thesis by (subst converse.simps) auto
  next
    case False
    then obtain line rest where line: "input \<noteq> []" "readline (MAX_MESSAGE_BYTES + 1) input = Some (line, rest)" by auto
    obtain a s' where a: "answer_line loads handle line s = (a, s')" by (cases "answer_line loads handle line s")
    have "I s'" using answer_keeps [OF assms(1) less.prems a] .
    moreover from this have "I (snd (snd (converse loads handle rest s')))"
      by (rule less.hyps [OF readline_shorter [OF line(2,1)]])
    ultimately show ?thesis
      using line a less.prems by (subst converse.simps) (auto split: answer.splits prod.splits)
  qed
qed

lemma client_keeps: "legit \<Longrightarrow> I s \<Longrightarrow> I (snd (handle_client fr peer own loads handle input s))"
  using converse_keeps [of s loads input] by (auto simp: handle_client_def split: prod.splits)

end

end
