(* ===== verification/Talk.thy ===== *)
theory Talk
  imports Ipc Serving
begin

text \<open>
  The service behind its socket: the properties of a connection for every decoder and every input,
  and that a call through the socket is a call of the request handler.
\<close>

definition service_handler :: "surrounding \<Rightarrow> (engine_status \<Rightarrow> bool \<Rightarrow> pyval) \<Rightarrow> string \<Rightarrow> params \<Rightarrow> pyval service_prog" where
  "service_handler ex diagnose meth ps = bindP (handle_rpc ex meth ps) (\<lambda>r. ret (reply_value diagnose r))"

interpretation service_socket: request_handler "zones_ok (ex_zoneinfo ex) (ex_system_zone ex)" "service_handler ex diagnose"
    "engine_holds (eng_inv False)" for ex diagnose
  by unfold_locales (auto simp: service_handler_def intro!: holds_bindP serves_rpc inv_intros)

section \<open>A connection\<close>



text \<open>Requests sent one per line, none over 64 KiB, are answered one by one in their order, each
  with its own id, errors included, whatever the handler returns or raises; the state is the one
  the requests leave one after the other.\<close>

theorem requests_answered_in_order:
  assumes "list_all well_sent ls" and "list_all (\<lambda>l. asks (loads l)) ls"
  shows "\<exists>ms s'. converse loads handle (concat ls) s = (ms, PeerClosed, s')
    \<and> map reply_id ms = map (\<lambda>l. line_id (loads l)) ls
    \<and> s' = fold (\<lambda>l t. snd (answer_line loads handle l t)) ls s"
proof -
  have "snd (snd (answer_lines loads handle ls s)) = fold (\<lambda>l t. snd (answer_line loads handle l t)) ls s"
    using assms(2)
  proof (induction ls arbitrary: s)
    case (Cons l ls)
    then obtain m t where "answer_line loads handle l s = (Answer m, t)"
      using answer_line_id [of loads l handle s] by auto
    with Cons show ?case by (simp split: prod.splits) (metis snd_conv)
  qed simp
  with answer_lines_ids [OF assms(2), of handle s] show ?thesis
    by (auto simp: converse_lines [OF assms(1)])
qed

text \<open>A line of 65536 bytes with its newline is a request; one byte more ends the connection with
  one error message and leaves the state as it was.\<close>

theorem message_size_limit:
  assumes "newline \<notin> set l"
  shows "(length l = 65535 \<longrightarrow> fst (converse loads handle (l @ [newline]) s)
        = [case fst (answer_line loads handle (l @ [newline]) s) of Answer m \<Rightarrow> m | Subscribe m \<Rightarrow> m])
    \<and> (65536 \<le> length l \<longrightarrow> converse loads handle (l @ newline # rest) s = ([too_large], MessageTooLarge, s))"
  using converse_line [OF assms, of loads handle "[]" s] converse_line [OF assms, of loads handle rest s]
  by (auto simp: MAX_MESSAGE_BYTES_def converse_Nil split: answer.splits prod.splits)

text \<open>What the service writes on a connection splits at its newlines into exactly the messages,
  one per line, however many lines a name or a reason in them has.\<close>

theorem replies_are_lines:
  assumes "\<And>x. newline \<notin> set (fr x)"
  shows "stream_lines (fst (handle_client fr peer own loads handle input s))
    = Some (if verify_peer peer own
            then map (\<lambda>m. utf8 (json_compact plain_char fr m)) (fst (converse loads handle input s)) else [])"
proof -
  have "keeps_lines plain_char" by (simp add: keeps_lines_def plain_char_line)
  note lines = wire_line [OF this, of fr]
  have "stream_lines (concat (map (wire plain_char fr) ms)) = Some (map (\<lambda>m. utf8 (json_compact plain_char fr m)) ms)" for ms
    by (subst stream_lines_wires) (use lines assms in \<open>auto simp: wire_def one_line_def\<close>)
  then show ?thesis by (auto simp: handle_client_def stream_lines.simps [of "[]"] split: prod.splits)
qed

section \<open>Witnesses\<close>

theorem requests_answered_in_order_demo:
  "\<exists>ms s'. converse (\<lambda>_. Decoded (PDict [(''id'', PInt 7), (''method'', PStr ''status.get'')]))
      (\<lambda>_ _. raise (ValueError ''no'')) (concat [''a'' @ [newline], ''b'' @ [newline]]) (0 :: nat) = (ms, PeerClosed, s')
    \<and> map reply_id ms = [PInt 7, PInt 7]"
proof -
  let ?loads = "\<lambda>_ :: string. Decoded (PDict [(''id'', PInt 7), (''method'', PStr ''status.get'')])"
  have ls: "list_all well_sent [''a'' @ [newline], ''b'' @ [newline]]"
    "list_all (\<lambda>l. asks (?loads l)) [''a'' @ [newline], ''b'' @ [newline]]"
    by (auto simp: well_sent_def MAX_MESSAGE_BYTES_def asks_def param_def)
  have "line_id (?loads l) = PInt 7" for l
    by (simp add: line_id_def read_request_def param_def Let_def)
  with requests_answered_in_order [OF ls, of "\<lambda>_ _. raise (ValueError ''no'')" "0 :: nat"] show ?thesis by auto
qed

theorem message_size_limit_demo:
  "converse (\<lambda>_. TooDeep) (\<lambda>_ _. ret PNone) (replicate 65536 CHR ''a'' @ newline # ''b'') (0 :: nat)
    = ([too_large], MessageTooLarge, 0)"
proof -
  have "newline \<notin> set (replicate 65536 CHR ''a'')" by simp
  from message_size_limit [OF this, of "\<lambda>_. TooDeep" "\<lambda>_ _. ret PNone" "0 :: nat" "''b''"] show ?thesis by simp
qed

theorem replies_are_lines_demo:
  "stream_lines (fst (handle_client blank None 1000 (\<lambda>_. TooDeep) (\<lambda>_ _. ret PNone) ''x'' (0 :: nat)))
    = Some (map (\<lambda>m. utf8 (json_compact plain_char blank m)) (fst (converse (\<lambda>_. TooDeep) (\<lambda>_ _. ret PNone) ''x'' (0 :: nat))))"
proof -
  have "\<And>x. newline \<notin> set (blank x)" by (simp add: blank_def)
  from replies_are_lines [OF this, where peer = None and own = 1000 and loads = "\<lambda>_. TooDeep"
      and handle = "\<lambda>_ _. ret PNone" and input = "''x''" and s = "0 :: nat"]
  show ?thesis by (simp add: verify_peer_def)
qed

section \<open>A call through the socket\<close>

definition reply_message :: "int \<Rightarrow> py_exc + pyval \<Rightarrow> pyval" where
  "reply_message request_id r =
     (case r of Inr v \<Rightarrow> result_message (PInt request_id) v | Inl exc \<Rightarrow> error_message (PInt request_id) (answer_to exc))"

text \<open>What the service writes when a client sends one request.\<close>

lemma request_answered:
  assumes "loads (client_request fr n meth ps) = Decoded (PDict [(''id'', PInt n), (''method'', PStr meth), (''params'', PDict ps)])"
    and "length (client_request fr n meth ps) \<le> MAX_MESSAGE_BYTES"
    and "method_ok meth" and "meth \<noteq> ''events.subscribe''" and "verify_peer peer own"
    and "\<And>x. newline \<notin> set (fr x)"
  shows "handle_client fr peer own loads handle (client_request fr n meth ps) s
    = (wire plain_char fr (reply_message n (fst (handle meth ps s))), snd (handle meth ps s))"
proof -
  define m where "m = reply_message n (fst (handle meth ps s))"
  have "keeps_lines json_char" by (simp add: keeps_lines_def json_char_line)
  from wire_line [OF this, of fr] obtain l where l: "client_request fr n meth ps = l @ [newline]" "newline \<notin> set l"
    using assms(6) by (auto simp: client_request_def one_line_def)
  have read: "read_request (PDict [(''id'', PInt n), (''method'', PStr meth), (''params'', PDict ps)]) = (PInt n, Inr (meth, ps))"
    using assms(3) by (simp add: read_request_def param_def Let_def id_ok_def)
  have "answer_line loads handle (l @ [newline]) s = (Answer m, snd (handle meth ps s))"
    using assms(1,4) read l(1)
    by (simp add: answer_line_def answer_request_def m_def reply_message_def split: prod.splits sum.splits)
  then have "converse loads handle (client_request fr n meth ps) s = ([m], PeerClosed, snd (handle meth ps s))"
    using converse_line [OF l(2), of loads handle "[]" s] l(1) assms(2) by (simp add: converse_Nil)
  then show ?thesis using assms(5) by (simp add: handle_client_def m_def)
qed

lemma message_line:
  assumes "\<And>x. newline \<notin> set (fr x)"
  shows "\<exists>k. wire plain_char fr m = k @ [newline] \<and> newline \<notin> set k"
proof -
  have "keeps_lines plain_char" by (simp add: keeps_lines_def plain_char_line)
  from wire_line [OF this] show ?thesis using assms by (simp add: one_line_def)
qed

text \<open>C26: A call through the socket is a call of the handler: the client gets the value the handler
  returns, or its error with the code and message the error is answered with, and the service's
  state is the one the handler leaves. Assumed: the two messages are decoded as what they encode,
  and keep their size limits.\<close>

theorem call_is_handler:
  assumes "loads (client_request fr n meth ps) = Decoded (PDict [(''id'', PInt n), (''method'', PStr meth), (''params'', PDict ps)])"
    and "loads (wire plain_char fr (reply_message n (fst (handle meth ps s)))) = Decoded (reply_message n (fst (handle meth ps s)))"
    and "length (client_request fr n meth ps) \<le> MAX_MESSAGE_BYTES"
    and "length (wire plain_char fr (reply_message n (fst (handle meth ps s)))) \<le> MAX_RESPONSE_BYTES"
    and "method_ok meth" and "meth \<noteq> ''events.subscribe''" and "verify_peer peer own"
    and "\<And>x. newline \<notin> set (fr x)"
  shows "(case handle_client fr peer own loads handle (client_request fr n meth ps) s of
      (written, s') \<Rightarrow> (client_receive loads fr written, s'))
    = (case handle meth ps s of
         (Inr v, s') \<Rightarrow> (Inr v, s')
       | (Inl exc, s') \<Rightarrow> (Inl (RpcError (fst (answer_to exc)) (snd (answer_to exc))), s'))"
proof -
  define m where "m = reply_message n (fst (handle meth ps s))"
  note sent = request_answered [where loads = loads, OF assms(1,3,5,6,7,8), of handle s]
  obtain k where k: "wire plain_char fr m = k @ [newline]" "newline \<notin> set k"
    using message_line [where fr = fr and m = m] assms(8) by blast
  have "readline (MAX_RESPONSE_BYTES + 1) (k @ [newline]) = Some (k @ [newline], [])"
    using readline_append [OF k(2), of "MAX_RESPONSE_BYTES + 1" "[]"] k(1) assms(4) by (simp add: m_def)
  then have "client_receive loads fr (k @ [newline]) = client_response fr m"
    using assms(2,4) k(1) by (simp add: client_receive_def m_def)
  then show ?thesis
    by (simp add: sent k(1) flip: m_def) (simp add: m_def reply_message_def client_response_def result_message_def error_message_def param_def
        py_str_def split: prod.splits sum.splits)
qed

definition demo_ping :: pyval where
  "demo_ping = PDict [(''id'', PInt 1), (''method'', PStr ''service.ping''), (''params'', PDict [])]"

definition demo_pong :: pyval where
  "demo_pong = PDict [(''ok'', PBool True), (''version'', PStr ''1.0''), (''pid'', PInt 7)]"

definition demo_loads :: "string \<Rightarrow> decoded" where
  "demo_loads line = (if line = wire json_char blank demo_ping then Decoded demo_ping
     else Decoded (result_message (PInt 1) demo_pong))"

lemma demo_wires:
  "wire plain_char blank (result_message (PInt 1) demo_pong) \<noteq> wire json_char blank demo_ping"
  "length (wire json_char blank demo_ping) \<le> MAX_MESSAGE_BYTES"
  "length (wire plain_char blank (result_message (PInt 1) demo_pong)) \<le> MAX_RESPONSE_BYTES"
  "method_ok ''service.ping''"
proof -
  have sizes: "length (wire json_char blank demo_ping) = 45"
    "length (wire plain_char blank (result_message (PInt 1) demo_pong)) = 54"
    by code_simp+
  then show "wire plain_char blank (result_message (PInt 1) demo_pong) \<noteq> wire json_char blank demo_ping" by auto
  show "length (wire json_char blank demo_ping) \<le> MAX_MESSAGE_BYTES"
    "length (wire plain_char blank (result_message (PInt 1) demo_pong)) \<le> MAX_RESPONSE_BYTES"
    using sizes by (simp_all add: MAX_MESSAGE_BYTES_def MAX_RESPONSE_BYTES_def)
  show "method_ok ''service.ping''" by code_simp
qed

theorem call_is_handler_demo:
  "(case handle_client blank None 1000 demo_loads (service_handler demo_surrounding (\<lambda>_ _. PNone))
        (client_request blank 1 ''service.ping'' []) (demo_service demo_shut) of
      (written, s') \<Rightarrow> (client_receive demo_loads blank written, s')) = (Inr demo_pong, demo_service demo_shut)"
proof -
  let ?handle = "service_handler demo_surrounding (\<lambda>_ _. PNone)" and ?s = "demo_service demo_shut"
  have run: "?handle ''service.ping'' [] ?s = (Inr demo_pong, ?s)"
    by (simp add: service_handler_def handle_rpc_def reply_value_def demo_pong_def demo_surrounding_def prog_simps)
  have request: "client_request blank 1 ''service.ping'' [] = wire json_char blank demo_ping"
    by (simp add: client_request_def demo_ping_def)
  have reply: "reply_message 1 (fst (?handle ''service.ping'' [] ?s)) = result_message (PInt 1) demo_pong"
    by (simp add: run reply_message_def)
  have lines: "newline \<notin> set (blank x)" for x by (simp add: blank_def)
  have "(case handle_client blank None 1000 demo_loads ?handle (client_request blank 1 ''service.ping'' []) ?s of
        (written, s') \<Rightarrow> (client_receive demo_loads blank written, s'))
      = (case ?handle ''service.ping'' [] ?s of
         (Inr v, s') \<Rightarrow> (Inr v, s')
       | (Inl exc, s') \<Rightarrow> (Inl (RpcError (fst (answer_to exc)) (snd (answer_to exc))), s'))"
    by (rule call_is_handler) (use demo_wires lines in
      \<open>simp_all add: reply request demo_loads_def verify_peer_def demo_ping_def [symmetric]\<close>)
  with run show ?thesis by simp
qed

end
