(* ===== verification/Cli.thy ===== *)
theory Cli
  imports Ipc I18n
begin

text \<open>
  \<open>cli.py\<close> after its argument parser: durations, the request each command sends, the status text and
  the exit codes. The call to the service and the reading of JSON are arguments.
\<close>

section \<open>Durations\<close>

text \<open>\<open>parse_duration\<close>; \<open>Inl\<close> is the message of the \<open>ArgumentTypeError\<close>.\<close>

definition parse_duration :: "string \<Rightarrow> string + int" where
  "parse_duration v =
     (let text = str_lower (str_strip v);
          unit_of = (\<lambda>c. if c = CHR ''s'' then Some 1 else if c = CHR ''m'' then Some 60
             else if c = CHR ''h'' then Some (3600 :: int) else None);
          (number, multiplier) =
            (case (if text = [] then None else unit_of (last text)) of
               Some k \<Rightarrow> (butlast text, k) | None \<Rightarrow> (text, 60))
      in (case py_int number of
            None \<Rightarrow> Inl ''duration must be an integer with optional s, m, or h''
          | Some n \<Rightarrow>
              if \<not> (-86400 \<le> n * multiplier \<and> n * multiplier \<le> 86400)
              then Inl (''duration must be within '' @ [CHR 0xB1] @ ''24 hours'')
              else Inr (n * multiplier)))"

section \<open>Commands and their requests\<close>

datatype command =
    Daemon bool bool
  | Status
  | Diagnose
  | Tui
  | ConfigShow
  | ConfigPatch string
  | TimerStart int "string option"
  | TimerPause
  | TimerResume
  | TimerCancel
  | TimerAdd int
  | TimerRemove int
  | Bonus int string
  | HistoryList int "string option"
  | HistoryExport string string
  | HistoryClear bool
  | SummaryDaily int "string option"
  | SummaryWeekly "string option"
  | Simulate string string string

text \<open>\<open>json.loads\<close> of a text, as an exception or a value.\<close>

definition loaded :: "decoded \<Rightarrow> py_exc + pyval" where
  "loaded d = (case d of Decoded v \<Rightarrow> Inr v | Malformed m \<Rightarrow> Inl (ValueError m) | Undecodable m \<Rightarrow> Inl (ValueError m)
     | TooDeep \<Rightarrow> Inl (RecursionError ''maximum recursion depth exceeded''))"

definition load_patch :: "(string \<Rightarrow> decoded) \<Rightarrow> (string \<Rightarrow> py_exc + string) \<Rightarrow> string \<Rightarrow> py_exc + pyval" where
  "load_patch loads read_text v =
     (case (if take 1 v = ''@'' then read_text (drop 1 v) else Inr v) of
        Inl e \<Rightarrow> Inl e
      | Inr text \<Rightarrow>
          (case loaded (loads text) of
             Inl e \<Rightarrow> Inl e
           | Inr (PDict kvs) \<Rightarrow> Inr (PDict kvs)
           | Inr _ \<Rightarrow> Inl (ValueError ''configuration patch must be a JSON object'')))"

definition given :: "string \<Rightarrow> string option \<Rightarrow> params" where
  "given key v = (if truthy v then [(key, PStr (the v))] else [])"

text \<open>The method and the parameters of a command that sends one request and prints the answer.\<close>

definition command_request :: "(string \<Rightarrow> py_exc + pyval) \<Rightarrow> command \<Rightarrow> (py_exc + string \<times> params) option" where
  "command_request patch cmd =
     (case cmd of
        Status \<Rightarrow> Some (Inr (''status.get'', []))
      | Diagnose \<Rightarrow> Some (Inr (''diagnostics.get'', []))
      | ConfigShow \<Rightarrow> Some (Inr (''config.get'', []))
      | ConfigPatch text \<Rightarrow> Some (map_sum id (\<lambda>v. (''config.update'', [(''patch'', v)])) (patch text))
      | TimerStart seconds action \<Rightarrow> Some (Inr (''timer.start'', (''seconds'', PInt seconds)
          # (case action of None \<Rightarrow> [] | Some a \<Rightarrow> [(''action'', PStr a)])))
      | TimerPause \<Rightarrow> Some (Inr (''timer.pause'', []))
      | TimerResume \<Rightarrow> Some (Inr (''timer.resume'', []))
      | TimerCancel \<Rightarrow> Some (Inr (''timer.cancel'', []))
      | TimerAdd seconds \<Rightarrow> Some (Inr (''timer.adjust'', [(''seconds'', PInt \<bar>seconds\<bar>)]))
      | TimerRemove seconds \<Rightarrow> Some (Inr (''timer.adjust'', [(''seconds'', PInt (- \<bar>seconds\<bar>))]))
      | Bonus seconds reason \<Rightarrow> Some (Inr (''daily.grant'', [(''seconds'', PInt seconds), (''reason'', PStr reason)]))
      | HistoryList limit day \<Rightarrow> Some (Inr (''history.list'', (''limit'', PInt limit) # given ''day_key'' day))
      | HistoryClear confirm \<Rightarrow>
          if confirm then Some (Inr (''history.clear'', [(''confirmation'', PStr ''PURGE_HISTORY'')])) else None
      | SummaryDaily days start \<Rightarrow> Some (Inr (''summary.daily'', (''days'', PInt days) # given ''start_day'' start))
      | SummaryWeekly stop \<Rightarrow> Some (Inr (''summary.weekly'', given ''end_day'' stop))
      | Simulate event app_id name \<Rightarrow> Some (Inr (''simulation.emit'',
          [(''event'', PStr event), (''app_id'', PStr app_id), (''name'', PStr name)]))
      | _ \<Rightarrow> None)"

section \<open>The status text\<close>

text \<open>The display functions on a value of the status: hashing a list or a dict raises.\<close>

definition display_value :: "(string \<Rightarrow> string option \<Rightarrow> py_exc + string) \<Rightarrow> string \<Rightarrow> pyval \<Rightarrow> string option \<Rightarrow> py_exc + string" where
  "display_value display fallback v lang =
     (case v of
        PStr s \<Rightarrow> display s lang
      | PList _ \<Rightarrow> Inl (TypeError (''unhashable type: '' @ quoted ''list''))
      | PDict _ \<Rightarrow> Inl (TypeError (''unhashable type: '' @ quoted ''dict''))
      | _ \<Rightarrow> tr lang fallback [])"

definition duration_value :: "pyval \<Rightarrow> string option \<Rightarrow> py_exc + string" where
  "duration_value v lang =
     (case v of
        PNone \<Rightarrow> format_duration None lang
      | PFloat x \<Rightarrow> format_duration (Some x) lang
      | _ \<Rightarrow> (case int_or_raise v of Inl e \<Rightarrow> Inl e | Inr i \<Rightarrow> format_duration (Some (real_of_int i)) lang))"

text \<open>\<open>x or {}\<close>\<close>

definition or_empty :: "pyval \<Rightarrow> pyval" where
  "or_empty v = (if py_truth v then v else PDict [])"

text \<open>A line: its pieces in the order the f-string evaluates them.\<close>

fun line_of :: "(py_exc + string) list \<Rightarrow> py_exc + string" where
  "line_of [] = Inr []"
| "line_of (p # ps) = (case p of Inl e \<Rightarrow> Inl e | Inr a \<Rightarrow> map_sum id (append a) (line_of ps))"

fun text_lines :: "(py_exc + string) list \<Rightarrow> py_exc + string list" where
  "text_lines [] = Inr []"
| "text_lines (l # ls) = (case l of Inl e \<Rightarrow> Inl e | Inr a \<Rightarrow> map_sum id (Cons a) (text_lines ls))"

definition from_dict :: "string \<Rightarrow> pyval \<Rightarrow> (pyval \<Rightarrow> py_exc + string) \<Rightarrow> py_exc + string" where
  "from_dict key v f = (case py_get key PNone v of Inl e \<Rightarrow> Inl e | Inr x \<Rightarrow> f x)"

definition label :: "string option \<Rightarrow> string \<Rightarrow> py_exc + string" where
  "label lang key = tr lang key []"

definition game_name :: "(real \<Rightarrow> string) \<Rightarrow> string option \<Rightarrow> pyval \<Rightarrow> py_exc + string" where
  "game_name fr lang game =
     (case tr lang ''none'' [] of
        Inl e \<Rightarrow> Inl e
      | Inr none \<Rightarrow> map_sum id (py_str fr) (py_get ''name'' (PStr none) game))"

definition human_status :: "(real \<Rightarrow> string) \<Rightarrow> string option \<Rightarrow> pyval \<Rightarrow> py_exc + string" where
  "human_status fr lang st =
     (case (py_get ''game'' PNone st, py_get ''timer'' (PDict []) st, py_get ''restriction'' (PDict []) st,
            py_get ''next_warning'' PNone st) of
        (Inr raw_game, Inr tm, Inr rs, Inr raw_warning) \<Rightarrow>
          (let game = or_empty raw_game; next_warning = or_empty raw_warning;
               duration = (\<lambda>key v. from_dict key v (\<lambda>x. duration_value x lang))
           in map_sum id (join [newline]) (text_lines
             [line_of [label lang ''accounting_day'', Inr '': '', from_dict ''day_key'' st (\<lambda>v. Inr (py_str fr v))],
              line_of [label lang ''played_today'', Inr '': '', duration ''played_today_seconds'' st],
              line_of [label lang ''remaining_today'', Inr '': '', duration ''remaining_today_seconds'' st],
              line_of [label lang ''game'', Inr '': '', game_name fr lang game],
              line_of [label lang ''timer'', Inr '': '',
                from_dict ''state'' tm (\<lambda>v. display_value display_timer_state ''unknown'' v lang), Inr '' ('',
                duration ''remaining_seconds'' tm, Inr '')''],
              line_of [label lang ''restriction'', Inr '': '', label lang ''level'', Inr '' '',
                from_dict ''effective_level'' rs (\<lambda>v. Inr (py_str fr v)), Inr '' ('',
                from_dict ''reason'' rs (\<lambda>v. display_restriction_reason (py_str fr v) lang), Inr '')''],
              line_of [label lang ''next_warning'', Inr '': '',
                from_dict ''scope'' next_warning (\<lambda>v. display_value display_scope ''none'' v lang), Inr '' / '',
                duration ''play_seconds_until'' next_warning],
              line_of [label lang ''next_reset'', Inr '': '', duration ''seconds_until_reset'' st]]))
      | (Inl e, _, _, _) \<Rightarrow> Inl e | (_, Inl e, _, _) \<Rightarrow> Inl e | (_, _, Inl e, _) \<Rightarrow> Inl e | (_, _, _, Inl e) \<Rightarrow> Inl e)"

section \<open>The command line\<close>

definition configured_language :: "config_file \<Rightarrow> Language" where
  "configured_language file =
     (case file of
        Holds (PDict kvs) \<Rightarrow> (case map_of kvs ''language'' of Some (PStr s) \<Rightarrow> language (Some s) | _ \<Rightarrow> EN)
      | _ \<Rightarrow> EN)"

fun language_hint :: "Language \<Rightarrow> string list \<Rightarrow> Language" where
  "language_hint configured (a # b # rest) =
     (if a = ''--language'' then language (Some b) else language_hint configured (b # rest))"
| "language_hint configured _ = configured"

text \<open>What a run prints, writes and exits with, or the exception that ends it.\<close>

datatype run =
    Exits int string string "(string \<times> string) list"
  | Escapes py_exc

definition caught_run :: "py_exc \<Rightarrow> run" where
  "caught_run exc =
     (case exc of
        RpcError c m \<Rightarrow> Exits 1 [] (''error: '' @ m @ [newline]) []
      | ValueError m \<Rightarrow> Exits 1 [] (''error: '' @ m @ [newline]) []
      | ConfigError m \<Rightarrow> Exits 1 [] (''error: '' @ m @ [newline]) []
      | DomainError m \<Rightarrow> Exits 1 [] (''error: '' @ m @ [newline]) []
      | _ \<Rightarrow> Escapes exc)"

definition lang_code :: "Language \<Rightarrow> string option" where
  "lang_code l = Some (case l of EN \<Rightarrow> ''en'' | ES \<Rightarrow> ''es'')"

definition print_result :: "(real \<Rightarrow> string) \<Rightarrow> bool \<Rightarrow> command \<Rightarrow> Language \<Rightarrow> pyval \<Rightarrow> py_exc + string" where
  "print_result fr as_json cmd l result =
     (if as_json \<or> cmd \<noteq> Status then Inr (json_text plain_char fr 0 result @ [newline])
      else map_sum id (\<lambda>t. t @ [newline]) (human_status fr (lang_code l) result))"

text \<open>\<open>result["content"]\<close> and \<open>result["format"]\<close>\<close>

definition subscript :: "string \<Rightarrow> pyval \<Rightarrow> py_exc + pyval" where
  "subscript key v =
     (case v of PDict kvs \<Rightarrow> item_of key kvs
      | _ \<Rightarrow> Inl (TypeError (quoted (py_type v) @ '' object is not subscriptable'')))"

definition export_history :: "(real \<Rightarrow> string) \<Rightarrow> Language \<Rightarrow> string \<Rightarrow> pyval \<Rightarrow> run" where
  "export_history fr l path result =
     (case (subscript ''content'' result, subscript ''format'' result) of
        (Inl e, _) \<Rightarrow> caught_run e
      | (Inr (PStr text), Inr fmt) \<Rightarrow>
          (case tr (lang_code l) ''exported_history'' [(''format'', py_str fr fmt), (''path'', path)] of
             Inl e \<Rightarrow> caught_run e
           | Inr t \<Rightarrow> Exits 0 (t @ [newline]) [] [(path, text)])
      | (Inr (PStr text), Inl e) \<Rightarrow> caught_run e
      | (Inr v, _) \<Rightarrow> Escapes (TypeError (''data must be str, not '' @ py_type v)))"

definition run_command :: "(real \<Rightarrow> string) \<Rightarrow> (string \<Rightarrow> py_exc + pyval) \<Rightarrow> (string \<Rightarrow> params \<Rightarrow> py_exc + pyval) \<Rightarrow>
    Language \<Rightarrow> bool \<Rightarrow> command \<Rightarrow> run" where
  "run_command fr patch call l as_json cmd =
     (case cmd of
        Daemon _ _ \<Rightarrow> Exits 0 [] [] []
      | Tui \<Rightarrow> Exits 0 [] [] []
      | HistoryExport fmt path \<Rightarrow>
          (case call ''history.export'' [(''format'', PStr fmt)] of
             Inl e \<Rightarrow> caught_run e | Inr result \<Rightarrow> export_history fr l path result)
      | _ \<Rightarrow>
          (case command_request patch cmd of
             None \<Rightarrow> Exits 2 [] (''error: history clear requires --confirm'' @ [newline]) []
           | Some (Inl e) \<Rightarrow> caught_run e
           | Some (Inr (meth, ps)) \<Rightarrow>
               (case call meth ps of
                  Inl e \<Rightarrow> caught_run e
                | Inr result \<Rightarrow>
                    (case print_result fr as_json cmd l result of Inl e \<Rightarrow> caught_run e | Inr t \<Rightarrow> Exits 0 t [] []))))"

section \<open>Durations are read as written\<close>

definition plain_letter :: "char \<Rightarrow> bool" where
  "plain_letter c = (ch_isdecimal c \<or> c \<in> {CHR ''-'', CHR ''s'', CHR ''m'', CHR ''h''})"

lemma plain_letter_same: "plain_letter c \<Longrightarrow> \<not> ch_isspace c \<and> ch_lower c = c"
  by (auto simp: plain_letter_def ch_isdecimal_def ch_isspace_def ch_lower_def Let_def)

lemma plain_text_same:
  assumes "list_all plain_letter s" "s \<noteq> []"
  shows "str_lower (str_strip s) = s"
proof -
  have "plain_letter (hd s)" "plain_letter (last s)" using assms by (auto simp: list_all_iff)
  then have "str_strip s = s" using plain_letter_same by (intro strip_nonspace) auto
  moreover have "map ch_lower s = map id s" using assms(1) plain_letter_same by (intro map_cong) (auto simp: list_all_iff)
  ultimately show ?thesis by (simp add: str_lower_def)
qed

lemma int_str_plain: "list_all plain_letter (int_str i)" "int_str i \<noteq> []"
  using isdecimal_nat_str by (auto simp: int_str_def plain_letter_def list_all_iff nat_str.simps [of "nat _"])

lemma py_int_int_str: "py_int (int_str i) = Some i"
proof (cases "i < 0")
  case True
  let ?s = "nat_str (nat (- i))"
  have decimal: "str_isdecimal ?s" using isdecimal_nat_str by (simp add: str_isdecimal_def nat_str.simps [of "nat _"])
  have "str_strip (CHR ''-'' # ?s) = CHR ''-'' # ?s"
    using decimal decimal_not_space
    by (intro strip_nonspace) (auto simp: ch_isspace_def Let_def str_isdecimal_def list_all_iff)
  with True decimal show ?thesis
    by (simp add: int_str_def py_int_def int_unsigned_decimal digits_val_nat_str)
next
  case False
  then show ?thesis by (simp add: int_str_def py_int_nat_str)
qed

lemma parse_unit:
  assumes "(u, k) \<in> {(CHR ''s'', 1), (CHR ''m'', 60), (CHR ''h'', 3600)}" "\<bar>n * k\<bar> \<le> 86400"
  shows "parse_duration (int_str n @ [u]) = Inr (n * k)"
proof -
  have "list_all plain_letter (int_str n @ [u])" using int_str_plain(1) assms(1) by (auto simp: plain_letter_def)
  from plain_text_same [OF this] have "str_lower (str_strip (int_str n @ [u])) = int_str n @ [u]" by simp
  with assms show ?thesis by (auto simp: parse_duration_def py_int_int_str Let_def)
qed

lemma parse_minutes:
  assumes "\<bar>n * 60\<bar> \<le> 86400"
  shows "parse_duration (int_str n) = Inr (n * 60)"
proof -
  have "last (int_str n) \<in> set (int_str n)" using int_str_plain(2) by simp
  moreover have "ch_isdecimal (last (int_str n))"
    using isdecimal_nat_str by (auto simp: int_str_def list_all_iff nat_str.simps [of "nat _"])
  ultimately have "last (int_str n) \<notin> {CHR ''s'', CHR ''m'', CHR ''h''}" by (auto simp: ch_isdecimal_def)
  moreover have "-86400 \<le> n * 60 \<and> n * 60 \<le> 86400" using assms by linarith
  ultimately show ?thesis
    using plain_text_same [OF int_str_plain, of n] int_str_plain(2) [of n]
    by (simp add: parse_duration_def py_int_int_str Let_def)
qed

lemma parse_bounded: "parse_duration v = Inr seconds \<Longrightarrow> -86400 \<le> seconds \<and> seconds \<le> 86400"
  unfolding parse_duration_def Let_def
  by (cases "str_lower (str_strip v) = []") (simp_all split: option.splits prod.splits if_splits)

text \<open>A duration is read as written, in seconds, minutes, hours or plain minutes, with its sign;
  what is accepted never exceeds a day.\<close>

theorem durations_read:
  "(\<bar>n\<bar> \<le> 86400 \<longrightarrow> parse_duration (int_str n @ ''s'') = Inr n)
    \<and> (\<bar>n\<bar> \<le> 1440 \<longrightarrow> parse_duration (int_str n @ ''m'') = Inr (n * 60) \<and> parse_duration (int_str n) = Inr (n * 60))
    \<and> (\<bar>n\<bar> \<le> 24 \<longrightarrow> parse_duration (int_str n @ ''h'') = Inr (n * 3600))
    \<and> (parse_duration v = Inr seconds \<longrightarrow> \<bar>seconds\<bar> \<le> 86400)"
proof (intro conjI impI)
  show "parse_duration (int_str n @ ''s'') = Inr n" if "\<bar>n\<bar> \<le> 86400"
    using parse_unit [of "CHR ''s''" 1 n] that by simp
  show "parse_duration (int_str n @ ''m'') = Inr (n * 60)" if "\<bar>n\<bar> \<le> 1440"
    using that by (intro parse_unit) auto
  show "parse_duration (int_str n) = Inr (n * 60)" if "\<bar>n\<bar> \<le> 1440"
    using that by (intro parse_minutes) auto
  show "parse_duration (int_str n @ ''h'') = Inr (n * 3600)" if "\<bar>n\<bar> \<le> 24"
    using that by (intro parse_unit) auto
  show "\<bar>seconds\<bar> \<le> 86400" if "parse_duration v = Inr seconds"
    using parse_bounded [OF that] by auto
qed

theorem durations_read_demo:
  "parse_duration (int_str 90 @ ''m'') = Inr 5400 \<and> parse_duration (int_str 2 @ ''h'') = Inr 7200"
  using durations_read [of 90] durations_read [of 2] by simp

section \<open>The status text of a running service\<close>

text \<open>The texts without fields, and the keys that have none.\<close>

definition param_keys :: "string list" where
  "param_keys = [''warning_remaining_title'', ''warning_remaining_title_one'', ''warning_remaining_title_many'',
     ''service_error'', ''action_failed'', ''confirm_level'', ''level_set'', ''exported_history'']"

definition brace_free :: "string \<Rightarrow> bool" where
  "brace_free t = list_all (\<lambda>c. c \<noteq> CHR 0x7B \<and> c \<noteq> CHR 0x7D) t"

definition free_key :: "string \<Rightarrow> bool" where
  "free_key k = (brace_free k \<and> k \<notin> set param_keys)"

lemmas key_free_defs = free_key_def brace_free_def param_keys_def

lemma texts_free: "list_all (\<lambda>(k, t). brace_free t \<or> k \<in> set param_keys) TEXT_en"
  "list_all (\<lambda>(k, t). brace_free t \<or> k \<in> set param_keys) TEXT_es"
  by code_simp+

lemma str_format_free: "brace_free t \<Longrightarrow> str_format None t vs = Inr t"
  by (induction t) (simp_all add: brace_free_def)

lemma text_free: "map_of (TEXT l) k = Some t \<Longrightarrow> free_key k \<Longrightarrow> brace_free t"
  using texts_free by (cases l) (auto simp: TEXT_def free_key_def list_all_iff dest!: map_of_SomeD)

lemma key_renders: "free_key k \<Longrightarrow> \<exists>r. tr lang k [] = Inr r"
proof -
  assume k: "free_key k"
  have "brace_free (template l k)" for l
    using text_free [of l k] text_free [of EN k] k by (auto simp: template_def TEXT_def free_key_def split: option.splits)
  then show ?thesis by (simp add: tr_def str_format_free)
qed

text \<open>A piece that does not raise.\<close>

definition given_text :: "py_exc + string \<Rightarrow> bool" where
  "given_text p = (\<exists>t. p = Inr t)"

lemma line_given: "list_all given_text ps \<Longrightarrow> given_text (line_of ps)"
  by (induction ps) (auto simp: given_text_def)

lemma lines_given: "list_all given_text ls \<Longrightarrow> \<exists>ts. text_lines ls = Inr ts"
  by (induction ls) (auto simp: given_text_def)

lemma joined_given: "list_all given_text ls \<Longrightarrow> \<exists>t. map_sum id f (text_lines ls) = Inr t"
  using lines_given by fastforce

lemma given_Inr [simp]: "given_text (Inr t)"
  by (simp add: given_text_def)

lemma given_key: "free_key k \<Longrightarrow> given_text (label lang k)"
  using key_renders by (simp add: given_text_def label_def)

lemma given_tr: "free_key k \<Longrightarrow> given_text (tr lang k [])"
  using key_renders by (simp add: given_text_def)

lemma given_duration: "given_text (format_duration s lang)"
  using given_tr [of "''unlimited''" lang]
  by (cases s) (simp_all add: format_duration_def given_text_def Let_def key_free_defs)

lemma given_duration_value: "v = PNone \<or> (\<exists>i. v = PInt i) \<Longrightarrow> given_text (duration_value v lang)"
  using given_duration by (auto simp: duration_value_def int_or_raise_def py_int_of_def)

lemma given_opt_duration: "given_text (duration_value (popt PInt x) lang)"
  by (cases x) (simp_all add: popt_def given_duration_value)

lemma given_state: "given_text (display_timer_state v lang)"
  unfolding display_timer_state_def by (rule given_tr) (auto simp: key_free_defs)

lemma given_scope: "given_text (display_scope v lang)"
  unfolding display_scope_def by (rule given_tr) (auto simp: key_free_defs)

lemma given_reason: "given_text (display_restriction_reason (reason_value r) lang)"
  unfolding display_restriction_reason_def
  by (rule given_tr) (cases r; simp add: reason_value_def key_free_defs)

lemma given_none_value: "given_text (display_value display_scope ''none'' PNone lang)"
  by (simp add: display_value_def) (rule given_tr, simp add: key_free_defs)

lemma given_game: "given_text (game_name fr lang (or_empty (popt game_to_dict g)))"
  using given_tr [of "''none''" lang]
  by (cases g) (auto simp: game_name_def given_text_def or_empty_def popt_def py_truth_def game_to_dict_def py_get_def key_free_defs)

definition warning_value :: "upcoming_warning option \<Rightarrow> pyval" where
  "warning_value x = popt (\<lambda>w. PDict [(''scope'', PStr (wc_scope w)), (''threshold_seconds'', PInt (wc_threshold_seconds w)),
     (''play_seconds_until'', PInt (wc_play_seconds_until w))]) x"

lemma given_warning:
  "given_text (from_dict ''scope'' (or_empty (warning_value x)) (\<lambda>v. display_value display_scope ''none'' v lang))"
  "given_text (from_dict ''play_seconds_until'' (or_empty (warning_value x)) (\<lambda>x. duration_value x lang))"
  using given_scope given_none_value given_duration_value
  by (cases x; simp add: warning_value_def popt_def or_empty_def py_truth_def from_dict_def py_get_def display_value_def)+

text \<open>The status command always prints a text: for every state of the engine and both languages
  the eight lines render, with or without a game, a limit, a timer and a next warning.\<close>

theorem status_text_renders:
  "\<exists>t. human_status fr lang (status_value (status e)) = Inr t"
proof -
  note given = given_state given_scope given_reason given_duration given_duration_value given_opt_duration
  have status_get: "py_get k d (status_value st) = Inr (case dict_get k (status_value st) of None \<Rightarrow> d | Some x \<Rightarrow> x)" for k d st
    by (simp add: status_value_def py_get_def dict_get_def)
  have pieces: "from_dict k (status_value st) f = f (case dict_get k (status_value st) of None \<Rightarrow> PNone | Some x \<Rightarrow> x)" for k st f
    by (simp add: from_dict_def status_get)
  show ?thesis
    unfolding human_status_def
    by (simp add: status_get pieces Let_def del: line_of.simps text_lines.simps)
      (simp add: status_value_def dict_get_def del: line_of.simps text_lines.simps, intro joined_given,
       simp add: line_given given_key given_game given_warning [unfolded warning_value_def from_dict_def py_get_def display_value_def] given status_def Let_def timer_to_dict_def from_dict_def py_get_def display_value_def
         key_free_defs py_str_def del: line_of.simps text_lines.simps)
qed

end
