(* ===== verification/Tui.thy ===== *)
theory Tui
  imports Cli Demo
begin

text \<open>
  The text interface of \<open>tui.py\<close>: its seven views, what each asks the service and shows, and the
  keys. A turn of its loop is a program over the interface and the service behind it; the screen is
  the list of texts drawn on it. The lemmas: which calls a key can cause, and what a restriction
  level of two or more has to be preceded by.
\<close>

section \<open>State\<close>

definition VIEWS :: "string list" where
  "VIEWS = [''summary'', ''timer'', ''daily'', ''weekly'', ''history'', ''settings'', ''diagnostics'']"

definition VIEW_LABELS :: "(string \<times> string) list" where
  "VIEW_LABELS = [(''summary'', ''summary''), (''timer'', ''session_timer''), (''daily'', ''daily_limit_view''),
     (''weekly'', ''weekly''), (''history'', ''history''), (''settings'', ''settings''), (''diagnostics'', ''diagnostics'')]"

record tui =
  tu_view :: nat
  tu_message :: string
  tu_pending_level :: "int option"
  tu_language_override :: "string option"
  tu_ui_language :: Language

definition tui_init :: "string option \<Rightarrow> tui" where
  "tui_init override = \<lparr>tu_view = 0, tu_message = [], tu_pending_level = None, tu_language_override = override,
     tu_ui_language = language override\<rparr>"

type_synonym ('s, 'a) tui_prog = "(tui \<times> 's, 'a) prog"

type_synonym 's rpc = "string \<Rightarrow> params \<Rightarrow> ('s, pyval) prog"

definition call :: "'s rpc \<Rightarrow> string \<Rightarrow> params \<Rightarrow> ('s, pyval) tui_prog" where
  "call rpc meth ps = (\<lambda>(t, s). case rpc meth ps s of (r, s') \<Rightarrow> (r, (t, s')))"

definition with_tui :: "(tui \<Rightarrow> tui) \<Rightarrow> ('s, unit) tui_prog" where
  "with_tui f = modify (\<lambda>(t, s). (f t, s))"

definition ui_lang :: "tui \<Rightarrow> string option" where
  "ui_lang t = lang_code (tu_ui_language t)"

definition view_name :: "tui \<Rightarrow> string" where
  "view_name t = VIEWS ! tu_view t"

text \<open>\<open>self.message = tr(..)\<close>\<close>

definition say :: "string \<Rightarrow> (string \<times> string) list \<Rightarrow> ('s, unit) tui_prog" where
  "say key vs = bindP (gets (\<lambda>(t, s). tr (ui_lang t) key vs)) (\<lambda>r.
     bindP (liftP r) (\<lambda>m. with_tui (\<lambda>t. t\<lparr>tu_message := m\<rparr>)))"

section \<open>Data and texts of a view\<close>

definition language_of :: "pyval \<Rightarrow> Language" where
  "language_of v = (case v of PStr s \<Rightarrow> language (Some s) | _ \<Rightarrow> language None)"

definition refresh_language :: "'s rpc \<Rightarrow> ('s, unit) tui_prog" where
  "refresh_language rpc = bindP (gets fst) (\<lambda>t.
     whenP (tu_language_override t = None)
       (bindP (call rpc ''config.get'' []) (\<lambda>settings.
        bindP (liftP (py_get ''language'' PNone settings)) (\<lambda>v.
        with_tui (\<lambda>t. t\<lparr>tu_ui_language := language_of v\<rparr>)))))"

definition data_for_view :: "'s rpc \<Rightarrow> ('s, pyval) tui_prog" where
  "data_for_view rpc = bindP (gets (\<lambda>(t, s). view_name t)) (\<lambda>name.
     thenP (refresh_language rpc)
       (if name \<in> {''summary'', ''timer'', ''daily'', ''settings''} then call rpc ''status.get'' []
        else if name = ''weekly'' then call rpc ''summary.weekly'' []
        else if name = ''history'' then call rpc ''history.list'' [(''limit'', PInt 20)]
        else if name = ''diagnostics'' then call rpc ''diagnostics.get'' []
        else ret (PDict [])))"

text \<open>Iterating over a value of the data.\<close>

definition py_iter :: "pyval \<Rightarrow> py_exc + pyval list" where
  "py_iter v =
     (case v of
        PList vs \<Rightarrow> Inr vs
      | PDict kvs \<Rightarrow> Inr (map (\<lambda>kv. PStr (fst kv)) kvs)
      | PStr t \<Rightarrow> Inr (map (\<lambda>c. PStr [c]) t)
      | _ \<Rightarrow> Inl (TypeError (quoted (py_type v) @ '' object is not iterable'')))"

definition spaces :: "nat \<Rightarrow> string" where
  "spaces n = replicate n CHR '' ''"

text \<open>The pieces of the f-strings: a label behind which a colon and blanks stand, a value of a
  dictionary as text or as a duration, and one of two words.\<close>

definition head :: "string option \<Rightarrow> string \<Rightarrow> nat \<Rightarrow> (py_exc + string) list" where
  "head lang key n = [label lang key, Inr (CHR '':'' # spaces n)]"

definition shown :: "(real \<Rightarrow> string) \<Rightarrow> string \<Rightarrow> pyval \<Rightarrow> pyval \<Rightarrow> py_exc + string" where
  "shown fr key fallback v = map_sum id (py_str fr) (py_get key fallback v)"

definition lasting :: "string option \<Rightarrow> string \<Rightarrow> pyval \<Rightarrow> py_exc + string" where
  "lasting lang key v = from_dict key v (\<lambda>x. duration_value x lang)"

definition either_word :: "string option \<Rightarrow> string \<Rightarrow> string \<Rightarrow> string \<Rightarrow> pyval \<Rightarrow> py_exc + string" where
  "either_word lang key yes no v = from_dict key v (\<lambda>x. label lang (if py_truth x then yes else no))"

definition nested :: "string \<Rightarrow> pyval \<Rightarrow> (pyval \<Rightarrow> py_exc + 'a) \<Rightarrow> py_exc + 'a" where
  "nested key v f = (case py_get key (PDict []) v of Inl e \<Rightarrow> Inl e | Inr x \<Rightarrow> f x)"

definition nested_or_empty :: "string \<Rightarrow> pyval \<Rightarrow> (pyval \<Rightarrow> py_exc + 'a) \<Rightarrow> py_exc + 'a" where
  "nested_or_empty key v f = (case py_get key PNone v of Inl e \<Rightarrow> Inl e | Inr x \<Rightarrow> f (or_empty x))"

definition shown_timer_state :: "string option \<Rightarrow> pyval \<Rightarrow> py_exc + string" where
  "shown_timer_state lang timer_data =
     from_dict ''state'' timer_data (\<lambda>v. display_value display_timer_state ''unknown'' v lang)"

definition summary_lines :: "(real \<Rightarrow> string) \<Rightarrow> string option \<Rightarrow> pyval \<Rightarrow> py_exc + string list" where
  "summary_lines fr lang data =
     nested ''restriction'' data (\<lambda>rs. nested_or_empty ''game'' data (\<lambda>game. nested_or_empty ''next_warning'' data (\<lambda>warning.
       text_lines
        [line_of (head lang ''played_today'' 4 @ [lasting lang ''played_today_seconds'' data]),
         line_of (head lang ''remaining_today'' 1 @ [lasting lang ''remaining_today_seconds'' data]),
         line_of (head lang ''detected_game'' 3 @ [game_name fr lang game]),
         line_of (head lang ''timer'' 11 @ [nested ''timer'' data (shown_timer_state lang), Inr '' / '',
           nested ''timer'' data (lasting lang ''remaining_seconds'')]),
         line_of (head lang ''restriction'' 5 @ [label lang ''level'', Inr '' '', shown fr ''effective_level'' (PInt 0) rs,
           Inr '' ('', from_dict ''reason'' rs (\<lambda>v. display_restriction_reason (py_str fr v) lang), Inr '')'']),
         line_of (head lang ''next_warning'' 4
           @ [from_dict ''scope'' warning (\<lambda>v. display_value display_scope ''none'' v lang), Inr '' / '',
              lasting lang ''play_seconds_until'' warning]),
         line_of (head lang ''next_reset'' 6 @ [lasting lang ''seconds_until_reset'' data])])))"

definition timer_lines :: "(real \<Rightarrow> string) \<Rightarrow> string option \<Rightarrow> pyval \<Rightarrow> py_exc + string list" where
  "timer_lines fr lang data =
     nested ''timer'' data (\<lambda>timer_data. text_lines
        [line_of (head lang ''state'' 6 @ [shown_timer_state lang timer_data]),
         line_of (head lang ''remaining'' 2 @ [lasting lang ''remaining_seconds'' timer_data]),
         line_of (head lang ''configured'' 1 @ [lasting lang ''configured_seconds'' timer_data]),
         line_of (head lang ''action'' 5 @ [from_dict ''action'' timer_data (\<lambda>v. display_timer_action (py_str fr v) lang)]),
         Inr [], label lang ''timer_controls''])"

definition daily_lines :: "(real \<Rightarrow> string) \<Rightarrow> string option \<Rightarrow> pyval \<Rightarrow> py_exc + string list" where
  "daily_lines fr lang data = text_lines
     [line_of (head lang ''accounting_day'' 1 @ [shown fr ''day_key'' (PStr ''-'') data]),
      line_of (head lang ''limit'' 10 @ [lasting lang ''daily_limit_seconds'' data]),
      line_of (head lang ''exceptional_time'' 5 @ [lasting lang ''daily_adjustment_seconds'' data]),
      line_of (head lang ''played'' 9 @ [lasting lang ''played_today_seconds'' data]),
      line_of (head lang ''remaining'' 6 @ [lasting lang ''remaining_today_seconds'' data]),
      line_of (head lang ''allowed_period'' 1 @ [either_word lang ''within_allowed_period'' ''yes'' ''no'' data]),
      Inr [], label lang ''grant_hint'']"

text \<open>\<open>arrow\<close> is the arrow between the two days, outside the 8-bit characters.\<close>

definition weekly_lines :: "(real \<Rightarrow> string) \<Rightarrow> string \<Rightarrow> string option \<Rightarrow> pyval \<Rightarrow> py_exc + string list" where
  "weekly_lines fr arrow lang data =
     (case text_lines
        [line_of (head lang ''week'' 1 @ [shown fr ''start_day'' (PStr ''-'') data, Inr '' '', Inr arrow, Inr '' '',
           shown fr ''end_day'' (PStr ''-'') data]),
         line_of (head lang ''total'' 1 @ [lasting lang ''total_seconds'' data]), Inr []] of
        Inl e \<Rightarrow> Inl e
      | Inr heading \<Rightarrow>
          (case py_get ''days'' (PList []) data of
             Inl e \<Rightarrow> Inl e
           | Inr v \<Rightarrow>
               (case py_iter v of
                  Inl e \<Rightarrow> Inl e
                | Inr days \<Rightarrow> map_sum id (append heading) (text_lines (map (\<lambda>d. line_of
                    [shown fr ''day_key'' PNone d, Inr '': '', lasting lang ''total_seconds'' d]) days)))))"

definition history_lines :: "(real \<Rightarrow> string) \<Rightarrow> string option \<Rightarrow> pyval \<Rightarrow> py_exc + string list" where
  "history_lines fr lang data =
     (case line_of [label lang ''recent_sessions'', Inr '':''] of
        Inl e \<Rightarrow> Inl e
      | Inr heading \<Rightarrow>
          (case py_get ''sessions'' (PList []) data of
             Inl e \<Rightarrow> Inl e
           | Inr v \<Rightarrow>
               (case py_iter v of
                  Inl e \<Rightarrow> Inl e
                | Inr rows \<Rightarrow>
                    (case text_lines (map (\<lambda>r. line_of
                        [shown fr ''day_key'' PNone r, Inr (spaces 2), shown fr ''app_name'' PNone r, Inr (spaces 2),
                         lasting lang ''duration_seconds'' r, Inr (spaces 2),
                         from_dict ''reason'' r (\<lambda>x. display_session_reason (py_str fr x) lang)]) rows) of
                       Inl e \<Rightarrow> Inl e
                     | Inr ls \<Rightarrow> if py_truth v then Inr (heading # ls) else text_lines [label lang ''no_history'']))))"

definition settings_lines :: "(real \<Rightarrow> string) \<Rightarrow> string option \<Rightarrow> pyval \<Rightarrow> py_exc + string list" where
  "settings_lines fr lang data =
     nested ''restriction'' data (\<lambda>rs. text_lines
        [line_of (head lang ''configured_restriction_level'' 1 @ [shown fr ''configured_level'' (PInt 0) rs]),
         line_of (head lang ''force_kill'' 1 @ [either_word lang ''force_kill_enabled'' ''enabled'' ''disabled'' rs]),
         Inr [], label lang ''level_hint'', label lang ''schedule_hint''])"

definition diagnostics_lines :: "(real \<Rightarrow> string) \<Rightarrow> string option \<Rightarrow> pyval \<Rightarrow> py_exc + string list" where
  "diagnostics_lines fr lang data =
     nested ''database'' data (\<lambda>database. nested ''native_notifications'' data (\<lambda>native. text_lines
        [line_of (head lang ''version'' 14 @ [shown fr ''project_version'' (PStr ''-'') data]),
         line_of (head lang ''python'' 15 @ [shown fr ''python_version'' (PStr ''-'') data]),
         line_of (head lang ''detector'' 13 @ [shown fr ''detector'' (PStr ''-'') data]),
         line_of (head lang ''database_quick_check'' 1 @ [shown fr ''quick_check'' (PStr ''-'') database]),
         line_of (head lang ''database_schema'' 12 @ [shown fr ''schema_version'' (PStr ''-'') database]),
         line_of (head lang ''decky_connected'' 6 @ [shown fr ''decky_plugin_recent'' (PBool False) data]),
         line_of (head lang ''notify_send'' 11 @ [shown fr ''notify_send_available'' (PBool False) native]),
         line_of (head lang ''session_type'' 10 @ [shown fr ''session_type'' (PStr ''-'') data])]))"

definition view_lines :: "(real \<Rightarrow> string) \<Rightarrow> string \<Rightarrow> tui \<Rightarrow> pyval \<Rightarrow> py_exc + string list" where
  "view_lines fr arrow t data =
     (let lang = ui_lang t; view = view_name t
      in if view = ''summary'' then summary_lines fr lang data
         else if view = ''timer'' then timer_lines fr lang data
         else if view = ''daily'' then daily_lines fr lang data
         else if view = ''weekly'' then weekly_lines fr arrow lang data
         else if view = ''history'' then history_lines fr lang data
         else if view = ''settings'' then settings_lines fr lang data
         else diagnostics_lines fr lang data)"

text \<open>A text drawn: its row and column, cut to the width of the screen. \<open>footer\<close> is the footer's
  text, which has arrows too.\<close>

type_synonym drawn = "(nat \<times> nat \<times> string) list"

definition tabs :: "string option \<Rightarrow> py_exc + string" where
  "tabs lang = map_sum id (join ''  '') (text_lines (map (\<lambda>(i, name).
     line_of [Inr (nat_str (i + 1) @ '':''), label lang (the (map_of VIEW_LABELS name))]) (enumerate 0 VIEWS)))"

definition draw :: "(real \<Rightarrow> string) \<Rightarrow> string \<Rightarrow> (Language \<Rightarrow> string) \<Rightarrow> nat \<times> nat \<Rightarrow> tui \<Rightarrow> pyval \<Rightarrow> py_exc + drawn" where
  "draw fr arrow footer screen t data =
     (case screen of (height, width) \<Rightarrow>
       (case (tabs (ui_lang t), view_lines fr arrow t data) of
          (Inl e, _) \<Rightarrow> Inl e
        | (_, Inl e) \<Rightarrow> Inl e
        | (Inr heading, Inr ls) \<Rightarrow> Inr (
            [(0, 2, take (width - 4) ''SteamOS Time Guardian''), (2, 1, take (width - 2) heading)]
            @ map (\<lambda>(row, l). (row, 2, take (width - 4) l)) (enumerate 4 (take (height - 7) ls))
            @ [(height - 2, 1, take (width - 2) (footer (tu_ui_language t)))]
            @ (if tu_message t = [] then [] else [(height - 1, 1, take (width - 2) (tu_message t))]))))"

section \<open>Keys\<close>

definition ord :: "char \<Rightarrow> int" where
  "ord c = int (of_char c)"

definition KEY_LEFT :: int where "KEY_LEFT = 260"
definition KEY_RIGHT :: int where "KEY_RIGHT = 261"

text \<open>\<open>self.call(..)\<close> followed by a message.\<close>

definition act :: "'s rpc \<Rightarrow> string \<Rightarrow> params \<Rightarrow> string \<Rightarrow> ('s, unit) tui_prog" where
  "act rpc meth ps key = thenP (call rpc meth ps) (say key [])"

definition timer_key :: "'s rpc \<Rightarrow> int \<Rightarrow> ('s, unit) tui_prog" where
  "timer_key rpc key =
     (if key \<in> {ord CHR ''s'', ord CHR ''S''} then act rpc ''timer.start'' [(''seconds'', PInt 1800)] ''timer_started''
      else if key \<in> {ord CHR ''p'', ord CHR ''P''} then act rpc ''timer.pause'' [] ''timer_paused''
      else if key \<in> {ord CHR ''r'', ord CHR ''R''} then act rpc ''timer.resume'' [] ''timer_resumed''
      else if key \<in> {ord CHR ''c'', ord CHR ''C''} then act rpc ''timer.cancel'' [] ''timer_cancelled''
      else if key = ord CHR ''+'' then act rpc ''timer.adjust'' [(''seconds'', PInt 300)] ''minutes_added''
      else if key = ord CHR ''-'' then act rpc ''timer.adjust'' [(''seconds'', PInt (-300))] ''minutes_removed''
      else ret ())"

definition level_patch :: "int \<Rightarrow> params" where
  "level_patch level = [(''patch'', PDict [(''restriction'', PDict [(''level'', PInt level)])])]"

definition configured_level :: "pyval \<Rightarrow> py_exc + int" where
  "configured_level st =
     (case subscript ''restriction'' st of
        Inl e \<Rightarrow> Inl e
      | Inr rs \<Rightarrow> (case subscript ''configured_level'' rs of Inl e \<Rightarrow> Inl e | Inr v \<Rightarrow> int_or_raise v))"

definition settings_key :: "'s rpc \<Rightarrow> ('s, unit) tui_prog" where
  "settings_key rpc =
     bindP (call rpc ''status.get'' []) (\<lambda>st.
     bindP (liftP (configured_level st)) (\<lambda>configured.
     bindP (gets (\<lambda>(t, s). tu_pending_level t)) (\<lambda>pending.
       let level = (configured + 1) mod 4
       in if 2 \<le> level \<and> pending \<noteq> Some level
          then thenP (with_tui (\<lambda>t. t\<lparr>tu_pending_level := Some level\<rparr>)) (say ''confirm_level'' [(''level'', int_str level)])
          else thenP (call rpc ''config.update'' (level_patch level))
              (thenP (with_tui (\<lambda>t. t\<lparr>tu_pending_level := None\<rparr>)) (say ''level_set'' [(''level'', int_str level)])))))"

text \<open>\<open>_handle_action\<close>, its \<open>except RpcError\<close> included.\<close>

definition failure_shown :: "string \<Rightarrow> py_exc \<Rightarrow> ('s, unit) tui_prog" where
  "failure_shown key exc = (case exc of RpcError c m \<Rightarrow> say key [(''message'', m)] | _ \<Rightarrow> raise exc)"

definition handle_action :: "'s rpc \<Rightarrow> int \<Rightarrow> ('s, unit) tui_prog" where
  "handle_action rpc key = thenP (with_tui (\<lambda>t. t\<lparr>tu_message := []\<rparr>))
     (bindP (gets (\<lambda>(t, s). view_name t)) (\<lambda>view.
       catchP
         (if view = ''timer'' then timer_key rpc key
          else if view = ''daily'' \<and> key \<in> {ord CHR ''b'', ord CHR ''B''}
          then act rpc ''daily.grant'' [(''seconds'', PInt 900), (''reason'', PStr ''Desktop TUI exceptional time'')] ''daily_time_added''
          else if view = ''settings'' \<and> key \<in> {ord CHR ''l'', ord CHR ''L''} then settings_key rpc
          else ret ())
         (failure_shown ''action_failed'')))"

definition goes_right :: "int \<Rightarrow> bool" where
  "goes_right key = (key \<in> {KEY_RIGHT, ord CHR ''l'', ord CHR '']''})"

definition goes_left :: "int \<Rightarrow> bool" where
  "goes_left key = (key \<in> {KEY_LEFT, ord CHR ''h'', ord CHR ''[''})"

definition quits :: "int \<Rightarrow> bool" where
  "quits key = (key \<in> {ord CHR ''q'', 27})"

definition show_view :: "nat \<Rightarrow> tui \<Rightarrow> tui" where
  "show_view v t = t\<lparr>tu_view := v, tu_pending_level := None\<rparr>"

text \<open>What the loop does with a key: it ends, or the view changes, or the key is an action.\<close>

definition press :: "'s rpc \<Rightarrow> int \<Rightarrow> ('s, bool) tui_prog" where
  "press rpc key =
     (if quits key then ret False
      else if goes_right key then thenP (with_tui (\<lambda>t. show_view ((tu_view t + 1) mod length VIEWS) t)) (ret True)
      else if goes_left key
        then thenP (with_tui (\<lambda>t. show_view (nat ((int (tu_view t) - 1) mod int (length VIEWS))) t)) (ret True)
      else if ord CHR ''1'' \<le> key \<and> key \<le> ord CHR ''7''
        then thenP (with_tui (show_view (nat (key - ord CHR ''1'')))) (ret True)
      else thenP (handle_action rpc key) (ret True))"

text \<open>The upper half of a turn: the data are fetched and drawn, or the failure is.\<close>

definition redraw :: "(real \<Rightarrow> string) \<Rightarrow> string \<Rightarrow> (Language \<Rightarrow> string) \<Rightarrow> nat \<times> nat \<Rightarrow> 's rpc \<Rightarrow> ('s, drawn) tui_prog" where
  "redraw fr arrow footer screen rpc =
     (let paint = (\<lambda>data. bindP (gets (\<lambda>(t, s). draw fr arrow footer screen t data)) liftP)
      in catchP (bindP (data_for_view rpc) paint)
        (\<lambda>exc. thenP (failure_shown ''service_error'' exc) (paint (PDict []))))"

definition turn :: "(real \<Rightarrow> string) \<Rightarrow> string \<Rightarrow> (Language \<Rightarrow> string) \<Rightarrow> nat \<times> nat \<Rightarrow> 's rpc \<Rightarrow> int \<Rightarrow> ('s, bool) tui_prog" where
  "turn fr arrow footer screen rpc key = thenP (redraw fr arrow footer screen rpc) (press rpc key)"

text \<open>The loop over the keys of a sitting.\<close>

fun tui_run :: "(real \<Rightarrow> string) \<Rightarrow> string \<Rightarrow> (Language \<Rightarrow> string) \<Rightarrow> nat \<times> nat \<Rightarrow> 's rpc \<Rightarrow> int list \<Rightarrow> ('s, unit) tui_prog" where
  "tui_run fr arrow footer screen rpc [] = ret ()"
| "tui_run fr arrow footer screen rpc (key # keys) = bindP (turn fr arrow footer screen rpc key) (\<lambda>more.
     if more then tui_run fr arrow footer screen rpc keys else ret ())"

section \<open>Which calls a key causes\<close>

text \<open>A service that writes down the calls it gets.\<close>

definition logged :: "'s rpc \<Rightarrow> ('s \<times> (string \<times> params) list) rpc" where
  "logged rpc meth ps = (\<lambda>(s, calls). case rpc meth ps s of (r, s') \<Rightarrow> (r, (s', calls @ [(meth, ps)])))"

text \<open>What matters for the restriction level: the level waiting for confirmation, and the updates
  of the configuration sent so far.\<close>

definition updates :: "(string \<times> params) list \<Rightarrow> params list" where
  "updates calls = map snd (filter (\<lambda>c. fst c = ''config.update'') calls)"

fun level_view :: "tui \<times> 's \<times> (string \<times> params) list \<Rightarrow> int option \<times> params list" where
  "level_view (t, s, calls) = (tu_pending_level t, updates calls)"

definition quiet :: "(tui \<times> 's \<times> (string \<times> params) list, 'a) prog \<Rightarrow> bool" where
  "quiet m = (\<forall>x. level_view (snd (m x)) = level_view x)"

lemma quiet_run: "quiet m \<Longrightarrow> m x = (r, y) \<Longrightarrow> level_view y = level_view x"
  unfolding quiet_def by (metis snd_conv)

lemma quiet_snd: "quiet m \<Longrightarrow> level_view (snd (m x)) = level_view x"
  by (simp only: quiet_def)

lemma quiet_bindP: "quiet m \<Longrightarrow> (\<And>a. quiet (f a)) \<Longrightarrow> quiet (bindP m f)"
proof -
  assume m: "quiet m" and f: "\<And>a. quiet (f a)"
  have "level_view (snd (bindP m f x)) = level_view x" for x
  proof -
    obtain r y where run: "m x = (r, y)" by (cases "m x")
    then have "level_view y = level_view x" using m by (rule quiet_run [rotated])
    with run quiet_snd [OF f] show ?thesis by (cases r) (simp_all add: bindP_def)
  qed
  then show ?thesis by (simp add: quiet_def)
qed

lemma quiet_catchP: "quiet m \<Longrightarrow> (\<And>e. quiet (h e)) \<Longrightarrow> quiet (catchP m h)"
proof -
  assume m: "quiet m" and h: "\<And>e. quiet (h e)"
  have "level_view (snd (catchP m h x)) = level_view x" for x
  proof -
    obtain r y where run: "m x = (r, y)" by (cases "m x")
    then have "level_view y = level_view x" using m by (rule quiet_run [rotated])
    with run quiet_snd [OF h] show ?thesis by (cases r) (simp_all add: catchP_def)
  qed
  then show ?thesis by (simp add: quiet_def)
qed

lemma quiet_thenP: "quiet m \<Longrightarrow> quiet n \<Longrightarrow> quiet (thenP m n)"
  by (simp add: thenP_def quiet_bindP)

lemma quiet_basic: "quiet (ret a)" "quiet (raise e)" "quiet (gets f)"
  by (simp_all add: quiet_def)

lemma quiet_liftP: "quiet (liftP r)"
  by (cases r) (simp_all add: quiet_basic)

lemma quiet_if: "(b \<Longrightarrow> quiet m) \<Longrightarrow> (\<not> b \<Longrightarrow> quiet n) \<Longrightarrow> quiet (if b then m else n)"
  by simp

lemma quiet_whenP: "quiet m \<Longrightarrow> quiet (whenP b m)"
  by (simp add: whenP_def quiet_basic)

lemma quiet_call: "meth \<noteq> ''config.update'' \<Longrightarrow> quiet (call (logged rpc) meth ps)"
  by (auto simp: quiet_def call_def logged_def updates_def split: prod.splits)

lemma quiet_tui: "(\<And>t. tu_pending_level (f t) = tu_pending_level t) \<Longrightarrow> quiet (with_tui f)"
  by (auto simp: quiet_def with_tui_def split: prod.splits)

lemmas quiet_rules = quiet_if quiet_bindP quiet_thenP quiet_catchP quiet_whenP quiet_basic quiet_liftP

lemma quiet_say: "quiet (say key vs)"
  unfolding say_def by (intro quiet_rules quiet_tui) simp

lemma quiet_act: "meth \<noteq> ''config.update'' \<Longrightarrow> quiet (act (logged rpc) meth ps key)"
  unfolding act_def by (intro quiet_rules quiet_call quiet_say)

lemma quiet_data: "quiet (data_for_view (logged rpc))"
  unfolding data_for_view_def refresh_language_def by (intro quiet_rules quiet_call quiet_tui) simp_all

lemma quiet_failure: "quiet (failure_shown key exc)"
  by (cases exc) (simp_all add: failure_shown_def quiet_say quiet_basic)

lemma quiet_redraw: "quiet (redraw fr arrow footer screen (logged rpc))"
  unfolding redraw_def Let_def by (intro quiet_rules quiet_data quiet_failure)

lemma quiet_timer_key: "quiet (timer_key (logged rpc) key)"
  unfolding timer_key_def by (intro quiet_rules quiet_act) simp_all

text \<open>The key for the level: it asks for a confirmation, or sends the level, which it may when it is
  below two or waits for its confirmation.\<close>

definition level_move :: "int option \<times> params list \<Rightarrow> int option \<times> params list \<Rightarrow> bool" where
  "level_move u v = (v = u \<or> (\<exists>n. v = (Some n, snd u))
     \<or> (\<exists>n p. v = (p, snd u @ [level_patch n]) \<and> p \<in> {fst u, None} \<and> (2 \<le> n \<longrightarrow> fst u = Some n)))"

lemma settings_key_moves:
  assumes "settings_key (logged rpc) x = (r, y)"
  shows "level_move (level_view x) (level_view y)"
proof -
  obtain r1 x1 where st: "call (logged rpc) ''status.get'' [] x = (r1, x1)"
    by (cases "call (logged rpc) ''status.get'' [] x")
  have same: "level_view x1 = level_view x" by (rule quiet_run [OF quiet_call st]) simp
  show ?thesis
  proof (cases "r1")
    case (Inl e)
    then show ?thesis using assms st same by (simp add: settings_key_def prog_simps level_move_def)
  next
    case (Inr v)
    show ?thesis
    proof (cases "configured_level v")
      case (Inl e)
      then show ?thesis using assms st same Inr by (simp add: settings_key_def prog_simps level_move_def)
    next
      case level: (Inr configured)
      obtain t s calls where x1: "x1 = (t, s, calls)" by (cases x1)
      let ?n = "(configured + 1) mod 4"
      note run = assms st Inr level x1
      have before: "level_view x = (tu_pending_level t, updates calls)" using same x1 by simp
      show ?thesis
      proof (cases "2 \<le> ?n \<and> tu_pending_level t \<noteq> Some ?n")
        case True
        then have "say ''confirm_level'' [(''level'', int_str ?n)] (t\<lparr>tu_pending_level := Some ?n\<rparr>, s, calls) = (r, y)"
          using run by (simp add: settings_key_def prog_simps with_tui_def Let_def)
        from quiet_run [OF quiet_say this] show ?thesis unfolding before by (simp add: level_move_def)
      next
        case False
        obtain r2 s2 where u: "rpc ''config.update'' (level_patch ?n) s = (r2, s2)"
          by (cases "rpc ''config.update'' (level_patch ?n) s")
        note sent = run False u
        show ?thesis
        proof (cases r2)
          case (Inl e)
          then have "y = (t, s2, calls @ [(''config.update'', level_patch ?n)])"
            using sent by (simp add: settings_key_def prog_simps with_tui_def Let_def call_def [of _ "''config.update''"] logged_def [of _ "''config.update''"])
          then show ?thesis using False unfolding before by (auto simp: level_move_def updates_def)
        next
          case (Inr w)
          then have "say ''level_set'' [(''level'', int_str ?n)]
              (t\<lparr>tu_pending_level := None\<rparr>, s2, calls @ [(''config.update'', level_patch ?n)]) = (r, y)"
            using sent by (simp add: settings_key_def prog_simps with_tui_def Let_def call_def [of _ "''config.update''"] logged_def [of _ "''config.update''"])
          from quiet_run [OF quiet_say this] show ?thesis
            using False unfolding before by (auto simp: level_move_def updates_def)
        qed
      qed
    qed
  qed
qed

definition moves :: "int \<Rightarrow> bool" where
  "moves key = (goes_right key \<or> goes_left key \<or> ord CHR ''1'' \<le> key \<and> key \<le> ord CHR ''7'')"

lemma level_move_quiet: "level_move u v \<Longrightarrow> w = v \<Longrightarrow> level_move u w"
  by simp

lemma handle_action_moves:
  assumes "handle_action (logged rpc) key x = (r, y)"
  shows "level_view y = level_view x \<or> key \<in> {ord CHR ''l'', ord CHR ''L''} \<and> level_move (level_view x) (level_view y)"
proof -
  obtain t s calls where x: "x = (t, s, calls)" by (cases x)
  let ?x = "(t\<lparr>tu_message := []\<rparr>, s, calls)"
  have same: "level_view ?x = level_view x" by (simp add: x)
  show ?thesis
  proof (cases "view_name t = ''settings'' \<and> key \<in> {ord CHR ''l'', ord CHR ''L''}")
    case True
    then have run: "catchP (settings_key (logged rpc)) (failure_shown ''action_failed'') ?x = (r, y)"
      using assms by (simp add: handle_action_def prog_simps with_tui_def x view_name_def)
    obtain r1 y1 where one: "settings_key (logged rpc) ?x = (r1, y1)" by (cases "settings_key (logged rpc) ?x")
    note move = settings_key_moves [OF one, unfolded same]
    have "level_view y = level_view y1"
    proof (cases r1)
      case (Inl e)
      then have "failure_shown ''action_failed'' e y1 = (r, y)" using run one by (simp add: catchP_run)
      then show ?thesis by (rule quiet_run [OF quiet_failure])
    qed (use run one in \<open>simp add: catchP_run\<close>)
    with True move show ?thesis by simp
  next
    case False
    have "quiet (catchP
         (if view_name t = ''timer'' then timer_key (logged rpc) key
          else if view_name t = ''daily'' \<and> key \<in> {ord CHR ''b'', ord CHR ''B''}
          then act (logged rpc) ''daily.grant'' [(''seconds'', PInt 900), (''reason'', PStr ''Desktop TUI exceptional time'')] ''daily_time_added''
          else ret ()) (failure_shown ''action_failed''))" (is "quiet ?m")
      by (intro quiet_rules quiet_timer_key quiet_act quiet_failure) simp
    moreover have "?m ?x = (r, y)"
    proof -
      have none: "(if view_name t = ''settings'' \<and> key \<in> {ord CHR ''l'', ord CHR ''L''} then settings_key (logged rpc) else ret ()) = ret ()"
        using False by (simp only: if_False)
      have view: "view_name (t\<lparr>tu_message := []\<rparr>) = view_name t" by (simp add: view_name_def)
      have "handle_action (logged rpc) key x = ?m ?x"
        by (simp only: handle_action_def thenP_run bindP_run with_tui_def modify_run gets_run x sum.case prod.case view none)
      with assms show ?thesis by simp
    qed
    ultimately show ?thesis using quiet_run [of ?m ?x r y] same by simp
  qed
qed

lemma quits_stays: "quits key \<Longrightarrow> \<not> moves key"
  by (auto simp: quits_def moves_def goes_right_def goes_left_def ord_def KEY_LEFT_def KEY_RIGHT_def)

lemma press_moves:
  assumes "press (logged rpc) key x = (r, y)"
  shows "\<not> moves key \<and> level_view y = level_view x \<or> level_view y = (None, snd (level_view x))
    \<or> key = ord CHR ''L'' \<and> level_move (level_view x) (level_view y)"
proof (cases "quits key \<or> moves key")
  case True
  obtain t s calls where x: "x = (t, s, calls)" by (cases x)
  from True show ?thesis using assms quits_stays [of key]
    by (auto simp: x press_def moves_def prog_simps with_tui_def show_view_def split: if_splits)
next
  case False
  then have key: "key \<noteq> ord CHR ''l''" by (auto simp: moves_def goes_right_def)
  obtain r1 y1 where one: "handle_action (logged rpc) key x = (r1, y1)" by (cases "handle_action (logged rpc) key x")
  have "press (logged rpc) key = thenP (handle_action (logged rpc) key) (ret True)"
    using False by (auto simp: press_def moves_def)
  then have "y = y1" using assms one by (cases r1) (simp_all add: thenP_run)
  with handle_action_moves [OF one] key False show ?thesis by blast
qed

lemma small_l_moves: "press rpc (ord CHR ''l'') (t, s) = (Inr True, (show_view ((tu_view t + 1) mod 7) t, s))"
  by (simp add: press_def quits_def goes_right_def ord_def KEY_RIGHT_def prog_simps with_tui_def VIEWS_def)

text \<open>The presses behind a level: one that waits, or two with no change of the view in between.\<close>

definition level_key :: int where
  "level_key = ord CHR ''L''"

definition asked :: "int list \<Rightarrow> bool" where
  "asked ks = (\<exists>a b. ks = a @ level_key # b \<and> (\<forall>k \<in> set b. \<not> moves k))"

definition confirmed :: "int list \<Rightarrow> bool" where
  "confirmed ks = (\<exists>a b c. ks = a @ level_key # b @ level_key # c \<and> (\<forall>k \<in> set b. \<not> moves k))"

definition level_inv :: "int list \<Rightarrow> int option \<times> params list \<Rightarrow> bool" where
  "level_inv ks u = ((fst u \<noteq> None \<longrightarrow> asked ks) \<and> (\<forall>n. 2 \<le> n \<longrightarrow> level_patch n \<in> set (snd u) \<longrightarrow> confirmed ks))"

lemma confirmed_append: "confirmed ks \<Longrightarrow> confirmed (ks @ ks')"
proof -
  assume "confirmed ks"
  then obtain a b c where "ks @ ks' = a @ level_key # b @ level_key # (c @ ks')" "\<forall>k \<in> set b. \<not> moves k"
    by (auto simp: confirmed_def)
  then show ?thesis unfolding confirmed_def by blast
qed

lemma asked_stays: "asked ks \<Longrightarrow> \<not> moves key \<Longrightarrow> asked (ks @ [key])"
proof -
  assume "asked ks" and key: "\<not> moves key"
  then obtain a b where "ks = a @ level_key # b" "\<forall>k \<in> set b. \<not> moves k" by (auto simp: asked_def)
  with key have "ks @ [key] = a @ level_key # (b @ [key])" "\<forall>k \<in> set (b @ [key]). \<not> moves k" by auto
  then show ?thesis unfolding asked_def by blast
qed

lemma asked_level: "asked (ks @ [level_key])"
  unfolding asked_def by (intro exI [of _ ks] exI [of _ "[]"]) simp

lemma asked_confirmed: "asked ks \<Longrightarrow> confirmed (ks @ [level_key])"
proof -
  assume "asked ks"
  then obtain a b where "ks @ [level_key] = a @ level_key # b @ level_key # []" "\<forall>k \<in> set b. \<not> moves k"
    by (auto simp: asked_def)
  then show ?thesis unfolding confirmed_def by blast
qed

lemma level_patch_inject: "level_patch n = level_patch m \<longleftrightarrow> n = m"
  by (simp add: level_patch_def)

lemma level_key_stays: "\<not> moves level_key"
  by (simp add: level_key_def moves_def goes_right_def goes_left_def ord_def KEY_LEFT_def KEY_RIGHT_def)

lemma level_move_inv: "level_move u v \<Longrightarrow> level_inv ks u \<Longrightarrow> level_inv (ks @ [level_key]) v"
  by (auto simp: level_move_def level_inv_def level_patch_inject asked_level asked_confirmed confirmed_append)

lemma press_inv:
  assumes "press (logged rpc) key x = (r, y)" and "level_inv ks (level_view x)"
  shows "level_inv (ks @ [key]) (level_view y)"
  using press_moves [OF assms(1)]
proof (elim disjE conjE)
  assume "\<not> moves key" "level_view y = level_view x"
  with assms(2) show ?thesis by (auto simp: level_inv_def asked_stays confirmed_append)
next
  assume "level_view y = (None, snd (level_view x))"
  with assms(2) show ?thesis by (auto simp: level_inv_def confirmed_append)
next
  assume "key = ord CHR ''L''" "level_move (level_view x) (level_view y)"
  with assms(2) level_move_inv show ?thesis by (simp add: level_key_def)
qed

lemma sitting_inv:
  assumes "tui_run fr arrow footer screen (logged rpc) keys x = (r, y)" and "level_inv ks (level_view x)"
  shows "\<forall>n. 2 \<le> n \<longrightarrow> level_patch n \<in> set (snd (level_view y)) \<longrightarrow> confirmed (ks @ keys)"
  using assms
proof (induction keys arbitrary: ks x)
  case (Cons key keys)
  let ?redraw = "redraw fr arrow footer screen (logged rpc)"
  obtain r1 x1 where one: "?redraw x = (r1, x1)" by (cases "?redraw x")
  have same: "level_view x1 = level_view x" by (rule quiet_run [OF quiet_redraw one])
  show ?case
  proof (cases r1)
    case (Inl e)
    then have "y = x1" using Cons.prems(1) one by (simp add: turn_def prog_simps)
    then show ?thesis using Cons.prems(2) same by (auto simp: level_inv_def confirmed_append)
  next
    case (Inr d)
    obtain r2 x2 where two: "press (logged rpc) key x1 = (r2, x2)" by (cases "press (logged rpc) key x1")
    have inv: "level_inv (ks @ [key]) (level_view x2)"
      using press_inv [OF two] Cons.prems(2) same by simp
    show ?thesis
    proof (cases "r2 = Inr True")
      case True
      then have "tui_run fr arrow footer screen (logged rpc) keys x2 = (r, y)"
        using Cons.prems(1) one Inr two by (simp add: turn_def prog_simps)
      from Cons.IH [OF this inv] show ?thesis by simp
    next
      case False
      then have "y = x2"
        using Cons.prems(1) one Inr two by (cases r2) (auto simp: turn_def prog_simps)
      then show ?thesis using inv confirmed_append [of "ks @ [key]" keys] by (simp add: level_inv_def)
    qed
  qed
qed (auto simp: level_inv_def)

section \<open>The views render\<close>

definition renders :: "py_exc + 'a \<Rightarrow> bool" where
  "renders r = (\<exists>x. r = Inr x)"

lemma renders_lines: "list_all given_text ls \<Longrightarrow> renders (text_lines ls)"
  using lines_given by (simp add: renders_def)

lemma given_label [simp]: "free_key k \<Longrightarrow> given_text (label lang k)"
  by (rule given_key)

lemma given_shown: "v = PDict kvs \<Longrightarrow> given_text (shown fr key d v)"
  by (simp add: shown_def py_get_def given_text_def)

lemma given_lasting: "v = PDict kvs \<Longrightarrow> map_of kvs key = Some (PInt i) \<Longrightarrow> given_text (lasting lang key v)"
  using given_duration_value by (simp add: lasting_def from_dict_def py_get_def)

lemma given_head: "free_key k \<Longrightarrow> list_all given_text (head lang k n)"
  by (simp add: head_def)

lemma given_head_line: "free_key k \<Longrightarrow> list_all given_text ps \<Longrightarrow> given_text (line_of (head lang k n @ ps))"
  by (intro line_given) (simp add: given_head)

lemma given_restriction:
  assumes "rs = PDict [(''configured_level'', PInt a), (''effective_level'', PInt b), (''reason'', PStr (reason_value r)), k]"
  shows "given_text (from_dict ''reason'' rs (\<lambda>v. display_restriction_reason (py_str fr v) lang))"
  using given_reason assms by (simp add: from_dict_def py_get_def py_str_def)

lemma given_timer:
  "given_text (shown_timer_state lang (timer_to_dict t))"
  "given_text (lasting lang ''remaining_seconds'' (timer_to_dict t))"
  "given_text (lasting lang ''configured_seconds'' (timer_to_dict t))"
  using given_state given_duration_value
  by (simp_all add: shown_timer_state_def from_dict_def py_get_def timer_to_dict_def display_value_def lasting_def)

lemma given_action: "given_text (from_dict ''action'' (timer_to_dict t) (\<lambda>v. display_timer_action (py_str fr v) lang))"
proof -
  have "given_text (display_timer_action a lang)" for a
    unfolding display_timer_action_def by (rule given_tr) (auto simp: key_free_defs)
  then show ?thesis by (simp add: from_dict_def py_get_def timer_to_dict_def py_str_def)
qed

text \<open>The entries of a status.\<close>

lemma status_nested:
  "nested ''restriction'' (status_value st) f = f (PDict [(''configured_level'', PInt (st_configured_level st)),
     (''effective_level'', PInt (st_effective_level st)), (''reason'', PStr (st_reason st)),
     (''force_kill_enabled'', PBool (st_force_kill_enabled st))])"
  "nested ''timer'' (status_value st) g = g (st_timer st)"
  "nested_or_empty ''game'' (status_value st) f = f (or_empty (popt game_to_dict (st_game st)))"
  "nested_or_empty ''next_warning'' (status_value st) f = f (or_empty (warning_value (st_next_warning st)))"
  by (simp_all add: nested_def nested_or_empty_def status_value_def py_get_def warning_value_def)

lemma status_lasting:
  "given_text (lasting lang ''played_today_seconds'' (status_value st))"
  "given_text (lasting lang ''remaining_today_seconds'' (status_value st))"
  "given_text (lasting lang ''daily_limit_seconds'' (status_value st))"
  "given_text (lasting lang ''daily_adjustment_seconds'' (status_value st))"
  "given_text (lasting lang ''seconds_until_reset'' (status_value st))"
  using given_duration_value given_opt_duration
  by (simp_all add: lasting_def from_dict_def py_get_def status_value_def)

lemma status_shown: "given_text (shown fr k d (status_value st))"
  by (simp add: status_value_def given_shown)

lemma status_either: "free_key yes \<Longrightarrow> free_key no \<Longrightarrow> given_text (either_word lang k yes no (status_value st))"
  by (simp add: either_word_def from_dict_def py_get_def status_value_def)

lemmas view_given = given_head_line given_game given_warning [folded lasting_def] given_timer given_action status_nested
  status_lasting status_shown status_either

lemma status_lines_render:
  "renders (summary_lines fr lang (status_value (status e)))" "renders (timer_lines fr lang (status_value (status e)))"
  "renders (daily_lines fr lang (status_value (status e)))" "renders (settings_lines fr lang (status_value (status e)))"
proof -
  have timer: "st_timer (status e) = timer_to_dict (timer e)" and reason: "st_reason (status e) = reason_value (restriction_reason e)"
    by (simp_all add: status_def Let_def)
  have keys: "list_all free_key [''played_today'', ''remaining_today'', ''detected_game'', ''timer'', ''restriction'', ''level'',
      ''next_warning'', ''next_reset'', ''state'', ''remaining'', ''configured'', ''action'', ''timer_controls'', ''accounting_day'',
      ''limit'', ''exceptional_time'', ''played'', ''allowed_period'', ''yes'', ''no'', ''grant_hint'',
      ''configured_restriction_level'', ''force_kill'', ''enabled'', ''disabled'', ''level_hint'', ''schedule_hint'']"
    by (simp add: key_free_defs)
  note given = view_given keys [simplified]
  show "renders (summary_lines fr lang (status_value (status e)))"
    unfolding summary_lines_def status_nested timer reason
    by (intro renders_lines) (simp add: given given_restriction [OF refl] given_shown del: line_of.simps)
  show "renders (timer_lines fr lang (status_value (status e)))"
    unfolding timer_lines_def status_nested timer
    by (intro renders_lines) (simp add: given del: line_of.simps)
  show "renders (daily_lines fr lang (status_value (status e)))"
    unfolding daily_lines_def by (intro renders_lines) (simp add: given del: line_of.simps)
  show "renders (settings_lines fr lang (status_value (status e)))"
    unfolding settings_lines_def status_nested
    by (intro renders_lines)
      (simp add: given given_shown either_word_def from_dict_def py_get_def del: line_of.simps)
qed

text \<open>The lists of the weekly view and of the history.\<close>

lemma renders_append: "renders r \<Longrightarrow> renders (map_sum id f r)"
  by (auto simp: renders_def)

lemma lines_append: "given_text (line_of ps) \<Longrightarrow> renders (text_lines ls) \<Longrightarrow> renders (text_lines (line_of ps # ls))"
  by (auto simp: renders_def given_text_def)

lemma weekly_lines_render: "renders (weekly_lines fr arrow lang (reply_value diagnose (Weekly w)))"
proof -
  have keys: "list_all free_key [''week'', ''total'']" by (simp add: key_free_defs)
  obtain start stop seconds days where w: "w = (start, stop, seconds, days)" by (cases w)
  let ?v = "PDict [(''start_day'', PStr start), (''end_day'', PStr stop), (''total_seconds'', PInt seconds), (''days'', PList (map day_value days))]"
  have v: "reply_value diagnose (Weekly w) = ?v" by (simp add: reply_value_def w)
  have day: "given_text (line_of [shown fr ''day_key'' PNone (day_value d), Inr '': '', lasting lang ''total_seconds'' (day_value d)])" for d
    by (intro line_given) (simp add: day_value_def given_shown given_lasting)
  have "list_all given_text (map (\<lambda>d. line_of [shown fr ''day_key'' PNone d, Inr '': '', lasting lang ''total_seconds'' d]) (map day_value days))"
    unfolding list_all_iff using day by (auto simp del: line_of.simps)
  from renders_lines [OF this] obtain body where body: "text_lines (map (\<lambda>d. line_of [shown fr ''day_key'' PNone d, Inr '': '',
      lasting lang ''total_seconds'' d]) (map day_value days)) = Inr body"
    by (auto simp: renders_def)
  have "list_all given_text
      [line_of (head lang ''week'' 1 @ [shown fr ''start_day'' (PStr ''-'') ?v, Inr '' '', Inr arrow, Inr '' '', shown fr ''end_day'' (PStr ''-'') ?v]),
       line_of (head lang ''total'' 1 @ [lasting lang ''total_seconds'' ?v]), Inr []]"
    using keys by (simp add: given_head_line given_shown given_lasting del: line_of.simps)
  from renders_lines [OF this] obtain heading where heading: "text_lines
      [line_of (head lang ''week'' 1 @ [shown fr ''start_day'' (PStr ''-'') ?v, Inr '' '', Inr arrow, Inr '' '', shown fr ''end_day'' (PStr ''-'') ?v]),
       line_of (head lang ''total'' 1 @ [lasting lang ''total_seconds'' ?v]), Inr []] = Inr heading"
    by (auto simp: renders_def)
  have "py_get ''days'' (PList []) ?v = Inr (PList (map day_value days))" by (simp add: py_get_def)
  then show ?thesis
    unfolding v weekly_lines_def heading by (simp only: sum.case py_iter_def pyval.case body) (simp add: renders_def)
qed

lemma tabs_render: "renders (tabs lang)"
proof -
  have keys: "list_all free_key [''summary'', ''session_timer'', ''daily_limit_view'', ''weekly'', ''history'', ''settings'', ''diagnostics'']"
    by (simp add: key_free_defs)
  show ?thesis
    unfolding tabs_def
    by (intro renders_append renders_lines)
      (use keys in \<open>simp add: VIEWS_def VIEW_LABELS_def line_given del: line_of.simps\<close>)
qed

lemma draw_renders: "renders (view_lines fr arrow t data) \<Longrightarrow> renders (draw fr arrow footer screen t data)"
  using tabs_render [of "ui_lang t"] by (cases screen) (auto simp: draw_def renders_def)

text \<open>The views always draw: for every state of the engine, in both languages and on any screen,
  the views that show the status render it, and the weekly view renders every weekly summary.\<close>

theorem views_draw:
  assumes "view_name t \<in> {''summary'', ''timer'', ''daily'', ''settings''} \<and> data = status_value (status e)
    \<or> view_name t = ''weekly'' \<and> data = reply_value diagnose (Weekly w)"
  shows "\<exists>texts. draw fr arrow footer screen t data = Inr texts"
proof -
  have "renders (view_lines fr arrow t data)"
    using assms by (auto simp: view_lines_def Let_def intro: status_lines_render weekly_lines_render)
  from draw_renders [OF this] show ?thesis by (simp add: renders_def)
qed

lemma views_draw_demo:
  "\<exists>texts. draw (\<lambda>_. []) ''->'' (\<lambda>_. []) (24, 80) (tui_init (Some ''es'')) (status_value (status demo_engine)) = Inr texts"
  using views_draw [of "tui_init (Some ''es'')" "status_value (status demo_engine)" demo_engine]
  by (simp add: view_name_def tui_init_def VIEWS_def)

section \<open>A restriction level needs two presses\<close>

definition demo_rpc :: "unit rpc" where
  "demo_rpc meth ps = ret (status_value (status (demo_engine\<lparr>cfg := (cfg demo_engine)\<lparr>c_level := 1\<rparr>\<rparr>)))"

definition demo_keys :: "int list" where
  "demo_keys = [ord CHR ''6'', ord CHR ''L'', ord CHR ''L'']"

abbreviation demo_draws :: "(unit \<times> (string \<times> params) list, drawn) tui_prog" where
  "demo_draws \<equiv> redraw (\<lambda>_. []) ''->'' (\<lambda>_. []) (24, 80) (logged demo_rpc)"

lemma demo_redraw:
  assumes "tu_language_override t = Some l" "view_name t \<in> {''summary'', ''settings''}"
  shows "\<exists>d. demo_draws (t, (), calls) = (Inr d, (t, (), calls @ [(''status.get'', [])]))"
proof -
  let ?e = "demo_engine\<lparr>cfg := (cfg demo_engine)\<lparr>c_level := 1\<rparr>\<rparr>"
  have "renders (view_lines (\<lambda>_. []) ''->'' t (status_value (status ?e)))"
    using assms(2) by (auto simp: view_lines_def Let_def intro: status_lines_render)
  from draw_renders [OF this] obtain d where d: "draw (\<lambda>_. []) ''->'' (\<lambda>_. []) (24, 80) t (status_value (status ?e)) = Inr d"
    unfolding renders_def by blast
  have "data_for_view (logged demo_rpc) (t, (), calls) = (Inr (status_value (status ?e)), (t, (), calls @ [(''status.get'', [])]))"
    using assms by (auto simp: data_for_view_def refresh_language_def prog_simps call_def logged_def demo_rpc_def)
  with d show ?thesis by (simp add: redraw_def prog_simps)
qed

lemma level_texts: "\<exists>m. tr lang ''confirm_level'' [(''level'', v)] = Inr m" "\<exists>m. tr lang ''level_set'' [(''level'', v)] = Inr m"
proof -
  have "''confirm_level'' \<in> fst ` set TEXT_en" "field_names None (template EN ''confirm_level'') = [''level'']"
    "''level_set'' \<in> fst ` set TEXT_en" "field_names None (template EN ''level_set'') = [''level'']"
    by code_simp+
  then show "\<exists>m. tr lang ''confirm_level'' [(''level'', v)] = Inr m" "\<exists>m. tr lang ''level_set'' [(''level'', v)] = Inr m"
    by (simp_all add: tr_renders)
qed

lemma demo_level: "configured_level (status_value (status (demo_engine\<lparr>cfg := (cfg demo_engine)\<lparr>c_level := 1\<rparr>\<rparr>))) = Inr 1"
  by (simp add: configured_level_def subscript_def item_of_def status_value_def status_def Let_def int_or_raise_def py_int_of_def)

lemma demo_presses:
  "press (logged demo_rpc) (ord CHR ''6'') (t, (), calls) = (Inr True, (show_view 5 t, (), calls))"
  "view_name t = ''settings'' \<Longrightarrow> tu_pending_level t = None \<Longrightarrow>
     \<exists>m. press (logged demo_rpc) (ord CHR ''L'') (t, (), calls)
       = (Inr True, (t\<lparr>tu_message := m, tu_pending_level := Some 2\<rparr>, (), calls @ [(''status.get'', [])]))"
  "view_name t = ''settings'' \<Longrightarrow> tu_pending_level t = Some 2 \<Longrightarrow>
     \<exists>m. press (logged demo_rpc) (ord CHR ''L'') (t, (), calls)
       = (Inr True, (t\<lparr>tu_message := m, tu_pending_level := None\<rparr>, (),
            calls @ [(''status.get'', []), (''config.update'', level_patch 2)]))"
proof -
  note keys = quits_def goes_right_def goes_left_def ord_def KEY_LEFT_def KEY_RIGHT_def
  show "press (logged demo_rpc) (ord CHR ''6'') (t, (), calls) = (Inr True, (show_view 5 t, (), calls))"
    by (simp add: press_def keys prog_simps with_tui_def)
  { fix t :: tui assume t: "view_name t = ''settings''" "tu_pending_level t = None"
    obtain m where "tr (ui_lang t) ''confirm_level'' [(''level'', int_str 2)] = Inr m" using level_texts(1) by blast
    then have "press (logged demo_rpc) (ord CHR ''L'') (t, (), calls)
       = (Inr True, (t\<lparr>tu_message := m, tu_pending_level := Some 2\<rparr>, (), calls @ [(''status.get'', [])]))"
      using t by (simp add: press_def keys handle_action_def settings_key_def say_def prog_simps with_tui_def view_name_def ui_lang_def
          call_def logged_def demo_rpc_def demo_level Let_def)
    then show "\<exists>m. press (logged demo_rpc) (ord CHR ''L'') (t, (), calls)
       = (Inr True, (t\<lparr>tu_message := m, tu_pending_level := Some 2\<rparr>, (), calls @ [(''status.get'', [])]))" by blast }
  { fix t :: tui assume t: "view_name t = ''settings''" "tu_pending_level t = Some 2"
    obtain m where "tr (ui_lang t) ''level_set'' [(''level'', int_str 2)] = Inr m" using level_texts(2) by blast
    then have "press (logged demo_rpc) (ord CHR ''L'') (t, (), calls)
       = (Inr True, (t\<lparr>tu_message := m, tu_pending_level := None\<rparr>, (),
            calls @ [(''status.get'', []), (''config.update'', level_patch 2)]))"
      using t by (simp add: press_def keys handle_action_def settings_key_def say_def prog_simps with_tui_def view_name_def ui_lang_def
          call_def logged_def demo_rpc_def demo_level Let_def)
    then show "\<exists>m. press (logged demo_rpc) (ord CHR ''L'') (t, (), calls)
       = (Inr True, (t\<lparr>tu_message := m, tu_pending_level := None\<rparr>, (),
            calls @ [(''status.get'', []), (''config.update'', level_patch 2)]))" by blast }
qed

lemma demo_level_set:
  "\<exists>r t' s' calls. tui_run (\<lambda>_. []) ''->'' (\<lambda>_. []) (24, 80) (logged demo_rpc) demo_keys (tui_init (Some ''en''), (), []) = (r, t', s', calls)
     \<and> (''config.update'', level_patch 2) \<in> set calls"
proof -
  let ?t0 = "tui_init (Some ''en'')" and ?get = "(''status.get'', []) :: string \<times> params"
  have summary: "view_name ?t0 = ''summary''" and settings: "view_name (show_view 5 ?t0) = ''settings''"
    "\<And>m p. view_name (show_view 5 ?t0\<lparr>tu_message := m, tu_pending_level := p\<rparr>) = ''settings''"
    by (simp_all add: view_name_def tui_init_def show_view_def VIEWS_def)
  obtain d where d: "demo_draws (?t0, (), []) = (Inr d, (?t0, (), [?get]))"
    using demo_redraw [of ?t0 "''en''" "[]"] summary by (auto simp: tui_init_def)
  let ?t1 = "show_view 5 ?t0"
  obtain d1 where d1: "demo_draws (?t1, (), [?get]) = (Inr d1, (?t1, (), [?get, ?get]))"
    using demo_redraw [of ?t1 "''en''" "[?get]"] settings by (auto simp: tui_init_def show_view_def)
  obtain m where p1: "press (logged demo_rpc) (ord CHR ''L'') (?t1, (), [?get, ?get])
      = (Inr True, (?t1\<lparr>tu_message := m, tu_pending_level := Some 2\<rparr>, (), [?get, ?get, ?get]))"
    using demo_presses(2) [OF settings(1), of "[?get, ?get]"] by (auto simp: show_view_def)
  let ?t2 = "?t1\<lparr>tu_message := m, tu_pending_level := Some 2\<rparr>"
  obtain d2 where d2: "demo_draws (?t2, (), [?get, ?get, ?get]) = (Inr d2, (?t2, (), [?get, ?get, ?get, ?get]))"
    using demo_redraw [of ?t2 "''en''" "[?get, ?get, ?get]"] settings(2) by (auto simp: tui_init_def show_view_def)
  obtain n where p2: "press (logged demo_rpc) (ord CHR ''L'') (?t2, (), [?get, ?get, ?get, ?get])
      = (Inr True, (?t2\<lparr>tu_message := n, tu_pending_level := None\<rparr>, (), [?get, ?get, ?get, ?get, ?get, (''config.update'', level_patch 2)]))"
    using demo_presses(3) [OF settings(2), of "Some 2" m "[?get, ?get, ?get, ?get]"] by auto
  show ?thesis
    unfolding demo_keys_def tui_run.simps turn_def bindP_run thenP_run
    by (simp add: d demo_presses(1) d1 p1 d2 p2)
qed

text \<open>C28: The text interface raises the restriction to level two or more only when asked twice: among
  the keys of a sitting there are then two presses of the level key with no change of the view
  between them, whatever the service answers and however the sitting ends.\<close>

theorem level_needs_two_presses:
  assumes "tui_run fr arrow footer screen (logged rpc) keys (tui_init override, s, []) = (r, t, s', calls)"
    and "(''config.update'', level_patch n) \<in> set calls" and "2 \<le> n"
  shows "\<exists>a b c. keys = a @ ord CHR ''L'' # b @ ord CHR ''L'' # c \<and> (\<forall>k \<in> set b. \<not> moves k)"
proof -
  have "level_inv [] (level_view (tui_init override, s, [] :: (string \<times> params) list))"
    by (simp add: level_inv_def tui_init_def updates_def)
  from sitting_inv [OF assms(1) this] assms(2,3) have "confirmed keys"
    by (force simp: updates_def)
  then show ?thesis by (simp add: confirmed_def level_key_def)
qed

lemma level_needs_two_presses_demo:
  "\<exists>a b c. demo_keys = a @ ord CHR ''L'' # b @ ord CHR ''L'' # c \<and> (\<forall>k \<in> set b. \<not> moves k)"
  using demo_level_set level_needs_two_presses [where n = 2] by fastforce

end
