(* ===== verification/Decky.thy ===== *)
theory Decky
  imports Talk Cli
begin

text \<open>
  The back end of the Decky plugin, \<open>decky-plugin/main.py\<close>: where it finds the service's socket, the
  request of every method the front end can call, what it makes of a reply, and the bridge that
  forwards the events. The properties tie it to the service behind the socket: a call is a call of
  the request handler as long as the reply is short enough, and the events arrive in order.
\<close>

section \<open>Where the service listens\<close>

text \<open>\<open>env\<close> is the environment, \<open>uids\<close> the user database, \<open>own\<close> \<open>os.getuid()\<close>. Paths are texts with
  single slashes, as \<open>Path\<close> keeps them.\<close>

definition env_text :: "(string \<rightharpoonup> string) \<Rightarrow> string \<Rightarrow> string option" where
  "env_text env key = (case env key of None \<Rightarrow> None | Some v \<Rightarrow> if v = [] then None else Some v)"

definition deck_uid :: "string option \<Rightarrow> (string \<rightharpoonup> string) \<Rightarrow> (string \<rightharpoonup> int) \<Rightarrow> int \<Rightarrow> int" where
  "deck_uid decky_user env uids own =
     (case first_some id [if decky_user = Some [] then None else decky_user, env_text env ''DECKY_USER'', env_text env ''USER''] of
        None \<Rightarrow> own
      | Some name \<Rightarrow> (case uids name of None \<Rightarrow> own | Some uid \<Rightarrow> uid))"

definition path_name :: "string \<Rightarrow> string" where
  "path_name p = rev (takeWhile (\<lambda>c. c \<noteq> CHR ''/'') (rev p))"

definition socket_path :: "(string \<rightharpoonup> string) \<Rightarrow> int \<Rightarrow> string" where
  "socket_path env uid =
     (case env_text env ''STG_SOCKET'' of
        Some p \<Rightarrow> p
      | None \<Rightarrow>
          (let default = ''/run/user/'' @ int_str uid @ ''/steamos-time-guardian/control.sock''
           in case env_text env ''XDG_RUNTIME_DIR'' of
                None \<Rightarrow> default
              | Some runtime \<Rightarrow>
                  if path_name runtime = int_str uid then runtime @ ''/steamos-time-guardian/control.sock'' else default))"

section \<open>The calls of the front end\<close>

datatype plugin_call =
    GetStatus
  | GetConfig
  | UpdateConfig pyval
  | PluginTimerStart pyval "pyval option"
  | PluginTimerPause
  | PluginTimerResume
  | PluginTimerCancel
  | TimerAdjust pyval
  | DailyGrant pyval pyval
  | ActivitySummary pyval
  | PluginHistoryClear pyval
  | WeeklySummary
  | GetDiagnostics
  | PluginHeartbeat
  | ReportForeground pyval pyval pyval
  | ReportLifetime pyval pyval pyval
  | ReportEnforcement pyval pyval pyval

datatype plugin_error = RpcFailure string | PyError py_exc

definition with_int :: "pyval \<Rightarrow> (int \<Rightarrow> 'a) \<Rightarrow> plugin_error + 'a" where
  "with_int v f = (case int_or_raise v of Inl e \<Rightarrow> Inl (PyError e) | Inr i \<Rightarrow> Inr (f i))"

definition plugin_request :: "(real \<Rightarrow> string) \<Rightarrow> plugin_call \<Rightarrow> plugin_error + string \<times> params" where
  "plugin_request fr c =
     (case c of
        GetStatus \<Rightarrow> Inr (''status.get'', [])
      | GetConfig \<Rightarrow> Inr (''config.get'', [])
      | UpdateConfig patch \<Rightarrow>
          (case patch of
             PDict _ \<Rightarrow> Inr (''config.update'', [(''patch'', patch)])
           | _ \<Rightarrow> Inl (RpcFailure ''configuration patch must be an object''))
      | PluginTimerStart minutes action \<Rightarrow> with_int minutes (\<lambda>i. (''timer.start'',
          (''seconds'', PInt (i * 60)) # (case action of None \<Rightarrow> [] | Some a \<Rightarrow> [(''action'', a)])))
      | PluginTimerPause \<Rightarrow> Inr (''timer.pause'', [])
      | PluginTimerResume \<Rightarrow> Inr (''timer.resume'', [])
      | PluginTimerCancel \<Rightarrow> Inr (''timer.cancel'', [])
      | TimerAdjust seconds \<Rightarrow> with_int seconds (\<lambda>i. (''timer.adjust'', [(''seconds'', PInt i)]))
      | DailyGrant minutes reason \<Rightarrow>
          with_int minutes (\<lambda>i. (''daily.grant'', [(''seconds'', PInt (i * 60)), (''reason'', PStr (py_str fr reason))]))
      | ActivitySummary days \<Rightarrow> with_int days (\<lambda>i. (''summary.activity'', [(''days'', PInt i)]))
      | PluginHistoryClear confirmation \<Rightarrow> Inr (''history.clear'', [(''confirmation'', confirmation)])
      | WeeklySummary \<Rightarrow> Inr (''summary.weekly'', [])
      | GetDiagnostics \<Rightarrow> Inr (''diagnostics.get'', [])
      | PluginHeartbeat \<Rightarrow> Inr (''plugin.heartbeat'', [])
      | ReportForeground running app_id name \<Rightarrow> Inr (''detector.report_foreground'',
          [(''running'', PBool (py_truth running)), (''app_id'', app_id), (''name'', PStr (py_str fr name))])
      | ReportLifetime app_id instance_id running \<Rightarrow> Inr (''detector.report_lifetime'',
          [(''app_id'', app_id), (''instance_id'', instance_id), (''running'', running)])
      | ReportEnforcement app_id success detail \<Rightarrow> Inr (''enforcement.report_result'',
          [(''app_id'', app_id), (''success'', success), (''detail'', PStr (take 300 (py_str fr detail)))]))"

section \<open>A call\<close>

definition MAX_MESSAGE :: nat where
  "MAX_MESSAGE = 64 * 1024"

text \<open>\<open>"error" in response\<close>, as for the client of \<open>ipc.py\<close>, with the message only.\<close>

definition plugin_response :: "(real \<Rightarrow> string) \<Rightarrow> pyval \<Rightarrow> plugin_error + pyval" where
  "plugin_response fr response =
     (case client_response fr response of
        Inl (RpcError c m) \<Rightarrow> Inl (RpcFailure m) | Inl e \<Rightarrow> Inl (PyError e) | Inr v \<Rightarrow> Inr v)"

text \<open>The stream reader has the default limit of 64 KiB.\<close>

definition plugin_receive :: "(string \<Rightarrow> decoded) \<Rightarrow> (real \<Rightarrow> string) \<Rightarrow> string \<Rightarrow> plugin_error + pyval" where
  "plugin_receive loads fr input =
     (case readline (64 * 1024) input of
        None \<Rightarrow> Inl (PyError (ValueError ''Separator is found, but chunk is longer than limit''))
      | Some (line, _) \<Rightarrow>
          if line = [] \<or> MAX_MESSAGE < length line then Inl (RpcFailure ''invalid response from Time Guardian daemon'')
          else (case loaded (loads line) of Inl e \<Rightarrow> Inl (PyError e) | Inr v \<Rightarrow> plugin_response fr v))"

text \<open>\<open>_rpc\<close> on a connection to the service: the request number is taken, the request is written and
  one line is read. \<open>_rpc\<close> is \<open>plugin_rpc\<close> of the service's end of the connection.\<close>

definition plugin_rpc :: "(string \<Rightarrow> decoded) \<Rightarrow> (real \<Rightarrow> string) \<Rightarrow> (string \<Rightarrow> 's \<Rightarrow> string \<times> 's) \<Rightarrow> int \<Rightarrow> string \<Rightarrow> params \<Rightarrow> 's \<Rightarrow>
    (plugin_error + pyval) \<times> int \<times> 's" where
  "plugin_rpc loads fr peer_end n meth ps s =
     (case peer_end (client_request fr (n + 1) meth ps) s of
        (written, s') \<Rightarrow> (plugin_receive loads fr written, n + 1, s'))"

section \<open>The event bridge\<close>

text \<open>The events emitted from what arrives on one connection after the acknowledgement, and why the
  connection is given up. It always is, in the end: the bridge then waits and connects again.\<close>

function bridge_events :: "(string \<Rightarrow> decoded) \<Rightarrow> string \<Rightarrow> pyval list \<times> plugin_error" where
  "bridge_events loads input =
     (case readline (64 * 1024) input of
        None \<Rightarrow> ([], PyError (ValueError ''Separator is found, but chunk is longer than limit''))
      | Some (line, rest) \<Rightarrow>
          if input = [] then ([], RpcFailure ''event stream closed'')
          else if MAX_MESSAGE < length line then bridge_events loads rest
          else (case loaded (loads line) of
                  Inl e \<Rightarrow> ([], PyError e)
                | Inr payload \<Rightarrow>
                    (case py_get ''event'' PNone payload of
                       Inl e \<Rightarrow> ([], PyError e)
                     | Inr event \<Rightarrow>
                         (let (es, why) = bridge_events loads rest
                          in (case event of PDict _ \<Rightarrow> event # es | _ \<Rightarrow> es, why)))))"
  by pat_completeness auto
termination
  by (relation "measure (\<lambda>(loads, input). length input)") (auto simp: readline_shorter)

declare bridge_events.simps [simp del]

text \<open>The pause before the next attempt, and the pauses of attempts that all fail.\<close>

definition next_delay :: "nat \<Rightarrow> nat" where
  "next_delay delay = min 30 (delay * 2)"

definition retry_delay :: "nat \<Rightarrow> nat" where
  "retry_delay attempts = (next_delay ^^ attempts) 1"

section \<open>The plugin and the service\<close>

lemma bridge_line:
  assumes "newline \<notin> set l" "length (l @ [newline]) \<le> MAX_MESSAGE" "loads (l @ [newline]) = Decoded (PDict [(''event'', PDict kvs)])"
  shows "bridge_events loads (l @ newline # rest) = (case bridge_events loads rest of (es, why) \<Rightarrow> (PDict kvs # es, why))"
proof -
  have "readline (64 * 1024) (l @ newline # rest) = Some (l @ [newline], rest)"
    using assms(1,2) by (intro readline_append) (simp_all add: MAX_MESSAGE_def)
  then show ?thesis
    using assms by (subst bridge_events.simps) (simp add: loaded_def py_get_def split: prod.splits)
qed

lemma bridge_Nil: "bridge_events loads [] = ([], RpcFailure ''event stream closed'')"
  by (simp add: bridge_events.simps readline_def cut_line_def)

lemma retry_delay_is: "retry_delay n = (if n < 5 then 2 ^ n else 30)"
proof (induction n)
  case (Suc n)
  have "retry_delay (Suc n) = min 30 (retry_delay n * 2)" by (simp add: retry_delay_def next_delay_def)
  with Suc show ?case by (cases "n < 4") (auto simp: less_Suc_eq numeral_eq_Suc)
qed (simp add: retry_delay_def)

lemma plugin_methods_ok:
  assumes "plugin_request fr c = Inr (meth, ps)"
  shows "method_ok meth" "meth \<noteq> ''events.subscribe''"
proof -
  let ?known = "[''status.get'', ''config.get'', ''config.update'', ''timer.start'', ''timer.pause'', ''timer.resume'', ''timer.cancel'',
     ''timer.adjust'', ''daily.grant'', ''summary.activity'', ''history.clear'', ''summary.weekly'', ''diagnostics.get'',
     ''plugin.heartbeat'', ''detector.report_foreground'', ''detector.report_lifetime'', ''enforcement.report_result'']"
  have "meth \<in> set ?known"
    using assms by (cases c) (auto simp: plugin_request_def with_int_def split: sum.splits pyval.splits)
  moreover have "list_all method_ok ?known" "''events.subscribe'' \<notin> set ?known" by code_simp+
  ultimately show "method_ok meth" "meth \<noteq> ''events.subscribe''" by (auto simp: list_all_iff)
qed

lemma plugin_reads_reply:
  assumes "\<And>x. newline \<notin> set (fr x)"
    and "loads (wire plain_char fr (reply_message n r)) = Decoded (reply_message n r)"
    and "length (wire plain_char fr (reply_message n r)) \<le> MAX_MESSAGE"
  shows "plugin_receive loads fr (wire plain_char fr (reply_message n r))
    = (case r of Inr v \<Rightarrow> Inr v | Inl exc \<Rightarrow> Inl (RpcFailure (snd (answer_to exc))))"
proof -
  obtain k where k: "wire plain_char fr (reply_message n r) = k @ [newline]" "newline \<notin> set k"
    using message_line [where fr = fr, OF assms(1)] by blast
  have "readline (64 * 1024) (k @ [newline]) = Some (k @ [newline], [])"
    using readline_append [OF k(2), of "64 * 1024" "[]"] assms(3) k(1) by (simp add: MAX_MESSAGE_def)
  then have "plugin_receive loads fr (k @ [newline]) = plugin_response fr (reply_message n r)"
    using assms(2,3) k(1) by (simp add: plugin_receive_def loaded_def)
  then show ?thesis
    by (simp add: k(1)) (simp add: plugin_response_def reply_message_def client_response_def result_message_def error_message_def
        param_def py_str_def split: prod.splits sum.splits)
qed

lemma plugin_refuses_reply:
  assumes "\<And>x. newline \<notin> set (fr x)" and "MAX_MESSAGE < length (wire plain_char fr m)"
  shows "\<exists>e. plugin_receive loads fr (wire plain_char fr m) = Inl e"
proof -
  obtain k where k: "wire plain_char fr m = k @ [newline]" "newline \<notin> set k"
    using message_line [where fr = fr, OF assms(1)] by blast
  have cut: "cut_line (k @ [newline]) = (k @ [newline], [])" using cut_line_append [OF k(2), of "[]"] by simp
  show ?thesis
    using assms(2) by (auto simp: plugin_receive_def readline_def k(1) cut)
qed

text \<open>C27: A call of the plugin is a call of the service's request handler: the request is accepted
  and handled, and when the reply has at most 64 KiB the front end gets the value or the message of
  the error. A longer reply is an error for the front end although the service has acted.\<close>

theorem plugin_call_is_handler:
  assumes "plugin_request fr c = Inr (meth, ps)"
    and "loads (client_request fr (n + 1) meth ps) = Decoded (PDict [(''id'', PInt (n + 1)), (''method'', PStr meth), (''params'', PDict ps)])"
    and "loads (wire plain_char fr (reply_message (n + 1) (fst (handle meth ps s)))) = Decoded (reply_message (n + 1) (fst (handle meth ps s)))"
    and "length (client_request fr (n + 1) meth ps) \<le> MAX_MESSAGE_BYTES"
    and "verify_peer peer own" and "\<And>x. newline \<notin> set (fr x)"
  shows "\<exists>e. plugin_rpc loads fr (handle_client fr peer own loads handle) n meth ps s
    = (if length (wire plain_char fr (reply_message (n + 1) (fst (handle meth ps s)))) \<le> MAX_MESSAGE
       then (case fst (handle meth ps s) of Inr v \<Rightarrow> Inr v | Inl exc \<Rightarrow> Inl (RpcFailure (snd (answer_to exc))))
       else Inl e, n + 1, snd (handle meth ps s))"
proof -
  note sent = request_answered [where loads = loads and handle = handle, OF assms(2,4) plugin_methods_ok [OF assms(1)] assms(5,6)]
  show ?thesis
  proof (cases "length (wire plain_char fr (reply_message (n + 1) (fst (handle meth ps s)))) \<le> MAX_MESSAGE")
    case True
    then show ?thesis using plugin_reads_reply [where fr = fr and loads = loads and n = "n + 1" and r = "fst (handle meth ps s)", OF assms(6,3) True] sent by (simp add: plugin_rpc_def)
  next
    case False
    then obtain e where "plugin_receive loads fr (wire plain_char fr (reply_message (n + 1) (fst (handle meth ps s)))) = Inl e"
      using plugin_refuses_reply [of fr "reply_message (n + 1) (fst (handle meth ps s))" loads] assms(6) by auto
    with False sent show ?thesis by (auto simp: plugin_rpc_def)
  qed
qed

definition demo_asked :: pyval where
  "demo_asked = PDict [(''id'', PInt 1), (''method'', PStr ''timer.pause''), (''params'', PDict [])]"

definition demo_handle :: "string \<Rightarrow> params \<Rightarrow> (nat, pyval) prog" where
  "demo_handle meth ps s = (Inr (PBool True), Suc s)"

lemma demo_asked_sizes:
  "length (wire json_char blank demo_asked) = 44" "length (wire plain_char blank (result_message (PInt 1) (PBool True))) = 23"
  by code_simp+

theorem plugin_call_is_handler_demo:
  "plugin_rpc (\<lambda>line. if length line = 44 then Decoded demo_asked else Decoded (result_message (PInt 1) (PBool True))) blank
     (handle_client blank None 1000 (\<lambda>line. if length line = 44 then Decoded demo_asked else Decoded (result_message (PInt 1) (PBool True)))
       demo_handle) 0 ''timer.pause'' [] 5 = (Inr (PBool True), 1, 6)"
proof -
  let ?loads = "\<lambda>line :: string. if length line = 44 then Decoded demo_asked else Decoded (result_message (PInt 1) (PBool True))"
  have request: "client_request blank (0 + 1) ''timer.pause'' [] = wire json_char blank demo_asked"
    by (simp add: client_request_def demo_asked_def)
  have reply: "reply_message (0 + 1) (fst (demo_handle ''timer.pause'' [] 5)) = result_message (PInt 1) (PBool True)"
    by (simp add: reply_message_def demo_handle_def)
  have "\<exists>e. plugin_rpc ?loads blank (handle_client blank None 1000 ?loads demo_handle) 0 ''timer.pause'' [] 5
    = (if length (wire plain_char blank (reply_message (0 + 1) (fst (demo_handle ''timer.pause'' [] 5)))) \<le> MAX_MESSAGE
       then (case fst (demo_handle ''timer.pause'' [] 5) of Inr v \<Rightarrow> Inr v | Inl exc \<Rightarrow> Inl (RpcFailure (snd (answer_to exc))))
       else Inl e, 0 + 1, snd (demo_handle ''timer.pause'' [] 5))"
  proof (rule plugin_call_is_handler)
    show "plugin_request blank PluginTimerPause = Inr (''timer.pause'', [])" by (simp add: plugin_request_def)
    show "newline \<notin> set (blank x)" for x by (simp add: blank_def)
    show "verify_peer None 1000" by (simp add: verify_peer_def)
    show "?loads (client_request blank (0 + 1) ''timer.pause'' [])
        = Decoded (PDict [(''id'', PInt (0 + 1)), (''method'', PStr ''timer.pause''), (''params'', PDict [])])"
      unfolding request using demo_asked_sizes(1) by (simp add: demo_asked_def)
    show "?loads (wire plain_char blank (reply_message (0 + 1) (fst (demo_handle ''timer.pause'' [] 5))))
        = Decoded (reply_message (0 + 1) (fst (demo_handle ''timer.pause'' [] 5)))"
      unfolding reply using demo_asked_sizes(2) by simp
    show "length (client_request blank (0 + 1) ''timer.pause'' []) \<le> MAX_MESSAGE_BYTES"
      unfolding request using demo_asked_sizes(1) by (simp add: MAX_MESSAGE_BYTES_def)
  qed
  then show ?thesis
    using demo_asked_sizes(2) unfolding reply by (simp add: MAX_MESSAGE_def demo_handle_def)
qed

text \<open>The bridge forwards every event the service sends, in the order they were published, as long
  as no event exceeds 64 KiB; and it ends by giving the connection up, to connect again.\<close>

theorem events_are_bridged:
  assumes "list_all (\<lambda>kvs. loads (stream_event fr (PDict kvs)) = Decoded (PDict [(''event'', PDict kvs)])
      \<and> length (stream_event fr (PDict kvs)) \<le> MAX_MESSAGE) sent"
    and "\<And>x. newline \<notin> set (fr x)"
  shows "bridge_events loads (concat (map (\<lambda>kvs. stream_event fr (PDict kvs)) sent)) = (map PDict sent, RpcFailure ''event stream closed'')"
  using assms(1)
proof (induction sent)
  case (Cons kvs sent)
  obtain k where k: "stream_event fr (PDict kvs) = k @ [newline]" "newline \<notin> set k"
    using message_line [where fr = fr, OF assms(2)] by (auto simp: stream_event_def)
  have "bridge_events loads (k @ newline # concat (map (\<lambda>kvs. stream_event fr (PDict kvs)) sent))
      = (PDict kvs # map PDict sent, RpcFailure ''event stream closed'')"
    using Cons k by (subst bridge_line) simp_all
  then show ?case by (simp add: k(1))
qed (simp add: bridge_Nil)

lemma events_are_bridged_demo:
  "bridge_events (\<lambda>_. Decoded (PDict [(''event'', PDict [(''type'', PStr ''day.reset'')])]))
     (concat (map (\<lambda>kvs. stream_event blank (PDict kvs)) [[(''type'', PStr ''day.reset'')], [(''type'', PStr ''day.reset'')]]))
   = ([PDict [(''type'', PStr ''day.reset'')], PDict [(''type'', PStr ''day.reset'')]], RpcFailure ''event stream closed'')"
proof -
  have "length (stream_event blank (PDict [(''type'', PStr ''day.reset'')])) = 31" by code_simp
  then have "list_all (\<lambda>kvs. (\<lambda>_ :: string. Decoded (PDict [(''event'', PDict [(''type'', PStr ''day.reset'')])])) (stream_event blank (PDict kvs))
        = Decoded (PDict [(''event'', PDict kvs)]) \<and> length (stream_event blank (PDict kvs)) \<le> MAX_MESSAGE)
      [[(''type'', PStr ''day.reset'')], [(''type'', PStr ''day.reset'')]]"
    by (simp add: MAX_MESSAGE_def)
  note ok = this
  have lines: "newline \<notin> set (blank x)" for x by (simp add: blank_def)
  from events_are_bridged [OF ok lines] show ?thesis by simp
qed

end
