(* ===== verification/Follow.thy ===== *)
theory Follow
  imports Detectors Wire
begin

text \<open>
  The follower of \<open>detectors/steam_log.py\<close>, which reads what was appended to Steam's log at every
  wake-up, and the scan of \<open>detectors/procfs.py\<close>, which chooses among the user's processes that
  carry a Steam variable. The lemmas: how the growth of the log is spread over the wake-ups does not
  matter as long as whole lines are written, and what a line torn between two of them loses.
\<close>

section \<open>The follower\<close>

text \<open>What the path of the log leads to at a wake-up: nothing, or an inode and its content; and the
  follower between two wake-ups: the inode it holds open with its position, and its parser.\<close>

record log_file =
  l_inode :: nat
  l_content :: string

record follower =
  f_handle :: "(nat \<times> nat) option"
  f_parser :: steam_log_parser

function file_lines :: "string \<Rightarrow> string list" where
  "file_lines input =
     (if input = [] then [] else let (line, rest) = cut_line input in line # file_lines rest)"
  by pat_completeness auto
termination
  by (relation "measure length") (simp, metis cut_line_length in_measure snd_conv)

declare file_lines.simps [simp del]

text \<open>\<open>_open_at_end\<close>.\<close>

definition open_at_end :: "log_file option \<Rightarrow> (nat \<times> nat) option" where
  "open_at_end now = map_option (\<lambda>f. (l_inode f, length (l_content f))) now"

definition follower_start :: "log_file option \<Rightarrow> (string \<times> string) list \<Rightarrow> follower" where
  "follower_start now names = \<lparr>f_handle = open_at_end now, f_parser = \<lparr>lp_pids = [], lp_names = names\<rparr>\<rparr>"

text \<open>One turn of the loop of \<open>run\<close>: a file that is gone or has another inode than the open one is
  opened again, at its end, and the lines up to the end of the file are fed to the parser, the last
  one with or without its newline. \<open>decode\<close> is \<open>raw.decode("utf-8", errors="replace")\<close>.\<close>

definition same_file :: "(nat \<times> nat) option \<Rightarrow> log_file option \<Rightarrow> bool" where
  "same_file h now = (case (h, now) of (Some (i, pos), Some f) \<Rightarrow> i = l_inode f | _ \<Rightarrow> False)"

definition wake_up :: "(string \<Rightarrow> string) \<Rightarrow> log_file option \<Rightarrow> follower \<Rightarrow> detector_event list \<times> follower" where
  "wake_up decode now f =
     (let h = if same_file (f_handle f) now then f_handle f else open_at_end now
      in case (h, now) of
           (Some (i, pos), Some file) \<Rightarrow>
             (let added = drop pos (l_content file);
                  (es, p) = feed_lines (map decode (file_lines added)) (f_parser f)
              in (es, \<lparr>f_handle = Some (i, pos + length added), f_parser = p\<rparr>))
         | _ \<Rightarrow> ([], f\<lparr>f_handle := None\<rparr>))"

fun follow :: "(string \<Rightarrow> string) \<Rightarrow> log_file option list \<Rightarrow> follower \<Rightarrow> detector_event list \<times> follower" where
  "follow decode [] f = ([], f)"
| "follow decode (now # nows) f =
     (let (es, f') = wake_up decode now f; (es', f'') = follow decode nows f' in (es @ es', f''))"

section \<open>Whole lines\<close>

definition whole_lines :: "string \<Rightarrow> bool" where
  "whole_lines s = (s = [] \<or> last s = newline)"

lemma file_lines_Nil [simp]: "file_lines [] = []"
  by (simp add: file_lines.simps)

lemma file_lines_line: "newline \<notin> set l \<Longrightarrow> file_lines (l @ newline # rest) = (l @ [newline]) # file_lines rest"
  by (subst file_lines.simps) (simp add: cut_line_append)

lemma whole_lines_induct [consumes 1, case_names Nil Line]:
  assumes "whole_lines s" "P []" "\<And>l rest. newline \<notin> set l \<Longrightarrow> whole_lines rest \<Longrightarrow> P rest \<Longrightarrow> P (l @ newline # rest)"
  shows "P s"
  using assms(1)
proof (induction "length s" arbitrary: s rule: less_induct)
  case less
  show ?case
  proof (cases "s = []")
    case False
    then have "newline \<in> set s" using less.prems last_in_set [of s] by (simp add: whole_lines_def)
    then obtain l rest where s: "s = l @ newline # rest" "newline \<notin> set l" by (metis split_list_first)
    then have "whole_lines rest" using less.prems by (simp add: whole_lines_def split: if_splits)
    then show ?thesis using less.hyps [of rest] s assms(3) by simp
  qed (simp add: assms(2))
qed

lemma file_lines_append: "whole_lines s \<Longrightarrow> file_lines (s @ t) = file_lines s @ file_lines t"
  by (induction s rule: whole_lines_induct) (simp_all add: file_lines_line)

lemma file_lines_concat: "list_all whole_lines ss \<Longrightarrow> file_lines (concat ss) = concat (map file_lines ss)"
  by (induction ss) (simp_all add: file_lines_append)

lemma feed_lines_append:
  "feed_lines (ls @ ls') p = (fst (feed_lines ls p) @ fst (feed_lines ls' (snd (feed_lines ls p))),
     snd (feed_lines ls' (snd (feed_lines ls p))))"
  by (induction ls arbitrary: p) (simp_all split: prod.splits)

text \<open>The log grows by one chunk before every wake-up.\<close>

fun grows :: "nat \<Rightarrow> string \<Rightarrow> string list \<Rightarrow> log_file option list" where
  "grows i content [] = []"
| "grows i content (c # cs) = Some \<lparr>l_inode = i, l_content = content @ c\<rparr> # grows i (content @ c) cs"

lemma follow_grows:
  "f_handle f = Some (i, length content) \<Longrightarrow>
   fst (follow decode (grows i content cs) f) = fst (feed_lines (map decode (concat (map file_lines cs))) (f_parser f))"
proof (induction cs arbitrary: content f)
  case (Cons c cs)
  define r where "r = feed_lines (map decode (file_lines c)) (f_parser f)"
  have "wake_up decode (Some \<lparr>l_inode = i, l_content = content @ c\<rparr>) f
      = (fst r, \<lparr>f_handle = Some (i, length (content @ c)), f_parser = snd r\<rparr>)"
    using Cons.prems by (simp add: wake_up_def same_file_def r_def split: prod.splits)
  with Cons.IH [of "\<lparr>f_handle = Some (i, length (content @ c)), f_parser = snd r\<rparr>" "content @ c"] show ?case
    unfolding grows.simps follow.simps list.map concat.simps map_append feed_lines_append
    by (auto simp: r_def split: prod.splits)
qed simp

lemma follow_whole_lines:
  assumes "list_all whole_lines cs" "f_handle f = Some (i, length content)"
  shows "fst (follow decode (grows i content cs) f) = fst (feed_lines (map decode (file_lines (concat cs))) (f_parser f))"
  by (simp add: follow_grows [OF assms(2)] file_lines_concat [OF assms(1)])

text \<open>A file under another inode is read from where it ends when it is first seen.\<close>

lemma wake_up_rotated:
  assumes "f_handle f = Some (i, pos)" "l_inode file \<noteq> i"
  shows "wake_up decode (Some file) f
    = ([], f\<lparr>f_handle := Some (l_inode file, length (l_content file))\<rparr>)"
  using assms by (simp add: wake_up_def same_file_def open_at_end_def)

section \<open>The messages of the log\<close>

definition ascii :: "string \<Rightarrow> bool" where
  "ascii s = list_all (\<lambda>c. code c < 128) s"

lemma ascii_append [simp]: "ascii (a @ b) = (ascii a \<and> ascii b)"
  by (simp add: ascii_def)

lemma digits_ascii: "digits s \<Longrightarrow> ascii s \<and> newline \<notin> set s"
  by (auto simp: digits_def ascii_def list_all_iff ch_isdecimal_def Let_def)

definition log_line :: "string \<Rightarrow> string \<Rightarrow> steam_message \<Rightarrow> string" where
  "log_line pre post m = pre @ message_text (post @ [newline]) m"

lemma message_text_post: "message_text (post @ [newline]) m = message_text post m @ [newline]"
  by (cases m) (simp_all add: tracking_def untracking_def removing_def)

lemma message_clean:
  "message_ok m \<Longrightarrow> ascii post \<Longrightarrow> newline \<notin> set post \<Longrightarrow> ascii (message_text post m) \<and> newline \<notin> set (message_text post m)"
  by (cases m) (auto simp: tracking_def untracking_def removing_def dest!: digits_ascii, simp_all add: ascii_def)

lemma file_lines_messages:
  assumes "list_all message_ok ms" "ascii (pre @ post)" "newline \<notin> set (pre @ post)"
  shows "whole_lines (concat (map (log_line pre post) ms))"
    "file_lines (concat (map (log_line pre post) ms)) = map (log_line pre post) ms"
    "list_all ascii (map (log_line pre post) ms)"
  using assms(1)
proof (induction ms)
  case (Cons m ms)
  { case 1 with Cons show ?case by (auto simp: whole_lines_def log_line_def message_text_post) }
  { case 2
    have "newline \<notin> set (pre @ message_text post m)" using 2 message_clean [of m post] assms(2,3) by auto
    from file_lines_line [OF this] 2 Cons show ?case by (simp add: log_line_def message_text_post) }
  { case 3 with Cons message_clean [of m post] assms(2,3) show ?case
      by (auto simp: log_line_def message_text_post) (simp add: ascii_def) }
qed (simp_all add: whole_lines_def)

definition demo_log :: "nat \<Rightarrow> string \<Rightarrow> log_file option" where
  "demo_log i content = Some \<lparr>l_inode = i, l_content = content\<rparr>"

abbreviation demo_stamp :: string where
  "demo_stamp \<equiv> ''[2024-05-01 20:15:00] ''"

text \<open>C29: The follower reports what the log tells, whenever it wakes up: if Steam appends only whole
  message lines between the wake-ups, then however they are spread over them, an app is reported
  as started exactly when its first process is tracked and as stopped exactly when it is removed.\<close>

theorem follower_tells_runs:
  assumes "framing pre (post @ [newline])" and "ascii (pre @ post)" and "newline \<notin> set (pre @ post)"
    and "list_all (list_all message_ok) mss" and "\<And>s. ascii s \<Longrightarrow> decode s = s"
  shows "map event_app (fst (follow decode (grows i old (map (\<lambda>ms. concat (map (log_line pre post) ms)) mss))
      (follower_start (Some \<lparr>l_inode = i, l_content = old\<rparr>) names)))
    = running_apps (\<lambda>_. {}) (concat mss)"
proof -
  let ?chunk = "\<lambda>ms. concat (map (log_line pre post) ms)" and ?p = "\<lparr>lp_pids = [], lp_names = names\<rparr>"
  have ok: "list_all message_ok (concat mss)" using assms(4) by (induction mss) simp_all
  have whole: "list_all whole_lines (map ?chunk mss)"
    using assms(4) file_lines_messages(1) [OF _ assms(2,3)] by (auto simp: list_all_iff)
  have "fst (follow decode (grows i old (map ?chunk mss)) (follower_start (Some \<lparr>l_inode = i, l_content = old\<rparr>) names))
      = fst (feed_lines (map decode (file_lines (concat (map ?chunk mss)))) ?p)"
    using follow_whole_lines [OF whole] by (simp add: follower_start_def open_at_end_def)
  also have "concat (map ?chunk mss) = ?chunk (concat mss)" by (induction mss) simp_all
  also have "map decode (file_lines (?chunk (concat mss))) = map (log_line pre post) (concat mss)"
    using file_lines_messages(2,3) [OF ok assms(2,3)] assms(5) by (simp add: list_all_iff)
  also have "map event_app (fst (feed_lines (map (log_line pre post) (concat mss)) ?p)) = running_apps (\<lambda>_. {}) (concat mss)"
    unfolding log_line_def by (rule feed_messages [OF assms(1) ok]) (simp add: tracked_def)
  finally show ?thesis .
qed

lemma follower_tells_runs_demo:
  "map event_app (fst (follow (\<lambda>bytes. bytes)
     (grows 7 ''old'' (map (\<lambda>ms. concat (map (log_line demo_stamp []) ms)) [take 1 demo_log_messages, [], drop 1 demo_log_messages]))
     (follower_start (Some \<lparr>l_inode = 7, l_content = ''old''\<rparr>) []))) = [(STARTED, ''440''), (STOPPED, ''440'')]"
proof -
  have "framing demo_stamp ([] @ [newline])" "ascii (demo_stamp @ [])" "newline \<notin> set (demo_stamp @ [])"
    "list_all (list_all message_ok) [take 1 demo_log_messages, [], drop 1 demo_log_messages]"
    by code_simp+
  moreover have "running_apps (\<lambda>_. {}) demo_log_messages = [(STARTED, ''440''), (STOPPED, ''440'')]"
    by (simp add: demo_log_messages_def digits_val_def)
  moreover have "concat [take 1 demo_log_messages, [], drop 1 demo_log_messages] = demo_log_messages" by simp
  ultimately show ?thesis
    using follower_tells_runs [of demo_stamp "[]" "[take 1 demo_log_messages, [], drop 1 demo_log_messages]" "\<lambda>bytes. bytes" 7 "''old''" "[]"]
    by (simp only: simp_thms)
qed

definition torn_line :: "string \<times> string" where
  "torn_line = (demo_stamp @ ''AppID 440 adding PI'', ''D 71 as a tracked process'' @ [newline])"

lemma torn_whole: "fst torn_line @ snd torn_line = log_line demo_stamp [] (Tracks ''440'' ''71'')"
  by (simp add: torn_line_def log_line_def tracking_def)

lemma torn_lines: "file_lines (fst torn_line) = [fst torn_line]" "file_lines (snd torn_line) = [snd torn_line]"
  "file_lines (fst torn_line @ snd torn_line) = [fst torn_line @ snd torn_line]"
proof -
  have none: "newline \<notin> set (fst torn_line)" "newline \<notin> set (fst torn_line @ ''D 71 as a tracked process'')"
    "newline \<notin> set ''D 71 as a tracked process''"
    by (simp_all add: torn_line_def)
  show "file_lines (fst torn_line) = [fst torn_line]"
    using none(1) by (subst file_lines.simps) (simp add: cut_line_def torn_line_def)
  show "file_lines (snd torn_line) = [snd torn_line]"
    using file_lines_line [OF none(3), of "[]"] by (simp add: torn_line_def)
  show "file_lines (fst torn_line @ snd torn_line) = [fst torn_line @ snd torn_line]"
    using file_lines_line [OF none(2), of "[]"] by (simp add: torn_line_def)
qed

lemma torn_halves: "search track_re (fst torn_line) = None" "search untrack_re (fst torn_line) = None"
  "search remove_re (fst torn_line) = None" "search track_re (snd torn_line) = None"
  "search untrack_re (snd torn_line) = None" "search remove_re (snd torn_line) = None"
  by code_simp+

lemma torn_no_name: "learn_name (fst torn_line) p = p" "learn_name (snd torn_line) p = p"
proof -
  have skips: "skips CHR ''a'' demo_stamp" "skips CHR ''a'' []" and sep: "no_separator ''AppID 440 adding PI''"
    "no_separator (''D 71 as a tracked process'' @ [newline])"
    by code_simp+
  show "learn_name (fst torn_line) p = p" "learn_name (snd torn_line) p = p"
    using no_name [OF skips(1) sep(1)] no_name [OF skips(2) sep(2)] by (simp_all add: torn_line_def)
qed

lemma torn_feeds: "feed_line (fst torn_line) p = ([], p)" "feed_line (snd torn_line) p = ([], p)"
  by (simp_all add: feed_line_def torn_no_name torn_halves)

lemma whole_feeds:
  "map event_app (fst (feed_line (fst torn_line @ snd torn_line) \<lparr>lp_pids = [], lp_names = names\<rparr>)) = [(STARTED, ''440'')]"
proof -
  have "framing demo_stamp [newline]" "digits ''440''" "digits ''71''" by code_simp+
  from reads_tracking [OF this] show ?thesis
    by (simp add: torn_whole log_line_def tracked_def event_app_def identity_def Let_def)
qed


end
