(* ===== verification/Procfs.thy ===== *)
theory Procfs
  imports Detectors Process
begin

text \<open>
  \<open>ProcfsDetector.scan\<close> of \<open>detectors/procfs.py\<close>: the user's processes that carry a Steam
  variable, grouped by app, and the app with the most of them, named by its most common process.
  The lemmas read the groups off the list of processes and show that a choice is a maximum; the
  process table is the one of \<open>Process\<close>.
\<close>

section \<open>Grouping the processes\<close>

definition item_value :: "string \<Rightarrow> (string \<times> string) option" where
  "item_value item =
     (case partition_on CHR ''='' item of
        (key, separator, value) \<Rightarrow> if separator \<and> key \<in> set env_keys then Some (key, value) else None)"

definition steam_env :: "string \<Rightarrow> (string \<times> string) list" where
  "steam_env raw = fold (\<lambda>(k, v). alist_set k v) (List.map_filter item_value (split_on (char_of (0::nat)) raw)) []"

text \<open>\<open>dec\<close> is \<open>.decode(errors="ignore")\<close>.\<close>

definition steam_app :: "(string \<Rightarrow> string) \<Rightarrow> string \<Rightarrow> string option" where
  "steam_app dec raw = first_some (\<lambda>k. case map_of (steam_env raw) k of
      None \<Rightarrow> None | Some v \<Rightarrow> if v = [] then None else Some (dec v)) env_keys"

definition app_wanted :: "string list \<Rightarrow> string \<Rightarrow> bool" where
  "app_wanted ignored a = (a \<noteq> [] \<and> a \<notin> set ignored \<and> a \<noteq> ''0'')"

text \<open>The app of one entry of \<open>/proc\<close> and its process name; a read that fails skips the entry.\<close>

definition scan_process :: "(string \<Rightarrow> string) \<Rightarrow> string list \<Rightarrow> int \<Rightarrow> proc_fs \<Rightarrow> string \<Rightarrow> (string \<times> string) option" where
  "scan_process dec ignored uid fs name =
     (let p = pf_entry fs name
      in if \<not> str_isdigit name \<or> pr_uid p \<noteq> Some uid then None
         else (case pr_environ p of
                 None \<Rightarrow> None
               | Some raw \<Rightarrow>
                   (case steam_app dec raw of
                      None \<Rightarrow> None
                    | Some a \<Rightarrow> if app_wanted ignored a then map_option (\<lambda>comm. (a, str_strip comm)) (pr_comm p) else None)))"

type_synonym groups = "(string \<times> (int \<times> string) list) list"

text \<open>The \<open>defaultdict\<close> has the app before \<open>int(entry.name)\<close> can fail.\<close>

definition group_of :: "groups \<Rightarrow> string \<Rightarrow> (int \<times> string) list" where
  "group_of gs a = (case map_of gs a of None \<Rightarrow> [] | Some ps \<Rightarrow> ps)"

definition add_process :: "string \<Rightarrow> string \<times> string \<Rightarrow> groups \<Rightarrow> groups" where
  "add_process name found gs =
     (case found of (a, comm) \<Rightarrow>
        alist_set a (group_of gs a @ (case py_int name of None \<Rightarrow> [] | Some pid \<Rightarrow> [(pid, comm)])) gs)"

fun group_processes :: "(string \<Rightarrow> (string \<times> string) option) \<Rightarrow> string list \<Rightarrow> groups \<Rightarrow> groups" where
  "group_processes look [] gs = gs"
| "group_processes look (name # names) gs =
     group_processes look names (case look name of None \<Rightarrow> gs | Some found \<Rightarrow> add_process name found gs)"

lemma in_map_filter: "y \<in> set (List.map_filter f xs) \<longleftrightarrow> (\<exists>x \<in> set xs. f x = Some y)"
  by (force simp: List.map_filter_def)

section \<open>Choosing one\<close>

text \<open>\<open>max\<close> keeps the first of several maxima; strings compare by code point.\<close>

fun py_max :: "('a \<Rightarrow> 'a \<Rightarrow> bool) \<Rightarrow> 'a \<Rightarrow> 'a list \<Rightarrow> 'a" where
  "py_max lt x [] = x"
| "py_max lt x (y # ys) = py_max lt (if lt x y then y else x) ys"

fun str_less :: "string \<Rightarrow> string \<Rightarrow> bool" where
  "str_less _ [] = False"
| "str_less [] (_ # _) = True"
| "str_less (c # cs) (d # ds) = (code c < code d \<or> c = d \<and> str_less cs ds)"

definition group_less :: "string \<times> (int \<times> string) list \<Rightarrow> string \<times> (int \<times> string) list \<Rightarrow> bool" where
  "group_less g h = (length (snd g) < length (snd h) \<or> length (snd g) = length (snd h) \<and> str_less (fst g) (fst h))"

definition counted :: "string list \<Rightarrow> (string \<times> nat) list" where
  "counted names = fold (\<lambda>n cs. alist_set n (Suc (case map_of cs n of None \<Rightarrow> 0 | Some k \<Rightarrow> k)) cs) names []"

definition most_common :: "string list \<Rightarrow> string option" where
  "most_common names =
     (case counted names of [] \<Rightarrow> None | c # cs \<Rightarrow> Some (fst (py_max (\<lambda>a b. snd a < snd b) c cs)))"

definition shown_names :: "string list \<Rightarrow> (int \<times> string) list \<Rightarrow> string list" where
  "shown_names ignored ps = filter (\<lambda>n. n \<noteq> [] \<and> str_casefold n \<notin> str_casefold ` set ignored) (map snd ps)"

definition scan :: "(string \<Rightarrow> string) \<Rightarrow> string list \<Rightarrow> string list \<Rightarrow> int \<Rightarrow> proc_fs \<Rightarrow> game_identity option" where
  "scan dec ignored_ids ignored_names uid fs =
     (case pf_listing fs of
        None \<Rightarrow> None
      | Some entries \<Rightarrow>
          (case group_processes (scan_process dec ignored_ids uid fs) entries [] of
             [] \<Rightarrow> None
           | g # gs \<Rightarrow>
               (case py_max group_less g gs of (a, processes) \<Rightarrow>
                  Some \<lparr>g_app_id = Some a,
                    g_name = (case most_common (shown_names ignored_names processes) of
                      None \<Rightarrow> ''Steam App '' @ a | Some n \<Rightarrow> n),
                    g_source = ''procfs'', g_pids = map fst processes, g_confidence = 55 / 100, g_instance_id = None\<rparr>)))"

section \<open>A choice is a maximum\<close>

lemma py_max_in: "py_max lt x xs \<in> set (x # xs)"
  by (induction lt x xs rule: py_max.induct) auto

lemma py_max_above:
  fixes m :: "'a \<Rightarrow> nat"
  assumes "\<And>x y. m x < m y \<Longrightarrow> lt x y" "\<And>x y. lt x y \<Longrightarrow> m x \<le> m y"
  shows "y \<in> set (x # xs) \<Longrightarrow> m y \<le> m (py_max lt x xs)"
proof (induction xs arbitrary: x y)
  case (Cons z xs)
  have up: "m w \<le> m (py_max lt w xs)" for w using Cons.IH [of w w] by simp
  show ?case
  proof (cases "y \<in> set xs")
    case True
    then show ?thesis using Cons.IH by simp
  next
    case False
    then have y: "y = x \<or> y = z" using Cons.prems by auto
    show ?thesis using y up [of x] up [of z] assms(1) [of x z] assms(2) [of x z]
      by (cases "lt x z") (auto intro: le_trans, meson le_trans not_le)
  qed
qed simp

lemma counted_snoc: "counted (ns @ [n]) = alist_set n (Suc (case map_of (counted ns) n of None \<Rightarrow> 0 | Some k \<Rightarrow> k)) (counted ns)"
  by (simp add: counted_def)

lemma counted_list: "distinct (map fst (counted ns)) \<and> map_of (counted ns) n = (if n \<in> set ns then Some (count_list ns n) else None)"
proof (induction ns rule: rev_induct)
  case (snoc x ns)
  then show ?case by (auto simp: counted_snoc intro: distinct_alist_set)
qed (simp add: counted_def)

lemma most_common_none: "most_common ns = None \<longleftrightarrow> ns = []"
proof (cases ns rule: rev_cases)
  case (snoc ms m)
  have "map_of (counted ns) m \<noteq> None" using snoc counted_list [of ns m] by simp
  then show ?thesis using snoc by (auto simp: most_common_def split: list.splits)
qed (simp add: most_common_def counted_def)

lemma most_common_max:
  assumes "most_common ns = Some n"
  shows "n \<in> set ns" "count_list ns k \<le> count_list ns n"
proof -
  obtain c cs where c: "counted ns = c # cs" "n = fst (py_max (\<lambda>a b. snd a < snd b) c cs)"
    using assms by (auto simp: most_common_def split: list.splits)
  define b where "b = py_max (\<lambda>a b :: string \<times> nat. snd a < snd b) c cs"
  have "b \<in> set (counted ns)" using py_max_in [of "\<lambda>a b. snd a < snd b" c cs] by (simp add: b_def c(1))
  then have "map_of (counted ns) n = Some (snd b)" 
    using counted_list [of ns n] c(2) 
    by (metis b_def map_of_is_SomeI prod.collapse)
  then have n: "n \<in> set ns" "snd b = count_list ns n" using counted_list [of ns n] by (simp_all split: if_splits)
  show "n \<in> set ns" by fact
  show "count_list ns k \<le> count_list ns n"
  proof (cases "k \<in> set ns")
    case True
    then have "map_of (c # cs) k = Some (count_list ns k)" using counted_list [of ns k] c(1) by simp
    then have "(k, count_list ns k) \<in> set (c # cs)" by (rule map_of_SomeD)
    from py_max_above [where m = snd and lt = "\<lambda>a b. snd a < snd b", OF _ _ this]
    show ?thesis by (simp add: b_def flip: n(2))
  qed simp
qed

section \<open>What the scan reports\<close>

text \<open>The processes of one app, read off the listing.\<close>

definition process_of :: "(string \<Rightarrow> (string \<times> string) option) \<Rightarrow> string \<Rightarrow> string \<Rightarrow> (int \<times> string) option" where
  "process_of look a name =
     (case look name of None \<Rightarrow> None | Some (b, comm) \<Rightarrow> if b = a then map_option (\<lambda>pid. (pid, comm)) (py_int name) else None)"

lemma process_of_Some: "process_of look a name = Some (pid, comm) \<longleftrightarrow> look name = Some (a, comm) \<and> py_int name = Some pid"
  by (auto simp: process_of_def split: option.splits)

definition processes_of :: "(string \<Rightarrow> (string \<times> string) option) \<Rightarrow> string list \<Rightarrow> string \<Rightarrow> (int \<times> string) list" where
  "processes_of look names a = List.map_filter (process_of look a) names"

lemma group_of_set: "group_of (alist_set a ps gs) b = (if b = a then ps else group_of gs b)"
  by (simp add: group_of_def)

lemma group_of_processes: "group_of (group_processes look names gs) a = group_of gs a @ processes_of look names a"
proof (induction look names gs rule: group_processes.induct)
  case (2 look name names gs)
  then show ?case
    by (auto simp: processes_of_def List.map_filter_simps process_of_def add_process_def group_of_set split: option.splits)
qed (simp add: processes_of_def List.map_filter_simps)

lemma group_keys:
  "fst ` set (group_processes look names gs) = fst ` set gs \<union> {a. \<exists>name \<in> set names. \<exists>comm. look name = Some (a, comm)}"
proof (induction look names gs rule: group_processes.induct)
  case (2 look name names gs)
  then show ?case by (auto simp: add_process_def keys_alist_set split: option.splits)
qed simp

lemma group_distinct: "distinct (map fst gs) \<Longrightarrow> distinct (map fst (group_processes look names gs))"
  by (induction look names gs rule: group_processes.induct) (auto simp: add_process_def distinct_alist_set split: option.splits)

lemma group_member:
  assumes "(a, ps) \<in> set (group_processes look names [])"
  shows "ps = processes_of look names a" "\<exists>name \<in> set names. \<exists>comm. look name = Some (a, comm)"
proof -
  have "map_of (group_processes look names []) a = Some ps"
    using group_distinct [of "[]" look names] assms by (simp add: map_of_eq_Some_iff)
  then show "ps = processes_of look names a"
    using group_of_processes [of look names "[]" a] by (simp add: group_of_def)
  have "a \<in> fst ` set (group_processes look names [])" using assms by force
  then show "\<exists>name \<in> set names. \<exists>comm. look name = Some (a, comm)" by (simp add: group_keys)
qed

lemma group_longest:
  assumes "group_processes look names [] = g # gs" "py_max group_less g gs = (a, ps)"
  shows "ps = processes_of look names a" "\<exists>name \<in> set names. \<exists>comm. look name = Some (a, comm)"
    "length (processes_of look names b) \<le> length ps"
proof -
  have "(a, ps) \<in> set (group_processes look names [])"
    using py_max_in [of group_less g gs] assms by simp
  note mem = group_member [OF this]
  show "ps = processes_of look names a" "\<exists>name \<in> set names. \<exists>comm. look name = Some (a, comm)" by (fact mem)+
  show "length (processes_of look names b) \<le> length ps"
  proof (cases "processes_of look names b = []")
    case False
    then have "map_of (group_processes look names []) b = Some (processes_of look names b)"
      using group_of_processes [of look names "[]" b] by (simp add: group_of_def split: option.splits)
    then have "(b, processes_of look names b) \<in> set (g # gs)"
      unfolding assms(1) by (rule map_of_SomeD)
    from py_max_above [where m = "\<lambda>g. length (snd g)" and lt = group_less, OF _ _ this] assms(2)
    show ?thesis by (fastforce simp: group_less_def)
  qed simp
qed

lemma scan_SomeD:
  assumes "scan dec ids hidden uid fs = Some g"
  defines "look \<equiv> scan_process dec ids uid fs"
  obtains names a where "pf_listing fs = Some names" "g_app_id g = Some a"
    "\<exists>name \<in> set names. \<exists>comm. look name = Some (a, comm)" "g_pids g = map fst (processes_of look names a)"
    "\<And>b. length (processes_of look names b) \<le> length (processes_of look names a)"
    "g_name g = (case most_common (shown_names hidden (processes_of look names a)) of
       None \<Rightarrow> ''Steam App '' @ a | Some n \<Rightarrow> n)"
proof -
  obtain names h hs a ps where g: "pf_listing fs = Some names" "group_processes look names [] = h # hs"
    "py_max group_less h hs = (a, ps)" "g_app_id g = Some a" "g_pids g = map fst ps"
    "g_name g = (case most_common (shown_names hidden ps) of None \<Rightarrow> ''Steam App '' @ a | Some n \<Rightarrow> n)"
    using assms by (auto simp: scan_def split: option.splits list.splits prod.splits)
  note best = group_longest [OF g(2,3)]
  show thesis
    by (rule that [of names a]) (use g best in auto)
qed

lemma scan_process_wanted: "scan_process dec ids uid fs name = Some (a, comm) \<Longrightarrow> app_wanted ids a"
  by (auto simp: scan_process_def Let_def split: if_splits option.splits)

lemma env_member:
  assumes "map_of (steam_env raw) k = Some v"
  shows "\<exists>item \<in> set (split_on (char_of (0::nat)) raw). item_value item = Some (k, v)"
proof -
  have "set (fold (\<lambda>(k, v). alist_set k v) kvs acc) \<subseteq> set acc \<union> set kvs" for kvs acc :: "(string \<times> string) list"
  proof (induction kvs arbitrary: acc)
    case (Cons kv kvs)
    show ?case using Cons.IH [of "alist_set (fst kv) (snd kv) acc"] set_alist_set [of "fst kv" "snd kv" acc]
      by (auto simp: case_prod_beta)
  qed simp
  then have "(k, v) \<in> set (List.map_filter item_value (split_on (char_of (0::nat)) raw))"
    using map_of_SomeD [OF assms] by (force simp: steam_env_def)
  then show ?thesis by (simp add: in_map_filter)
qed

lemma first_some_in: "first_some f xs = Some y \<Longrightarrow> \<exists>x \<in> set xs. f x = Some y"
  by (induction xs) (auto simp: first_some_Cons split: option.splits, simp add: first_some_def List.map_filter_simps)

definition busiest :: "string \<Rightarrow> string list \<Rightarrow> string \<Rightarrow> bool" where
  "busiest a shown n = (if shown = [] then n = ''Steam App '' @ a
     else n \<in> set shown \<and> (\<forall>m. count_list shown m \<le> count_list shown n))"

lemma most_common_busiest: "busiest a shown (case most_common shown of None \<Rightarrow> ''Steam App '' @ a | Some n \<Rightarrow> n)"
proof (cases "most_common shown")
  case None
  then show ?thesis using most_common_none [of shown] by (simp add: busiest_def)
next
  case (Some n)
  then show ?thesis using most_common_none [of shown] most_common_max [OF Some] by (simp add: busiest_def)
qed

text \<open>A process of an app is one that the enforcement's scan for that app finds.\<close>

lemma reported_is_scanned:
  assumes "scan_process dec ids (ct_uid ct) fs name = Some (a, comm)" "py_int name = Some pid"
    and "\<And>raw item k v. pr_environ (pf_entry fs name) = Some raw \<Longrightarrow> item \<in> set (split_on (char_of (0::nat)) raw)
      \<Longrightarrow> item_value item = Some (k, v) \<Longrightarrow> utf8 (dec v) = v"
  shows "scan_entry ct fs a name = Some pid"
proof -
  obtain raw where raw: "str_isdigit name" "pr_uid (pf_entry fs name) = Some (ct_uid ct)"
    "pr_environ (pf_entry fs name) = Some raw" "steam_app dec raw = Some a"
    using assms(1) by (auto simp: scan_process_def Let_def split: if_splits option.splits)
  obtain k v where kv: "map_of (steam_env raw) k = Some v" "a = dec v"
    using first_some_in [OF raw(4) [unfolded steam_app_def]] by (auto split: option.splits if_splits)
  obtain item where item: "item \<in> set (split_on (char_of (0::nat)) raw)" "item_value item = Some (k, v)"
    using env_member [OF kv(1)] by blast
  have "environment_matches raw a"
    using item assms(3) [OF raw(3) item] kv(2)
    by (force simp: environment_matches_def list_ex_iff item_value_def split: prod.splits if_splits)
  then show ?thesis using raw assms(2) by (simp add: scan_entry_def)
qed

definition demo_procs :: proc_fs where
  "demo_procs =
     \<lparr>pf_listing = Some [''self'', ''71'', ''72'', ''73'', ''74''],
      pf_entry = (\<lambda>name. \<lparr>pr_uid = Some (if name = ''73'' then 0 else 1000),
        pr_comm = Some (if name = ''71'' then ''reaper'' else ''game''),
        pr_environ = Some (''HOME=/home/deck'' @ char_of (0::nat) # ''SteamAppId='' @ (if name = ''74'' then ''570'' else ''440'')),
        pr_stat = None\<rparr>)\<rparr>"

definition demo_scan :: "game_identity option" where
  "demo_scan = scan (\<lambda>bytes. bytes) [''769''] [''Reaper''] 1000 demo_procs"

lemma demo_scan_is: "demo_scan = Some \<lparr>g_app_id = Some ''440'', g_name = ''game'', g_source = ''procfs'', g_pids = [71, 72],
    g_confidence = 55 / 100, g_instance_id = None\<rparr>"
  by code_simp

text \<open>C31: The game the process scan reports is an app that is not ignored, with all of the user's
  processes that carry its id, and no other app has more of them. Its name is the most common name
  among those of its processes that are not ignored, or tells the app id when there is none.\<close>

theorem scan_reports_busiest:
  assumes "scan dec ids hidden uid fs = Some g"
  shows "\<exists>names a. pf_listing fs = Some names \<and> g_app_id g = Some a \<and> app_wanted ids a
    \<and> g_pids g = map fst (processes_of (scan_process dec ids uid fs) names a)
    \<and> (\<forall>b. length (processes_of (scan_process dec ids uid fs) names b)
          \<le> length (processes_of (scan_process dec ids uid fs) names a))
    \<and> busiest a (shown_names hidden (processes_of (scan_process dec ids uid fs) names a)) (g_name g)"
proof -
  obtain names a where n: "pf_listing fs = Some names" "g_app_id g = Some a"
    "\<exists>name \<in> set names. \<exists>comm. scan_process dec ids uid fs name = Some (a, comm)"
    "g_pids g = map fst (processes_of (scan_process dec ids uid fs) names a)"
    "\<And>b. length (processes_of (scan_process dec ids uid fs) names b) \<le> length (processes_of (scan_process dec ids uid fs) names a)"
    "g_name g = (case most_common (shown_names hidden (processes_of (scan_process dec ids uid fs) names a)) of
       None \<Rightarrow> ''Steam App '' @ a | Some n \<Rightarrow> n)"
    by (rule scan_SomeD [OF assms]) blast
  moreover have "app_wanted ids a" using n(3) scan_process_wanted by blast
  ultimately show ?thesis
    using most_common_busiest by (intro exI [of _ names] exI [of _ a] conjI allI) simp_all
qed

lemma scan_reports_busiest_demo:
  "\<exists>names a. pf_listing demo_procs = Some names \<and> Some ''440'' = Some a \<and> app_wanted [''769''] a
    \<and> [71, 72] = map fst (processes_of (scan_process (\<lambda>bytes. bytes) [''769''] 1000 demo_procs) names a)
    \<and> (\<forall>b. length (processes_of (scan_process (\<lambda>bytes. bytes) [''769''] 1000 demo_procs) names b)
          \<le> length (processes_of (scan_process (\<lambda>bytes. bytes) [''769''] 1000 demo_procs) names a))
    \<and> busiest a (shown_names [''Reaper''] (processes_of (scan_process (\<lambda>bytes. bytes) [''769''] 1000 demo_procs) names a)) ''game''"
  using scan_reports_busiest [OF demo_scan_is [unfolded demo_scan_def]] by simp

text \<open>The detector and the enforcement agree on the processes of a game: when the values of the
  Steam variables are UTF-8, every process the scan reports is one that the process controller's own
  scan for that app finds.\<close>

theorem reported_pids_are_found:
  assumes "scan dec ids hidden (ct_uid ct) fs = Some g" and "pid \<in> set (g_pids g)"
    and "\<And>name raw item k v. pr_environ (pf_entry fs name) = Some raw \<Longrightarrow> item \<in> set (split_on (char_of (0::nat)) raw)
      \<Longrightarrow> item_value item = Some (k, v) \<Longrightarrow> utf8 (dec v) = v"
  shows "\<exists>a. g_app_id g = Some a \<and> pid \<in> set (scan_app_pids ct fs a)"
proof -
  obtain names a where n: "pf_listing fs = Some names" "g_app_id g = Some a"
    "g_pids g = map fst (processes_of (scan_process dec ids (ct_uid ct) fs) names a)"
    by (rule scan_SomeD [OF assms(1)]) blast
  obtain name comm where p: "name \<in> set names" "scan_process dec ids (ct_uid ct) fs name = Some (a, comm)" "py_int name = Some pid"
    using assms(2) n(3) by (auto simp: processes_of_def in_map_filter process_of_Some)
  have "scan_entry ct fs a name = Some pid"
    using p(2,3) assms(3) by (rule reported_is_scanned)
  then show ?thesis using n(1,2) p(1) by (auto simp: scan_app_pids_def in_map_filter)
qed

lemma reported_pids_are_found_demo:
  "\<exists>a. Some ''440'' = Some a \<and> 71 \<in> set (scan_app_pids (default_controller 1000 5) demo_procs a)"
proof -
  have "utf8 v = v" if "pr_environ (pf_entry demo_procs name) = Some raw" "item \<in> set (split_on (char_of (0::nat)) raw)"
    "item_value item = Some (k, v)" for name raw item k v
  proof -
    have "raw = ''HOME=/home/deck'' @ char_of (0::nat) # ''SteamAppId=570'' \<or> raw = ''HOME=/home/deck'' @ char_of (0::nat) # ''SteamAppId=440''"
      using that(1) by (auto simp: demo_procs_def split: if_splits)
    moreover have "split_on (char_of (0::nat)) (''HOME=/home/deck'' @ char_of (0::nat) # ''SteamAppId=570'') = [''HOME=/home/deck'', ''SteamAppId=570'']"
      "split_on (char_of (0::nat)) (''HOME=/home/deck'' @ char_of (0::nat) # ''SteamAppId=440'') = [''HOME=/home/deck'', ''SteamAppId=440'']"
      "item_value ''HOME=/home/deck'' = None" "item_value ''SteamAppId=570'' = Some (''SteamAppId'', ''570'')"
      "item_value ''SteamAppId=440'' = Some (''SteamAppId'', ''440'')" "utf8 ''570'' = ''570''" "utf8 ''440'' = ''440''"
      by code_simp+
    ultimately show ?thesis using that(2,3) by auto
  qed
  note found = this
  have g: "scan (\<lambda>bytes. bytes) [''769''] [''Reaper''] (ct_uid (default_controller 1000 5)) demo_procs
      = Some \<lparr>g_app_id = Some ''440'', g_name = ''game'', g_source = ''procfs'', g_pids = [71, 72],
          g_confidence = 55 / 100, g_instance_id = None\<rparr>"
    using demo_scan_is by (simp add: demo_scan_def default_controller_def)
  show ?thesis
    using reported_pids_are_found [OF g, of 71] found by simp
qed

end
