(* ===== verification/Database.thy ===== *)
theory Database
  imports Models
begin

text \<open>
  Opening the database file in \<open>storage.py\<close>: its migrations as scripts that run in one transaction
  each, the copy that is made before, and the corrupt file that is moved aside. The lemmas: whatever
  script fails, the file is a file of some version, and opening it again takes it to the current one.
\<close>

section \<open>Migrations\<close>

datatype statement =
    CreateTable string "string list"
  | CreateIndex string string
  | MarkApplied int bool

text \<open>The schema of a database file: its version, its tables with their columns, its indexes with
  their tables, and the rows of \<open>schema_migrations\<close>. \<open>MarkApplied v replace\<close> inserts a row.\<close>

record schema =
  user_version :: int
  schema_tables :: "(string \<times> string list) list"
  schema_indexes :: "(string \<times> string) list"
  schema_applied :: "(int \<times> string) list"

definition no_schema :: schema where
  "no_schema = \<lparr>user_version = 0, schema_tables = [], schema_indexes = [], schema_applied = []\<rparr>"

definition CURRENT_DB_SCHEMA :: int where
  "CURRENT_DB_SCHEMA = 3"

definition migration_1 :: "statement list" where
  "migration_1 =
     [CreateTable ''sessions'' [''id'', ''day_key'', ''app_id'', ''app_name'', ''source'', ''confidence'', ''started_at'',
        ''ended_at'', ''duration_seconds'', ''reason'', ''last_checkpoint_at'', ''metadata_json''],
      CreateIndex ''idx_sessions_one_open'' ''sessions'', CreateIndex ''idx_sessions_day'' ''sessions'',
      CreateIndex ''idx_sessions_app'' ''sessions'',
      CreateTable ''events'' [''id'', ''occurred_at'', ''event_type'', ''session_id'', ''app_id'', ''payload_json''],
      CreateIndex ''idx_events_time'' ''events'',
      CreateTable ''daily_adjustments'' [''id'', ''day_key'', ''seconds'', ''reason'', ''granted_at''],
      CreateIndex ''idx_adjustments_day'' ''daily_adjustments'',
      CreateTable ''timer_state'' [''singleton'', ''generation'', ''state'', ''configured_seconds'', ''remaining_seconds'',
        ''action'', ''started_at'', ''updated_at''],
      CreateTable ''notification_marks'' [''scope'', ''scope_key'', ''threshold_seconds'', ''emitted_at''],
      CreateTable ''runtime_state'' [''key'', ''value_json'']]"

definition migration_2 :: "statement list" where
  "migration_2 = [CreateTable ''schema_migrations'' [''version'', ''applied_at''], MarkApplied 1 False]"

definition migration_3 :: "statement list" where
  "migration_3 =
     [CreateTable ''usage_buckets'' [''day_key'', ''bucket_index'', ''app_key'', ''app_id'', ''app_name'', ''seconds''],
      CreateIndex ''idx_usage_buckets_day'' ''usage_buckets'', CreateIndex ''idx_usage_buckets_app'' ''usage_buckets'']"

definition MIGRATIONS :: "(int \<times> statement list) list" where
  "MIGRATIONS = [(1, migration_1), (2, migration_2), (3, migration_3)]"

text \<open>\<open>now\<close> is the time the row is stamped with.\<close>

definition run_statement :: "string \<Rightarrow> statement \<Rightarrow> schema \<Rightarrow> schema" where
  "run_statement now st d =
     (case st of
        CreateTable name columns \<Rightarrow>
          (if map_of (schema_tables d) name = None then d\<lparr>schema_tables := schema_tables d @ [(name, columns)]\<rparr> else d)
      | CreateIndex name table \<Rightarrow>
          (if map_of (schema_indexes d) name = None then d\<lparr>schema_indexes := schema_indexes d @ [(name, table)]\<rparr> else d)
      | MarkApplied v replace \<Rightarrow>
          (if map_of (schema_applied d) v = None \<or> replace
           then d\<lparr>schema_applied := alist_set v now (schema_applied d)\<rparr> else d))"

text \<open>\<open>"BEGIN IMMEDIATE" + MIGRATIONS[version] + ..\<close>: the statements, the row of the version from the
  second on, and the version itself.\<close>

definition script :: "int \<Rightarrow> statement list" where
  "script version = the (map_of MIGRATIONS version) @ (if 2 \<le> version then [MarkApplied version True] else [])"

definition run_script :: "string \<Rightarrow> int \<Rightarrow> schema \<Rightarrow> schema" where
  "run_script now version d = (fold (run_statement now) (script version) d)\<lparr>user_version := version\<rparr>"

text \<open>How a step ends that does not succeed: with an error of SQLite (all of them, a locked database
  and a full disk included, are \<open>sqlite3.DatabaseError\<close>), or with the \<open>DatabaseError\<close> of \<open>storage.py\<close>,
  which is none of those.\<close>

datatype db_failure = SqliteError string | Refused string

definition newer_schema :: "int \<Rightarrow> db_failure" where
  "newer_schema current = Refused (''database schema '' @ int_str current @ '' is newer than supported ''
     @ int_str CURRENT_DB_SCHEMA)"

text \<open>The loop over the versions; a script that fails is rolled back and ends it. \<open>fails\<close> tells which
  scripts do.\<close>

fun migrate_versions :: "string \<Rightarrow> (int \<Rightarrow> string option) \<Rightarrow> int list \<Rightarrow> schema \<Rightarrow> (db_failure + unit) \<times> schema" where
  "migrate_versions now fails [] d = (Inr (), d)"
| "migrate_versions now fails (version # versions) d =
     (case fails version of
        Some m \<Rightarrow> (Inl (SqliteError m), d)
      | None \<Rightarrow> migrate_versions now fails versions (run_script now version d))"

definition migrate :: "string \<Rightarrow> (int \<Rightarrow> string option) \<Rightarrow> schema \<Rightarrow> (db_failure + unit) \<times> schema" where
  "migrate now fails d =
     (if CURRENT_DB_SCHEMA < user_version d then (Inl (newer_schema (user_version d)), d)
      else migrate_versions now fails [user_version d + 1 .. CURRENT_DB_SCHEMA] d)"

section \<open>The directory of the database\<close>

text \<open>A file is a database with its schema and rows, or is damaged, which the quick check finds; the
  rows stand for what its tables hold, which migrating keeps.\<close>

datatype 'r db_content = Database schema (db_rows: 'r) | Damaged (db_rows: 'r)

record 'r backup =
  b_name :: string
  b_mtime :: int
  b_content :: "'r db_content"

record 'r db_dir =
  dir_db :: "'r db_content option"
  dir_backups :: "'r backup list"
  dir_quarantined :: "(string \<times> 'r db_content) list"
  dir_note :: "string option"

text \<open>What happens around an opening: the clock, which scripts fail at the first and at the second
  attempt, and whether a copy can be written and a file moved.\<close>

record happening =
  h_now :: string
  h_stamp :: string
  h_mtime :: int
  h_fails :: "int \<Rightarrow> string option"
  h_fails_again :: "int \<Rightarrow> string option"
  h_copies :: bool
  h_moves :: bool

text \<open>\<open>_backup_before_migration\<close>: the copy, then the backups beyond the count, from the newest on,
  deleted.\<close>

definition backup_name :: "int \<Rightarrow> string \<Rightarrow> string" where
  "backup_name version stamp = ''guardian.pre-v'' @ int_str version @ ''-migration-'' @ stamp @ ''.db''"

definition newest_first :: "'r backup list \<Rightarrow> 'r backup list" where
  "newest_first bs = rev (sort_key b_mtime (rev bs))"

definition backup_before_migration :: "nat \<Rightarrow> happening \<Rightarrow> int \<Rightarrow> 'r db_content \<Rightarrow> 'r backup list \<Rightarrow> 'r backup list" where
  "backup_before_migration count h version content bs =
     (if count = 0 \<or> \<not> h_copies h then bs
      else take count (newest_first
        (bs @ [\<lparr>b_name = backup_name version (h_stamp h), b_mtime = h_mtime h, b_content = content\<rparr>])))"

definition needs_backup :: "int \<Rightarrow> bool" where
  "needs_backup current = (0 < current \<and> current < CURRENT_DB_SCHEMA)"

text \<open>The \<open>try\<close> of \<open>open\<close>: connecting, which makes an empty file where there is none, the quick check
  and \<open>_migrate\<close>.\<close>

definition open_attempt :: "nat \<Rightarrow> 'r \<Rightarrow> happening \<Rightarrow> 'r db_dir \<Rightarrow> (db_failure + unit) \<times> 'r db_dir" where
  "open_attempt count no_rows h d =
     (case (case dir_db d of None \<Rightarrow> Database no_schema no_rows | Some c \<Rightarrow> c) of
        Damaged r \<Rightarrow> (Inl (SqliteError ''quick_check''), d)
      | Database s r \<Rightarrow>
          (let backups = (if needs_backup (user_version s)
                 then backup_before_migration count h (user_version s) (Database s r) (dir_backups d) else dir_backups d)
           in (case migrate (h_now h) (h_fails h) s of
                 (res, s') \<Rightarrow> (res, d\<lparr>dir_db := Some (Database s' r), dir_backups := backups\<rparr>))))"

definition quarantine_name :: "string \<Rightarrow> string" where
  "quarantine_name stamp = ''guardian.corrupt-'' @ stamp @ ''.db''"

text \<open>\<open>Storage.open\<close>: an error of SQLite in the \<open>try\<close> moves the file aside and starts an empty one.\<close>

definition open_database :: "nat \<Rightarrow> 'r \<Rightarrow> happening \<Rightarrow> 'r db_dir \<Rightarrow> (db_failure + unit) \<times> 'r db_dir" where
  "open_database count no_rows h d =
     (case open_attempt count no_rows h d of
        (Inl (SqliteError m), d1) \<Rightarrow>
          if \<not> h_moves h then (Inl (Refused ''database corrupt and could not be quarantined''), d1)
          else (case migrate (h_now h) (h_fails_again h) no_schema of
                  (res, fresh) \<Rightarrow> (res, d1\<lparr>dir_db := Some (Database fresh no_rows),
                    dir_quarantined := (case dir_db d1 of None \<Rightarrow> dir_quarantined d1
                      | Some c \<Rightarrow> alist_set (quarantine_name (h_stamp h)) c (dir_quarantined d1)),
                    dir_note := Some (''corrupt database quarantined as '' @ quarantine_name (h_stamp h) @ '': '' @ m)\<rparr>))
      | (res, d1) \<Rightarrow> (res, d1))"

section \<open>Versions\<close>

text \<open>The schema of a version, up to the times its rows are stamped with.\<close>

definition unstamped :: "schema \<Rightarrow> schema" where
  "unstamped d = d\<lparr>schema_applied := map (\<lambda>(v, t). (v, [])) (schema_applied d)\<rparr>"

definition of_version :: "int \<Rightarrow> schema \<Rightarrow> bool" where
  "of_version v d = (0 \<le> v \<and> v \<le> CURRENT_DB_SCHEMA \<and> unstamped d = fold (run_script []) [1..v] no_schema)"

text \<open>Scripts do not look at the stamps.\<close>

lemma map_of_unstamped: "map_of (map (\<lambda>(v, t). (v, [])) xs) k = map_option (\<lambda>_. []) (map_of xs k)"
  by (induction xs) auto

lemma alist_set_unstamped: "map (\<lambda>(v, t). (v, [])) (alist_set k now xs) = alist_set k [] (map (\<lambda>(v, t). (v, [])) xs)"
  by (induction k now xs rule: alist_set.induct) auto

lemma statement_unstamped: "unstamped (run_statement now st d) = run_statement [] st (unstamped d)"
  by (cases st) (simp_all add: run_statement_def unstamped_def map_of_unstamped alist_set_unstamped)

lemma statements_unstamped: "unstamped (fold (run_statement now) sts d) = fold (run_statement []) sts (unstamped d)"
  by (induction sts arbitrary: d) (simp_all add: statement_unstamped)

lemma unstamped_version: "unstamped (d\<lparr>user_version := v\<rparr>) = (unstamped d)\<lparr>user_version := v\<rparr>"
  by (simp add: unstamped_def)

lemma script_unstamped: "unstamped (run_script now v d) = run_script [] v (unstamped d)"
  by (simp add: run_script_def unstamped_version statements_unstamped)

lemma upto_step: "0 \<le> v \<Longrightarrow> [1 .. v + 1] = [1 .. v] @ [v + 1]" for v :: int
  using upto_rec2 [of 1 "v + 1"] by simp

lemma next_version:
  assumes "of_version v d" "v < CURRENT_DB_SCHEMA"
  shows "of_version (v + 1) (run_script now (v + 1) d)"
  using assms by (auto simp: of_version_def script_unstamped upto_step)

lemma of_version_user: "of_version v d \<Longrightarrow> user_version d = v"
proof -
  assume v: "of_version v d"
  have "user_version (fold (run_script []) [1..v] no_schema) = v"
  proof (cases "v = 0")
    case False
    then have "[1..v] = [1..v - 1] @ [v]" using v upto_step [of "v - 1"] by (simp add: of_version_def)
    then show ?thesis by (simp add: run_script_def)
  qed (simp add: no_schema_def)
  moreover have "user_version (unstamped d) = user_version d" by (simp add: unstamped_def)
  ultimately show ?thesis using v by (simp add: of_version_def)
qed

lemma migrate_versions_versions:
  assumes "of_version v d" "migrate_versions now fails [v + 1 .. CURRENT_DB_SCHEMA] d = (r, d')"
  shows "\<exists>w. v \<le> w \<and> of_version w d' \<and> (r = Inr () \<longrightarrow> w = CURRENT_DB_SCHEMA)
    \<and> ((\<forall>k. fails k = None) \<longrightarrow> r = Inr ())"
  using assms
proof (induction "nat (CURRENT_DB_SCHEMA - v)" arbitrary: v d rule: less_induct)
  case less
  show ?case
  proof (cases "v < CURRENT_DB_SCHEMA")
    case True
    then have up: "[v + 1 .. CURRENT_DB_SCHEMA] = (v + 1) # [v + 1 + 1 .. CURRENT_DB_SCHEMA]"
      by (subst upto.simps) simp
    show ?thesis
    proof (cases "fails (v + 1)")
      case None
      have "migrate_versions now fails [v + 1 + 1 .. CURRENT_DB_SCHEMA] (run_script now (v + 1) d) = (r, d')"
        using less.prems(2) None by (simp add: up)
      from less.hyps [OF _ next_version [OF less.prems(1) True] this] True show ?thesis by fastforce
    next
      case (Some m)
      then have "d' = d" "r = Inl (SqliteError m)" using less.prems(2) by (simp_all add: up)
      then show ?thesis using less.prems(1) Some by fastforce
    qed
  next
    case False
    then have v: "v = CURRENT_DB_SCHEMA" using less.prems(1) by (simp add: of_version_def)
    with less.prems show ?thesis by auto
  qed
qed

lemma migrate_version:
  assumes "of_version v d" "migrate now fails d = (r, d')"
  shows "\<exists>w. v \<le> w \<and> of_version w d' \<and> (r = Inr () \<longrightarrow> w = CURRENT_DB_SCHEMA)
    \<and> ((\<forall>k. fails k = None) \<longrightarrow> r = Inr ())"
proof -
  have "v \<le> CURRENT_DB_SCHEMA" using assms(1) by (simp add: of_version_def)
  with assms migrate_versions_versions [OF assms(1)] of_version_user [OF assms(1)] show ?thesis
    by (simp add: migrate_def)
qed

lemma new_file_version: "of_version 0 no_schema"
  by (simp add: of_version_def no_schema_def CURRENT_DB_SCHEMA_def unstamped_def)

lemma current_tables:
  assumes "of_version CURRENT_DB_SCHEMA d"
  shows "map fst (schema_tables d) = [''sessions'', ''events'', ''daily_adjustments'', ''timer_state'', ''notification_marks'',
     ''runtime_state'', ''schema_migrations'', ''usage_buckets'']" "map fst (schema_applied d) = [1, 2, 3]"
proof -
  let ?e = "fold (run_script []) [1..3] no_schema"
  have e: "[1..3] = [1, 2, 3 :: int]" by (simp add: upto.simps)
  have u: "unstamped d = ?e" using assms by (simp add: of_version_def CURRENT_DB_SCHEMA_def)
  have "map fst (schema_tables ?e) = [''sessions'', ''events'', ''daily_adjustments'', ''timer_state'', ''notification_marks'',
     ''runtime_state'', ''schema_migrations'', ''usage_buckets'']" "map fst (schema_applied ?e) = [1, 2, 3]"
    unfolding e by code_simp+
  then show "map fst (schema_tables d) = [''sessions'', ''events'', ''daily_adjustments'', ''timer_state'', ''notification_marks'',
     ''runtime_state'', ''schema_migrations'', ''usage_buckets'']" "map fst (schema_applied d) = [1, 2, 3]"
    unfolding u [symmetric] by (simp_all add: unstamped_def comp_def case_prod_beta)
qed

section \<open>Opening\<close>

definition demo_happening :: happening where
  "demo_happening = \<lparr>h_now = ''2024-05-01'', h_stamp = ''20240501'', h_mtime = 7,
     h_fails = (\<lambda>v. if v = 2 then Some ''database is locked'' else None), h_fails_again = (\<lambda>_. None),
     h_copies = True, h_moves = True\<rparr>"

definition demo_dir :: "string db_dir" where
  "demo_dir = \<lparr>dir_db = Some (Database (run_script ''2024-01-01'' 1 no_schema) ''history''), dir_backups = [],
     dir_quarantined = [], dir_note = None\<rparr>"

lemma demo_version: "of_version 1 (run_script ''2024-01-01'' 1 no_schema)"
  using next_version [OF new_file_version] by (simp add: CURRENT_DB_SCHEMA_def)

text \<open>C32: A migration can be interrupted anywhere: whichever script fails, what is left is the whole
  schema of some version, no older than the one before, and migrating again without a failure takes
  it to the current version with all of its tables and every version marked as applied.\<close>

theorem interrupted_migration_resumes:
  assumes "of_version v d" and "migrate now fails d = (r, d')"
  shows "\<exists>w. v \<le> w \<and> of_version w d' \<and> (r = Inr () \<longrightarrow> w = CURRENT_DB_SCHEMA)
    \<and> (\<exists>d''. migrate later (\<lambda>_. None) d' = (Inr (), d'') \<and> of_version CURRENT_DB_SCHEMA d''
        \<and> map fst (schema_tables d'') = [''sessions'', ''events'', ''daily_adjustments'', ''timer_state'', ''notification_marks'',
            ''runtime_state'', ''schema_migrations'', ''usage_buckets'']
        \<and> map fst (schema_applied d'') = [1, 2, 3])"
proof -
  obtain w where w: "v \<le> w" "of_version w d'" "r = Inr () \<longrightarrow> w = CURRENT_DB_SCHEMA"
    using migrate_version [OF assms] by blast
  obtain r2 d'' where again: "migrate later (\<lambda>_. None) d' = (r2, d'')" by (cases "migrate later (\<lambda>_. None) d'")
  from migrate_version [OF w(2) this] have "r2 = Inr ()" "of_version CURRENT_DB_SCHEMA d''" by auto
  with w again current_tables show ?thesis by blast
qed

lemma interrupted_migration_resumes_demo:
  "\<exists>w. 1 \<le> w \<and> of_version w (snd (migrate ''now'' (h_fails demo_happening) (run_script ''2024-01-01'' 1 no_schema)))"
  using interrupted_migration_resumes [OF demo_version surjective_pairing, of "''now''" "h_fails demo_happening"] by blast

lemma alist_set_in: "(k, v) \<in> set (alist_set k v ps)"
  by (rule map_of_SomeD) simp

lemma attempt_keeps:
  assumes "dir_db d = Some c" "open_attempt count no_rows h d = (r, d1)"
  shows "(\<exists>s. dir_db d1 = Some (Database s (db_rows c))) \<or> dir_db d1 = Some c"
    "dir_quarantined d1 = dir_quarantined d"
    "\<exists>c1. dir_db d1 = Some c1 \<and> db_rows c1 = db_rows c"
  using assms by (auto simp: open_attempt_def Let_def split: db_content.splits prod.splits)

text \<open>C33: Opening the database never loses its rows: they are in the open file or in a file that was
  moved aside, whatever fails. A database of a newer version is refused and left as it is.\<close>

theorem opening_keeps_rows:
  assumes "dir_db d = Some c" and "open_database count no_rows h d = (r, d')"
  shows "((\<exists>s. dir_db d' = Some (Database s (db_rows c))) \<or> dir_db d' = Some c
      \<or> (\<exists>kept. (quarantine_name (h_stamp h), kept) \<in> set (dir_quarantined d') \<and> db_rows kept = db_rows c))
    \<and> (\<forall>s. c = Database s (db_rows c) \<and> CURRENT_DB_SCHEMA < user_version s
        \<longrightarrow> r = Inl (newer_schema (user_version s)) \<and> d' = d)"
proof
  obtain r1 d1 where one: "open_attempt count no_rows h d = (r1, d1)" by (cases "open_attempt count no_rows h d")
  note kept = attempt_keeps [OF assms(1) one]
  show "(\<exists>s. dir_db d' = Some (Database s (db_rows c))) \<or> dir_db d' = Some c
      \<or> (\<exists>kept. (quarantine_name (h_stamp h), kept) \<in> set (dir_quarantined d') \<and> db_rows kept = db_rows c)"
  proof (cases "\<exists>m. r1 = Inl (SqliteError m) \<and> h_moves h")
    case True
    obtain c1 where c1: "dir_db d1 = Some c1" "db_rows c1 = db_rows c" using kept(3) by blast
    then have "dir_quarantined d' = alist_set (quarantine_name (h_stamp h)) c1 (dir_quarantined d1)"
      using assms(2) one True by (auto simp: open_database_def split: prod.splits)
    then show ?thesis using c1(2) alist_set_in [of "quarantine_name (h_stamp h)" c1] by auto
  next
    case False
    then have "d' = d1"
      using assms(2) one by (auto simp: open_database_def split: sum.splits db_failure.splits if_splits prod.splits)
    then show ?thesis using kept(1) by blast
  qed
next
  show "\<forall>s. c = Database s (db_rows c) \<and> CURRENT_DB_SCHEMA < user_version s
      \<longrightarrow> r = Inl (newer_schema (user_version s)) \<and> d' = d"
  proof (intro allI impI, elim conjE)
    fix s assume c: "c = Database s (db_rows c)" and newer: "CURRENT_DB_SCHEMA < user_version s"
    obtain rows where rows: "c = Database s rows" using c by blast
    have "open_attempt count no_rows h d = (Inl (newer_schema (user_version s)), d)"
      using assms(1) newer rows by (cases d) (simp add: open_attempt_def needs_backup_def migrate_def)
    then show "r = Inl (newer_schema (user_version s)) \<and> d' = d"
      using assms(2) by (simp add: open_database_def newer_schema_def)
  qed
qed

lemma opening_keeps_rows_demo:
  "(\<exists>s. dir_db (snd (open_database 3 ''none'' demo_happening demo_dir)) = Some (Database s ''history''))
   \<or> dir_db (snd (open_database 3 ''none'' demo_happening demo_dir)) = dir_db demo_dir
   \<or> (\<exists>kept. (quarantine_name ''20240501'', kept) \<in> set (dir_quarantined (snd (open_database 3 ''none'' demo_happening demo_dir)))
        \<and> db_rows kept = ''history'')"
  using opening_keeps_rows [OF _ surjective_pairing, of demo_dir "Database (run_script ''2024-01-01'' 1 no_schema) ''history''" 3 "''none''"
      demo_happening]
  by (simp add: demo_dir_def demo_happening_def)

text \<open>C34: A sound database can be set aside: when a migration script fails with any error of SQLite,
  such as a lock held by another process, the opening succeeds on an empty database and the rows
  are in the file called corrupt.\<close>

theorem locked_migration_starts_empty:
  assumes "dir_db d = Some (Database s rows)" and "of_version v s" and "v < CURRENT_DB_SCHEMA"
    and "h_fails h (v + 1) = Some m" and "h_moves h" and "\<And>k. h_fails_again h k = None"
  shows "\<exists>d' fresh. open_database count no_rows h d = (Inr (), d') \<and> dir_db d' = Some (Database fresh no_rows)
    \<and> of_version CURRENT_DB_SCHEMA fresh
    \<and> (quarantine_name (h_stamp h), Database s rows) \<in> set (dir_quarantined d')"
proof -
  have "[v + 1 .. CURRENT_DB_SCHEMA] = (v + 1) # [v + 1 + 1 .. CURRENT_DB_SCHEMA]"
    using assms(3) by (subst upto.simps) simp
  then have "migrate (h_now h) (h_fails h) s = (Inl (SqliteError m), s)"
    using assms(3,4) of_version_user [OF assms(2)] by (simp add: migrate_def)
  then obtain d1 where one: "open_attempt count no_rows h d = (Inl (SqliteError m), d1)" "dir_db d1 = Some (Database s rows)"
    using assms(1) by (simp add: open_attempt_def Let_def)
  obtain r fresh where again: "migrate (h_now h) (h_fails_again h) no_schema = (r, fresh)"
    by (cases "migrate (h_now h) (h_fails_again h) no_schema")
  from migrate_version [OF new_file_version again] assms(6) have "r = Inr ()" "of_version CURRENT_DB_SCHEMA fresh" by auto
  with one again assms(5) alist_set_in [of "quarantine_name (h_stamp h)" "Database s rows" "dir_quarantined d1"] show ?thesis
    by (simp add: open_database_def)
qed

lemma locked_migration_starts_empty_demo:
  "\<exists>d' fresh. open_database 3 ''none'' demo_happening demo_dir = (Inr (), d') \<and> dir_db d' = Some (Database fresh ''none'')
    \<and> of_version CURRENT_DB_SCHEMA fresh
    \<and> (quarantine_name ''20240501'', Database (run_script ''2024-01-01'' 1 no_schema) ''history'') \<in> set (dir_quarantined d')"
  using locked_migration_starts_empty [of demo_dir _ "''history''" 1 demo_happening "''database is locked''" 3 "''none''", OF _ demo_version]
  by (simp add: demo_dir_def demo_happening_def CURRENT_DB_SCHEMA_def)

end
