(* ===== verification/ConfigFile.thy ===== *)
theory ConfigFile
  imports Settings Export
begin

text \<open>
  \<open>ConfigStore\<close> of \<open>config.py\<close> on the files of a directory: the steps with which a configuration is
  written, and with which \<open>load\<close> leaves a file that validation accepts. A crash stops the steps
  anywhere, in the middle of a write too. The lemmas: what can be in the files after a crash.
\<close>

section \<open>Files and steps\<close>

type_synonym files = "string \<rightharpoonup> string"

datatype file_step = Write string string | Replace string string

fun apply_step :: "file_step \<Rightarrow> files \<Rightarrow> files" where
  "apply_step (Write path text) fs = fs(path \<mapsto> text)"
| "apply_step (Replace source target) fs = fs(target := fs source, source := None)"

definition run_steps :: "file_step list \<Rightarrow> files \<Rightarrow> files" where
  "run_steps steps fs = fold apply_step steps fs"

text \<open>The states a crash can leave: of an unfinished write any beginning.\<close>

definition partial_step :: "file_step \<Rightarrow> files \<Rightarrow> files list" where
  "partial_step st fs =
     (case st of Write path text \<Rightarrow> map (\<lambda>n. fs(path \<mapsto> take n text)) [0..<length text] | Replace _ _ \<Rightarrow> [])"

fun crashes :: "file_step list \<Rightarrow> files \<Rightarrow> files list" where
  "crashes [] fs = [fs]"
| "crashes (st # steps) fs = fs # partial_step st fs @ crashes steps (apply_step st fs)"

section \<open>Writing the configuration\<close>

record config_paths =
  cp_file :: string
  cp_temporary :: string
  cp_quarantine :: string

definition payload :: "(real \<Rightarrow> string) \<Rightarrow> pyval \<Rightarrow> string" where
  "payload fr settings = json_text json_char fr 0 settings @ [CHR 0x0A]"

text \<open>\<open>save\<close> of a validated configuration: the temporary file, then \<open>os.replace\<close>.\<close>

definition save_steps :: "(real \<Rightarrow> string) \<Rightarrow> config_paths \<Rightarrow> pyval \<Rightarrow> file_step list" where
  "save_steps fr paths settings =
     [Write (cp_temporary paths) (payload fr settings), Replace (cp_temporary paths) (cp_file paths)]"

definition read_config :: "(string \<Rightarrow> config_file) \<Rightarrow> config_paths \<Rightarrow> files \<Rightarrow> config_file" where
  "read_config decode paths fs = (case fs (cp_file paths) of None \<Rightarrow> Missing | Some text \<Rightarrow> decode text)"

text \<open>\<open>config != raw\<close>: dictionaries compare without order, and numbers and truth values by value.\<close>

fun number_of :: "pyval \<Rightarrow> real option" where
  "number_of (PBool b) = Some (if b then 1 else 0)"
| "number_of (PInt i) = Some (real_of_int i)"
| "number_of (PFloat x) = Some x"
| "number_of _ = None"

lemma size_of_value: "(k, v) \<in> set kvs \<Longrightarrow> size v \<le> size_list (size_prod (\<lambda>x. 0) size) kvs"
  by (erule size_list_estimation') simp

function (sequential) py_equal :: "pyval \<Rightarrow> pyval \<Rightarrow> bool" where
  "py_equal (PDict a) w = (case w of PDict b \<Rightarrow> length a = length b
     \<and> list_all (\<lambda>kv. case map_of b (fst kv) of None \<Rightarrow> False | Some y \<Rightarrow> py_equal (snd kv) y) a | _ \<Rightarrow> False)"
| "py_equal (PList a) w = (case w of PList b \<Rightarrow> length a = length b \<and> list_all (\<lambda>p. py_equal (fst p) (snd p)) (zip a b) | _ \<Rightarrow> False)"
| "py_equal v w = (if number_of v = None then v = w else number_of v = number_of w)"
  by pat_completeness auto
termination
  by (relation "measure (\<lambda>p. size (fst p))")
    (auto simp: less_Suc_eq_le dest!: set_zip_leftD intro: size_of_value size_list_estimation' [OF _ order.refl])

text \<open>\<open>load\<close>: the files it writes, besides the configuration it returns.\<close>

definition load_steps :: "(pyval \<Rightarrow> zone_answer) \<Rightarrow> zone \<Rightarrow> (real \<Rightarrow> string) \<Rightarrow> (string \<Rightarrow> config_file) \<Rightarrow> config_paths \<Rightarrow> files \<Rightarrow> file_step list" where
  "load_steps zoneinfo system fr decode paths fs =
     (let file = read_config decode paths fs
      in case load_config zoneinfo system fr file of
           Inl e \<Rightarrow> []
         | Inr (settings, note) \<Rightarrow>
             (if note \<noteq> None then Replace (cp_file paths) (cp_quarantine paths) # save_steps fr paths settings
              else (case file of
                      Holds raw \<Rightarrow> if py_equal settings raw then [] else save_steps fr paths settings
                    | _ \<Rightarrow> save_steps fr paths settings)))"

section \<open>A crash\<close>

lemma crashes_finish: "run_steps steps fs \<in> set (crashes steps fs)"
  by (induction steps arbitrary: fs) (simp_all add: run_steps_def)

lemma crashes_save:
  assumes "fs' \<in> set (crashes (save_steps fr paths settings) fs)" "cp_temporary paths \<noteq> cp_file paths"
  shows "fs' (cp_file paths) = fs (cp_file paths) \<or> fs' (cp_file paths) = Some (payload fr settings)"
    "p \<notin> {cp_file paths, cp_temporary paths} \<Longrightarrow> fs' p = fs p"
  using assms by (auto simp: save_steps_def partial_step_def split: if_splits)

text \<open>C35: Writing the configuration is atomic: a crash at any point of it, in the middle of the write
  too, leaves the configuration file as it was or with the new configuration, and every other file
  but the temporary one untouched. The next load therefore returns the old configuration or the
  new one, when these load as themselves.\<close>

theorem saving_is_atomic:
  assumes "fs' \<in> set (crashes (save_steps fr paths new) fs)" and "cp_temporary paths \<noteq> cp_file paths"
    and "load_config zoneinfo system fr (read_config decode paths fs) = Inr (old, None)"
    and "load_config zoneinfo system fr (decode (payload fr new)) = Inr (new, None)"
  shows "fs' (cp_file paths) \<in> {fs (cp_file paths), Some (payload fr new)}
    \<and> (\<forall>p. p \<notin> {cp_file paths, cp_temporary paths} \<longrightarrow> fs' p = fs p)
    \<and> load_config zoneinfo system fr (read_config decode paths fs') \<in> {Inr (old, None), Inr (new, None)}"
  using crashes_save [OF assms(1,2)] assms(3,4) by (auto simp: read_config_def)

definition demo_paths :: config_paths where
  "demo_paths = \<lparr>cp_file = ''config.json'', cp_temporary = ''config.tmp'', cp_quarantine = ''config.corrupt.json''\<rparr>"

lemma saving_is_atomic_demo:
  "(Map.empty (cp_temporary demo_paths \<mapsto> [])) (cp_file demo_paths) \<in> {None, Some (payload blank DEFAULT_CONFIG)}
   \<and> load_config no_zones utc_zone blank (read_config (\<lambda>_. Holds DEFAULT_CONFIG) demo_paths (Map.empty (cp_temporary demo_paths \<mapsto> [])))
       \<in> {Inr (DEFAULT_CONFIG, None), Inr (DEFAULT_CONFIG, None)}"
proof -
  have "payload blank DEFAULT_CONFIG \<noteq> []" by (simp add: payload_def)
  then have crash: "Map.empty (cp_temporary demo_paths \<mapsto> []) \<in> set (crashes (save_steps blank demo_paths DEFAULT_CONFIG) Map.empty)"
    by (force simp: save_steps_def partial_step_def image_iff)
  have paths: "cp_temporary demo_paths \<noteq> cp_file demo_paths" by (simp add: demo_paths_def)
  have old: "load_config no_zones utc_zone blank (read_config (\<lambda>_. Holds DEFAULT_CONFIG) demo_paths Map.empty) = Inr (DEFAULT_CONFIG, None)"
    by (simp add: read_config_def load_config_def default_items_valid)
  obtain items where items: "DEFAULT_CONFIG = PDict items" by (simp add: DEFAULT_CONFIG_def)
  have "validate_config no_zones utc_zone blank items = Inr DEFAULT_CONFIG"
    using default_items_valid unfolding items dict_items_def by simp
  then have "load_config no_zones utc_zone blank (Holds (PDict items)) = Inr (DEFAULT_CONFIG, None)"
    by (simp add: load_config_def)
  then have new: "load_config no_zones utc_zone blank ((\<lambda>_. Holds DEFAULT_CONFIG) (payload blank DEFAULT_CONFIG)) = Inr (DEFAULT_CONFIG, None)"
    unfolding items by simp
  from saving_is_atomic [OF crash paths old new] show ?thesis by simp
qed

end
