(* ===== verification/LogSources.thy ===== *)
theory LogSources
  imports Follow "HOL-Library.Word"
begin

unbundle bit_operations_syntax

text \<open>
  What \<open>detectors/steam_log.py\<close> takes from the system besides the log's lines: the inotify events
  that wake the follower, as the bytes the kernel writes, the place of the log, and the names in the
  manifests of the installed games. The lemmas: the buffer is read event by event, and a manifest
  in Steam's format gives the name of its game.
\<close>

section \<open>Events of inotify\<close>

definition IN_MODIFY :: "32 word" where "IN_MODIFY = 0x00000002"
definition IN_CLOSE_WRITE :: "32 word" where "IN_CLOSE_WRITE = 0x00000008"
definition IN_MOVED_TO :: "32 word" where "IN_MOVED_TO = 0x00000080"
definition IN_CREATE :: "32 word" where "IN_CREATE = 0x00000100"
definition IN_DELETE_SELF :: "32 word" where "IN_DELETE_SELF = 0x00000400"
definition IN_MOVE_SELF :: "32 word" where "IN_MOVE_SELF = 0x00000800"

definition watched :: "32 word" where
  "watched = IN_MODIFY OR IN_CLOSE_WRITE OR IN_MOVED_TO OR IN_CREATE OR IN_DELETE_SELF OR IN_MOVE_SELF"

text \<open>A field of \<open>struct.Struct("iIII")\<close> on a little-endian machine.\<close>

definition field_at :: "nat \<Rightarrow> string \<Rightarrow> 32 word" where
  "field_at k data = word_of_nat (code (data ! k) + 256 * code (data ! (k + 1)) + 65536 * code (data ! (k + 2))
     + 16777216 * code (data ! (k + 3)))"

definition EVENT_HEADER_size :: nat where
  "EVENT_HEADER_size = 16"

text \<open>The loop of \<open>_on_inotify\<close> from an offset on: whether it sets the wake-up.\<close>

function wakes :: "string \<Rightarrow> nat \<Rightarrow> bool" where
  "wakes data offset =
     (if offset + EVENT_HEADER_size \<le> length data
      then (let mask = field_at (offset + 4) data; len = unat (field_at (offset + 12) data)
            in mask AND watched \<noteq> 0 \<or> wakes data (offset + EVENT_HEADER_size + len))
      else False)"
  by pat_completeness auto
termination
  by (relation "measure (\<lambda>(data, offset). length data - offset)") (auto simp: EVENT_HEADER_size_def)

declare wakes.simps [simp del]

text \<open>What reading the descriptor gives: nothing yet, another error, or a buffer of events.\<close>

datatype inotify_read = Would_block | Read_failed | Read_bytes string

fun on_inotify :: "inotify_read \<Rightarrow> bool" where
  "on_inotify Would_block = False"
| "on_inotify Read_failed = True"
| "on_inotify (Read_bytes data) = wakes data 0"

record inotify_event =
  ie_wd :: "32 word"
  ie_mask :: "32 word"
  ie_cookie :: "32 word"
  ie_name :: string

text \<open>How the kernel writes an event.\<close>

definition word_bytes :: "32 word \<Rightarrow> string" where
  "word_bytes w = (let n = unat w in
     [char_of (n mod 256), char_of (n div 256 mod 256), char_of (n div 65536 mod 256), char_of (n div 16777216 mod 256)])"

definition event_bytes :: "inotify_event \<Rightarrow> string" where
  "event_bytes e = word_bytes (ie_wd e) @ word_bytes (ie_mask e) @ word_bytes (ie_cookie e)
     @ word_bytes (word_of_nat (length (ie_name e))) @ ie_name e"

lemma length_word_bytes [simp]: "length (word_bytes w) = 4"
  by (simp add: word_bytes_def Let_def)

lemma length_event_bytes: "length (event_bytes e) = 16 + length (ie_name e)"
  by (simp add: event_bytes_def)

lemma nested_256: "n = r + 256 * a \<Longrightarrow> a = r' + 256 * b \<Longrightarrow> b = r'' + 256 * c
    \<Longrightarrow> r + 256 * r' + 65536 * r'' + 16777216 * c = n" for n :: nat
  by simp

lemma digits_256:
  fixes n :: nat
  assumes "n < 2 ^ 32"
  shows "n mod 256 + 256 * (n div 256 mod 256) + 65536 * (n div 65536 mod 256) + 16777216 * (n div 16777216 mod 256) = n"
proof -
  have "n div 65536 = n div 256 div 256" "n div 16777216 = n div 256 div 256 div 256"
    by (simp_all flip: div_mult2_eq)
  moreover have "n div 256 div 256 div 256 < 256" using assms by (simp add: less_mult_imp_div_less)
  ultimately show ?thesis
    using nested_256 [OF mod_mult_div_eq [symmetric] mod_mult_div_eq [symmetric] mod_mult_div_eq [symmetric], of n] by simp
qed

lemma field_of_bytes:
  assumes "length pre = k"
  shows "field_at k (pre @ word_bytes w @ post) = w"
proof -
  have "unat w < 2 ^ LENGTH(32)" by (rule unsigned_less)
  then have "unat w < 2 ^ 32" by simp
  note n = digits_256 [OF this]
  have at: "(pre @ word_bytes w @ post) ! (k + i) = word_bytes w ! i" if "i < 4" for i
    using assms that by (simp add: nth_append)
  have "field_at k (pre @ word_bytes w @ post) = word_of_nat (unat w mod 256 + 256 * (unat w div 256 mod 256)
      + 65536 * (unat w div 65536 mod 256) + 16777216 * (unat w div 16777216 mod 256))"
    unfolding field_at_def using at [of 0] at [of 1] at [of 2] at [of 3]
    by (simp add: word_bytes_def Let_def)
  then show ?thesis by (simp add: n)
qed

lemma event_fields:
  "field_at (length pre + 4) (pre @ event_bytes e @ rest) = ie_mask e"
  "field_at (length pre + 12) (pre @ event_bytes e @ rest) = word_of_nat (length (ie_name e))"
  using field_of_bytes [of "pre @ word_bytes (ie_wd e)" "length pre + 4" "ie_mask e"]
    field_of_bytes [of "pre @ word_bytes (ie_wd e) @ word_bytes (ie_mask e) @ word_bytes (ie_cookie e)" "length pre + 12"]
  by (simp_all add: event_bytes_def)

lemma wakes_events:
  assumes "list_all (\<lambda>e. length (ie_name e) < 2 ^ 32) es"
  shows "wakes (pre @ concat (map event_bytes es)) (length pre) = list_ex (\<lambda>e. ie_mask e AND watched \<noteq> 0) es"
  using assms
proof (induction es arbitrary: pre)
  case Nil
  then show ?case by (simp add: wakes.simps EVENT_HEADER_size_def)
next
  case (Cons e es)
  let ?data = "pre @ event_bytes e @ concat (map event_bytes es)"
  have len: "unat (word_of_nat (length (ie_name e)) :: 32 word) = length (ie_name e)"
    using Cons.prems by (simp add: unat_of_nat)
  have "wakes ?data (length pre) = (ie_mask e AND watched \<noteq> 0 \<or> wakes ?data (length pre + 16 + length (ie_name e)))"
    by (subst wakes.simps) (simp add: event_fields len EVENT_HEADER_size_def length_event_bytes Let_def)
  moreover have "wakes ?data (length pre + 16 + length (ie_name e)) = list_ex (\<lambda>e. ie_mask e AND watched \<noteq> 0) es"
    using Cons.IH [of "pre @ event_bytes e"] Cons.prems by (simp add: length_event_bytes add.assoc)
  ultimately show ?case by simp
qed

text \<open>The follower is woken exactly by the events it watches for: of whatever events the kernel
  puts into one buffer, one after the other and each with a name of its own length, some is a
  change, a creation or a move of a file if and only if the handler sets the wake-up.\<close>

theorem watched_events_wake:
  assumes "list_all (\<lambda>e. length (ie_name e) < 2 ^ 32) es"
  shows "on_inotify (Read_bytes (concat (map event_bytes es))) = list_ex (\<lambda>e. ie_mask e AND watched \<noteq> 0) es"
  using wakes_events [OF assms, of "[]"] by simp

lemma watched_events_wake_demo:
  "on_inotify (Read_bytes (concat (map event_bytes [\<lparr>ie_wd = 1, ie_mask = 0x20, ie_cookie = 0, ie_name = ''a''\<rparr>,
     \<lparr>ie_wd = 1, ie_mask = 0x102, ie_cookie = 0, ie_name = []\<rparr>])))"
  using watched_events_wake [of "[\<lparr>ie_wd = 1, ie_mask = 0x20, ie_cookie = 0, ie_name = ''a''\<rparr>,
     \<lparr>ie_wd = 1, ie_mask = 0x102, ie_cookie = 0, ie_name = []\<rparr>]"]
  by (simp add: watched_def IN_MODIFY_def IN_CLOSE_WRITE_def IN_MOVED_TO_def IN_CREATE_def IN_DELETE_SELF_def IN_MOVE_SELF_def)

section \<open>The place of the log\<close>

definition log_candidates :: "string \<Rightarrow> string list" where
  "log_candidates home = map (append home)
     [''/.local/share/Steam/logs/gameprocess_log.txt'', ''/.steam/steam/logs/gameprocess_log.txt'',
      ''/.var/app/com.valvesoftware.Steam/.local/share/Steam/logs/gameprocess_log.txt'']"

text \<open>\<open>expanduser\<close> and \<open>exists\<close> are arguments.\<close>

definition discover_steam_log :: "(string \<Rightarrow> string) \<Rightarrow> (string \<Rightarrow> bool) \<Rightarrow> string \<Rightarrow> string \<Rightarrow> string" where
  "discover_steam_log expanduser exists home explicit =
     (if explicit \<noteq> ''auto'' then expanduser explicit
      else (case find exists (log_candidates home) of Some p \<Rightarrow> p | None \<Rightarrow> hd (log_candidates home)))"

section \<open>Names of the installed games\<close>

abbreviation quote_mark :: string where
  "quote_mark \<equiv> [CHR 0x22]"

definition app_re :: "item list" where
  "app_re = [Run Spaces 0 None True None, Text (quote_mark @ ''appid'' @ quote_mark), some_spaces, Text quote_mark,
     digits_as ''value'', Text quote_mark]"

definition title_re :: "item list" where
  "title_re = [Run Spaces 0 None True None, Text (quote_mark @ ''name'' @ quote_mark), some_spaces, Text quote_mark,
     Run NotNewline 0 None True (Some ''value''), Text quote_mark]"

text \<open>The lines of one manifest: the first id and the first name, until both are known.\<close>

fun read_manifest :: "string option \<Rightarrow> string option \<Rightarrow> string list \<Rightarrow> (string \<times> string) option" where
  "read_manifest app_id name [] = None"
| "read_manifest app_id name (line # rest) =
     (let by_app = (if app_id = None then match_items app_re None line else None);
          by_name = (if by_app = None \<and> name = None then match_items title_re None line else None);
          app_id' = (case by_app of Some caps \<Rightarrow> Some (capture ''value'' caps) | None \<Rightarrow> app_id);
          name' = (case by_name of Some caps \<Rightarrow> Some (capture ''value'' caps) | None \<Rightarrow> name)
      in if truthy app_id' \<and> truthy name' then Some (the app_id', the name') else read_manifest app_id' name' rest)"

text \<open>\<open>load_app_names\<close> over the manifests of all roots, in the order they are found; \<open>None\<close> is a
  manifest that cannot be read.\<close>

definition load_app_names :: "string list option list \<Rightarrow> (string \<times> string) list" where
  "load_app_names manifests =
     fold (\<lambda>m names. case m of None \<Rightarrow> names
       | Some ls \<Rightarrow> (case read_manifest None None ls of None \<Rightarrow> names | Some (a, n) \<Rightarrow> alist_set a n names)) manifests []"

section \<open>Manifests in Steam's format\<close>

text \<open>A greedy run gives back the last character when the pattern ends with it.\<close>

lemma match_run_back:
  assumes "list_all (in_class cls) a" "in_class cls c"
  shows "match_items [Run cls 0 None True (Some x), Text [c]] prev (a @ [c]) = Some [(x, a)]"
proof -
  have all: "takeWhile (in_class cls) (a @ [c]) = a @ [c]" using assms by (simp add: list_all_iff takeWhile_append2)
  have lengths: "run_lengths 0 None True (length (a @ [c])) = Suc (length a) # length a # rev [0..<length a]"
    by (simp add: run_lengths_def)
  show ?thesis
    by (simp add: all lengths first_some_Cons same_text_def del: length_append)
qed

definition blanks :: "string \<Rightarrow> bool" where
  "blanks s = list_all (in_class Spaces) s"

lemma quote_not_space: "\<not> in_class Spaces CHR 0x22" "\<not> ch_isdecimal CHR 0x22"
  by (simp_all add: ch_isspace_def ch_isdecimal_def)

lemma not_quote_tail: "hd (quote_mark @ t) = CHR 0x22"
  by simp

lemma indent_step:
  assumes "blanks indent" "\<not> in_class Spaces (hd b)" "\<And>p. match_items is p b = Some caps"
  shows "match_items (Run Spaces 0 None True None # is) prev (indent @ b) = Some caps"
proof -
  have "takeWhile (in_class Spaces) (indent @ b) = indent"
    using assms(1,2) unfolding blanks_def by (intro takeWhile_class) simp_all
  moreover have "run_lengths 0 None True (length indent) = length indent # rev [0..<length indent]"
    by (simp add: run_lengths_def)
  moreover have "take (length indent) (indent @ b) = indent" "drop (length indent) (indent @ b) = b" by simp_all
  ultimately show ?thesis
    using assms(3) by (simp add: first_some_Cons del: take_append drop_append split: option.splits)
qed

lemma gap_step:
  assumes "blanks gap" "gap \<noteq> []" "\<not> in_class Spaces (hd b)" "\<And>p. match_items is p b = Some caps"
  shows "match_items (some_spaces # is) prev (gap @ b) = Some caps"
  using match_run [of gap Spaces b "is" caps None prev] assms by (simp add: blanks_def del: match_items.simps in_class.simps)

lemma same_text_lower: "same_text t s = (map ch_lower t = take (length t) (map ch_lower s))"
  by (simp add: same_text_def list_all2_conv_all_nth list_eq_iff_nth_eq) (auto simp: min_def)

lemma folded_step:
  assumes "map ch_lower t' = map ch_lower t" "\<And>p. match_items is p s = Some caps"
  shows "match_items (Text t # is) prev (t' @ s) = Some caps"
proof -
  have "length t' = length t" using assms(1) by (rule map_eq_imp_length_eq)
  then show ?thesis using assms by (simp add: same_text_lower)
qed

text \<open>The lines of a manifest: a field with its text, the heading of a block, and its braces. A key is
  read without regard to its case.\<close>

datatype acf = Field string string string string | Heading string string | Brace string char

definition in_quotes :: "string \<Rightarrow> string" where
  "in_quotes s = quote_mark @ s @ quote_mark"

fun acf_line :: "acf \<Rightarrow> string" where
  "acf_line (Field indent key gap text) = indent @ in_quotes key @ gap @ in_quotes text"
| "acf_line (Heading indent key) = indent @ in_quotes key"
| "acf_line (Brace indent c) = indent @ [c]"

definition plain_key :: "string \<Rightarrow> bool" where
  "plain_key key = (CHR 0x22 \<notin> set key)"

fun acf_ok :: "acf \<Rightarrow> bool" where
  "acf_ok (Field indent key gap text) = (blanks indent \<and> plain_key key \<and> blanks gap \<and> gap \<noteq> []
     \<and> list_all (in_class NotNewline) text \<and> (map ch_lower key = ''appid'' \<longrightarrow> digits text))"
| "acf_ok (Heading indent key) = (blanks indent \<and> plain_key key \<and> map ch_lower key \<notin> {''appid'', ''name''})"
| "acf_ok (Brace indent c) = (blanks indent \<and> c \<in> {CHR ''{'', CHR ''}''})"

fun acf_fields :: "acf list \<Rightarrow> (string \<times> string) list" where
  "acf_fields [] = []"
| "acf_fields (Field indent key gap text # ls) = (map ch_lower key, text) # acf_fields ls"
| "acf_fields (_ # ls) = acf_fields ls"

lemma acf_prefix:
  assumes "blanks indent" "blanks gap" "gap \<noteq> []" "map ch_lower key' = map ch_lower key"
    and "\<And>p. match_items is p text = Some caps"
  shows "match_items (Run Spaces 0 None True None # Text (quote_mark @ key @ quote_mark) # some_spaces # Text quote_mark # is) prev
      (indent @ in_quotes key' @ gap @ quote_mark @ text) = Some caps"
proof -
  have "map ch_lower (in_quotes key') = map ch_lower (quote_mark @ key @ quote_mark)" using assms(4) by (simp add: in_quotes_def)
  then show ?thesis
    by (intro indent_step gap_step folded_step [OF _ gap_step] folded_step [OF refl] text_step assms)
      (simp_all only: not_quote_tail append_assoc quote_not_space in_quotes_def not_False_eq_True)
qed

lemma reads_app_line:
  assumes "blanks indent" "blanks gap" "gap \<noteq> []" "map ch_lower key = ''appid''" "digits a"
  shows "match_items app_re None (acf_line (Field indent key gap a)) = Some [(''value'', a)]"
proof -
  have "match_items [digits_as ''value'', Text quote_mark] p (a @ quote_mark) = Some [(''value'', a)]" for p
    using assms(5) quote_not_space(2) last_step [of quote_mark _ "[]"] by (intro digits_step) (simp_all del: match_items.simps)
  moreover have "map ch_lower key = map ch_lower ''appid''" using assms(4) by (simp add: ch_lower_def)
  ultimately show ?thesis
    using acf_prefix [OF assms(1-3), of key "''appid''"] unfolding app_re_def acf_line.simps in_quotes_def [of a] by blast
qed

lemma reads_title_line:
  assumes "blanks indent" "blanks gap" "gap \<noteq> []" "map ch_lower key = ''name''" "list_all (in_class NotNewline) t"
  shows "match_items title_re None (acf_line (Field indent key gap t)) = Some [(''value'', t)]"
proof -
  have "match_items [Run NotNewline 0 None True (Some ''value''), Text quote_mark] p (t @ quote_mark) = Some [(''value'', t)]" for p
    using assms(5) by (intro match_run_back) simp_all
  moreover have "map ch_lower key = map ch_lower ''name''" using assms(4) by (simp add: ch_lower_def)
  ultimately show ?thesis
    using acf_prefix [OF assms(1-3), of key "''name''"] unfolding title_re_def acf_line.simps in_quotes_def [of t] by blast
qed

text \<open>A line whose key is another one, or that has none, is not matched.\<close>

lemma match_any_run_None:
  assumes "\<And>n. n \<le> length (takeWhile (in_class cls) s) \<Longrightarrow> match_items is (last_char prev (take n s)) (drop n s) = None"
  shows "match_items (Run cls 0 None True name # is) prev s = None"
  by (simp, rule first_some_None) (auto simp: run_lengths_def assms)

lemma lower_quote: "ch_lower c = CHR 0x22 \<longleftrightarrow> c = CHR 0x22"
proof
  assume low: "ch_lower c = CHR 0x22"
  show "c = CHR 0x22"
  proof (rule ccontr)
    assume "c \<noteq> CHR 0x22"
    with low have n: "65 \<le> code c \<and> code c \<le> 90 \<or> 192 \<le> code c \<and> code c \<le> 222" and "char_of (code c + 32) = CHR 0x22"
      by (auto simp: ch_lower_def Let_def split: if_splits)
    then have "code (char_of (code c + 32)) = 34" by simp
    with n show False by (elim disjE) (simp_all add: mod_less)
  qed
qed (simp add: ch_lower_def)

lemma plain_lower: "plain_key key \<Longrightarrow> CHR 0x22 \<notin> set (map ch_lower key)"
  by (clarsimp simp: plain_key_def) (metis lower_quote)

lemma same_key:
  assumes "q \<notin> set a" "q \<notin> set b" "a @ q # r = b @ q # s"
  shows "a = b"
proof -
  have "takeWhile ((\<noteq>) q) (a @ q # r) = a" "takeWhile ((\<noteq>) q) (b @ q # s) = b"
    using assms(1,2) by (auto simp: takeWhile_tail takeWhile_append)
  with assms(3) show ?thesis by simp
qed

lemma other_key:
  assumes "plain_key key'" "plain_key key" "same_text (quote_mark @ key' @ quote_mark) (in_quotes key @ rest)"
  shows "map ch_lower key' = map ch_lower key"
proof -
  let ?s = "map ch_lower (in_quotes key @ rest)" and ?n = "length key' + 2"
  have "map ch_lower (quote_mark @ key' @ quote_mark) @ drop ?n ?s = ?s"
    using assms(3) append_take_drop_id [of ?n ?s] by (simp add: same_text_lower)
  then have "map ch_lower key' @ CHR 0x22 # drop ?n ?s = map ch_lower key @ CHR 0x22 # map ch_lower rest"
    by (simp add: in_quotes_def lower_quote ch_lower_def)
  then show ?thesis by (rule same_key [OF plain_lower [OF assms(1)] plain_lower [OF assms(2)]])
qed

lemma key_line_None:
  assumes "blanks indent" "b = [] \<or> \<not> in_class Spaces (hd b)" "\<not> same_text (quote_mark @ key @ quote_mark) b"
  shows "match_items (Run Spaces 0 None True None # Text (quote_mark @ key @ quote_mark) # is) prev (indent @ b) = None"
proof (rule match_any_run_None)
  fix n assume "n \<le> length (takeWhile (in_class Spaces) (indent @ b))"
  moreover have "takeWhile (in_class Spaces) (indent @ b) = indent"
    using assms(1,2) unfolding blanks_def by (intro takeWhile_class) simp_all
  ultimately have n: "n \<le> length indent" by simp
  have "\<not> same_text (quote_mark @ key @ quote_mark) (drop n (indent @ b))"
  proof (cases "n = length indent")
    case False
    with n have "n < length indent" by simp
    then obtain c cs where c: "drop n indent = c # cs" using Cons_nth_drop_Suc by metis
    then have "c \<in> set indent" by (metis in_set_dropD list.set_intros(1))
    then have "c \<noteq> CHR 0x22" using assms(1) quote_not_space(1) by (auto simp: blanks_def list_all_iff)
    then have "ch_lower c \<noteq> CHR 0x22" by (simp add: lower_quote)
    with n c show ?thesis by (simp add: same_text_lower ch_lower_def [of "CHR 0x22"])
  next
    case True
    then show ?thesis using assms(3) by simp
  qed
  then show "match_items (Text (quote_mark @ key @ quote_mark) # is) (last_char p (take n (indent @ b))) (drop n (indent @ b)) = None" for p
    by simp
qed

lemma key_of_line:
  assumes "acf_ok l" "plain_key key" "key \<noteq> []"
    and "case l of Field _ k _ _ \<Rightarrow> map ch_lower key \<noteq> map ch_lower k | Heading _ k \<Rightarrow> map ch_lower key \<noteq> map ch_lower k | _ \<Rightarrow> True"
  shows "match_items (Run Spaces 0 None True None # Text (quote_mark @ key @ quote_mark) # some_spaces # is) prev (acf_line l) = None"
  using assms(1)
proof (cases l)
  case (Field indent k gap t)
  then have "\<not> same_text (quote_mark @ key @ quote_mark) (in_quotes k @ gap @ in_quotes t)"
    using assms other_key [of key k "gap @ in_quotes t"] by auto
  with Field assms(1) show ?thesis
    using key_line_None [of indent "in_quotes k @ gap @ in_quotes t" key] quote_not_space(1) by (simp add: in_quotes_def del: match_items.simps)
next
  case (Heading indent k)
  then have "\<not> same_text (quote_mark @ key @ quote_mark) (in_quotes k)"
    using assms other_key [of key k "[]"] by auto
  with Heading assms(1) show ?thesis
    using key_line_None [of indent "in_quotes k" key] quote_not_space(1) by (simp add: in_quotes_def del: match_items.simps)
next
  case (Brace indent c)
  then have "\<not> same_text (quote_mark @ key @ quote_mark) [c]" by (auto simp: same_text_def)
  moreover have "\<not> in_class Spaces c" using Brace assms(1) by (auto simp: ch_isspace_def)
  ultimately show ?thesis
    using key_line_None [of indent "[c]" key] Brace assms(1) by (simp del: match_items.simps in_class.simps)
qed

definition line_value :: "string \<Rightarrow> acf \<Rightarrow> captures option" where
  "line_value key l = (case l of Field _ k _ t \<Rightarrow> if map ch_lower k = key then Some [(''value'', t)] else None | _ \<Rightarrow> None)"

lemma lower_keys: "map ch_lower ''appid'' = ''appid''" "map ch_lower ''name'' = ''name''" "plain_key ''appid''" "plain_key ''name''"
  by (simp_all add: ch_lower_def plain_key_def)

lemma no_line_value:
  assumes "acf_ok l" "line_value key l = None" "key \<in> {''appid'', ''name''}"
  shows "match_items (Run Spaces 0 None True None # Text (quote_mark @ key @ quote_mark) # some_spaces # is) prev (acf_line l) = None"
proof (rule key_of_line)
  have low: "map ch_lower key = key" using assms(3) lower_keys by blast
  show "case l of Field _ k _ _ \<Rightarrow> map ch_lower key \<noteq> map ch_lower k | Heading _ k \<Rightarrow> map ch_lower key \<noteq> map ch_lower k | _ \<Rightarrow> True"
    unfolding low using assms by (cases l) (auto simp: line_value_def split: if_splits)
qed (use assms lower_keys in auto)

lemma app_line:
  assumes "acf_ok l"
  shows "match_items app_re None (acf_line l) = line_value ''appid'' l"
proof (cases "line_value ''appid'' l")
  case None
  with no_line_value [OF assms None] show ?thesis unfolding app_re_def by simp
next
  case (Some caps)
  then obtain i k g t where l: "l = Field i k g t" "map ch_lower k = ''appid''"
    by (auto simp: line_value_def split: acf.splits if_splits)
  with assms show ?thesis using reads_app_line [of i g k t] by (simp add: line_value_def del: match_items.simps acf_line.simps)
qed

lemma title_line:
  assumes "acf_ok l"
  shows "match_items title_re None (acf_line l) = line_value ''name'' l"
proof (cases "line_value ''name'' l")
  case None
  with no_line_value [OF assms None] show ?thesis unfolding title_re_def by simp
next
  case (Some caps)
  then obtain i k g t where l: "l = Field i k g t" "map ch_lower k = ''name''"
    by (auto simp: line_value_def split: acf.splits if_splits)
  with assms show ?thesis using reads_title_line [of i g k t] by (simp add: line_value_def del: match_items.simps acf_line.simps)
qed

definition first_of :: "string option \<Rightarrow> string option \<Rightarrow> string option" where
  "first_of a b = (case a of None \<Rightarrow> b | Some x \<Rightarrow> Some x)"

definition named_game :: "string option \<Rightarrow> string option \<Rightarrow> (string \<times> string) option" where
  "named_game app_id name = (if truthy app_id \<and> truthy name then Some (the app_id, the name) else None)"

lemma read_manifest_fields:
  assumes "list_all acf_ok ls" "\<not> (truthy app_id \<and> truthy name)"
  shows "read_manifest app_id name (map acf_line ls)
    = named_game (first_of app_id (map_of (acf_fields ls) ''appid'')) (first_of name (map_of (acf_fields ls) ''name''))"
  using assms
proof (induction ls arbitrary: app_id name)
  case Nil
  then show ?case by (cases app_id; cases name) (simp_all add: named_game_def first_of_def)
next
  case (Cons l ls)
  then show ?case
    by (cases l; cases app_id; cases name)
      (auto simp: Let_def app_line title_line line_value_def first_of_def named_game_def capture_def truthy_def
        simp del: match_items.simps acf_line.simps split: option.splits)
qed

text \<open>C36: The name of an installed game is read from its manifest as Steam writes it: whatever the
  indentation, the blanks between key and text, the case of the keys and the order of the lines, the
  manifest gives the first id and the first name in it, and no game if one of them is missing or
  the name is empty.\<close>

theorem manifest_names_game:
  assumes "list_all acf_ok ls"
  shows "read_manifest None None (map acf_line ls)
    = named_game (map_of (acf_fields ls) ''appid'') (map_of (acf_fields ls) ''name'')"
  using read_manifest_fields [OF assms, of None None] by (simp add: first_of_def)

lemma manifest_names_game_demo:
  "read_manifest None None (map acf_line [Heading [] ''AppState'', Brace [] CHR ''{'', Field ''  '' ''appid'' '' '' ''620'',
     Field ''  '' ''name'' ''  '' ''Portal 2'', Brace [] CHR ''}'']) = Some (''620'', ''Portal 2'')"
  using manifest_names_game [of "[Heading [] ''AppState'', Brace [] CHR ''{'', Field ''  '' ''appid'' '' '' ''620'',
     Field ''  '' ''name'' ''  '' ''Portal 2'', Brace [] CHR ''}'']"]
  by (simp add: blanks_def plain_key_def ch_isspace_def digits_def ch_isdecimal_def ch_lower_def named_game_def truthy_def
    del: acf_line.simps read_manifest.simps)

end
