(* ===== verification/Host.thy ===== *)
theory Host
  imports Wire
begin

text \<open>
  What the daemon takes from its host: its directories (\<open>paths.py\<close>), the system's time zone
  (\<open>system_timezone\<close>), its socket's path (\<open>UnixRpcServer.start\<close> and \<open>close\<close>), the lines of its log
  (\<open>logging_setup.py\<close>), the call of \<open>notify-send\<close>, the diagnostics, and the detectors that only wait.
  The environment and the answers of the system are arguments. The lemmas: a log record is one
  line, an argument of the notifier is one the system accepts, and nothing but a socket is removed.
\<close>

section \<open>Directories\<close>

text \<open>A pure path: its parts, and whether it starts at the root. \<open>Path(s)\<close> drops empty parts and
  \<open>.\<close>; of a path behind \<open>/\<close> the part before it is dropped when it is absolute.\<close>

record posix_path =
  pt_absolute :: bool
  pt_parts :: "string list"

definition path_of :: "string \<Rightarrow> posix_path" where
  "path_of s = \<lparr>pt_absolute = (s \<noteq> [] \<and> hd s = CHR ''/''),
     pt_parts = filter (\<lambda>p. p \<noteq> [] \<and> p \<noteq> ''.'') (split_on CHR ''/'' s)\<rparr>"

definition child :: "posix_path \<Rightarrow> string \<Rightarrow> posix_path" where
  "child p s = (let q = path_of s in if pt_absolute q then q else p\<lparr>pt_parts := pt_parts p @ pt_parts q\<rparr>)"

definition APP_SLUG :: string where
  "APP_SLUG = ''steamos-time-guardian''"

record app_paths =
  config_dir :: posix_path
  data_dir :: posix_path
  state_dir :: posix_path
  runtime_dir :: posix_path

definition config_file_path :: "app_paths \<Rightarrow> posix_path" where
  "config_file_path p = child (config_dir p) ''config.json''"

definition database_file :: "app_paths \<Rightarrow> posix_path" where
  "database_file p = child (data_dir p) ''guardian.db''"

definition log_file_path :: "app_paths \<Rightarrow> posix_path" where
  "log_file_path p = child (state_dir p) ''guardian.jsonl''"

definition socket_file :: "app_paths \<Rightarrow> posix_path" where
  "socket_file p = child (runtime_dir p) ''control.sock''"

definition support_dir :: "app_paths \<Rightarrow> posix_path" where
  "support_dir p = child (state_dir p) ''support''"

type_synonym environ = "string \<rightharpoonup> string"

text \<open>\<open>expanduser\<close> and the home directory of the user's record are arguments.\<close>

definition env_dir :: "environ \<Rightarrow> string \<Rightarrow> posix_path \<Rightarrow> posix_path" where
  "env_dir env name fallback = (case env name of None \<Rightarrow> fallback | Some s \<Rightarrow> path_of s)"

definition from_environment :: "(posix_path \<Rightarrow> posix_path) \<Rightarrow> posix_path \<Rightarrow> int \<Rightarrow> environ \<Rightarrow> app_paths" where
  "from_environment expanduser user_home uid env =
     (let home = expanduser (env_dir env ''HOME'' user_home);
          config_home = env_dir env ''XDG_CONFIG_HOME'' (child home ''.config'');
          data_home = env_dir env ''XDG_DATA_HOME'' (child home ''.local/share'');
          state_home = env_dir env ''XDG_STATE_HOME'' (child home ''.local/state'');
          runtime_base = env ''XDG_RUNTIME_DIR'';
          runtime = (if truthy runtime_base then child (path_of (the runtime_base)) APP_SLUG
                     else path_of (''/tmp/'' @ APP_SLUG @ ''-'' @ int_str uid))
      in \<lparr>config_dir = child config_home APP_SLUG, data_dir = child data_home APP_SLUG,
          state_dir = child state_home APP_SLUG, runtime_dir = runtime\<rparr>)"

text \<open>\<open>ensure\<close> on the modes of the directories there are: \<open>mkdir\<close> honours the umask, a failing \<open>chmod\<close>
  is passed over.\<close>

definition ensure_dir :: "nat \<Rightarrow> (posix_path \<Rightarrow> bool) \<Rightarrow> posix_path \<Rightarrow> (posix_path \<rightharpoonup> nat) \<Rightarrow> (posix_path \<rightharpoonup> nat)" where
  "ensure_dir created_mode may_chmod p modes =
     (let made = (if modes p = None then modes(p \<mapsto> created_mode) else modes)
      in if may_chmod p then made(p \<mapsto> 448) else made)"

definition ensure_dirs :: "nat \<Rightarrow> (posix_path \<Rightarrow> bool) \<Rightarrow> app_paths \<Rightarrow> (posix_path \<rightharpoonup> nat) \<Rightarrow> (posix_path \<rightharpoonup> nat)" where
  "ensure_dirs created_mode may_chmod p =
     fold (ensure_dir created_mode may_chmod) [config_dir p, data_dir p, state_dir p, runtime_dir p]"

lemma path_of_slug: "path_of APP_SLUG = \<lparr>pt_absolute = False, pt_parts = [APP_SLUG]\<rparr>"
  by (simp add: path_of_def APP_SLUG_def)

text \<open>The directories are private after \<open>ensure\<close>, as long as their modes may be changed.\<close>

lemma ensure_private:
  assumes "d \<in> {config_dir p, data_dir p, state_dir p, runtime_dir p}" "\<And>q. may_chmod q"
  shows "ensure_dirs created_mode may_chmod p modes d = Some 448"
  using assms by (auto simp: ensure_dirs_def ensure_dir_def Let_def)

text \<open>An XDG variable that is set to nothing makes its directory a relative one, where the
  specification asks for the default.\<close>

lemma empty_xdg_is_relative:
  "env ''XDG_CONFIG_HOME'' = Some [] \<Longrightarrow>
    config_dir (from_environment expanduser user_home uid env) = \<lparr>pt_absolute = False, pt_parts = [APP_SLUG]\<rparr>"
  by (simp add: from_environment_def Let_def env_dir_def child_def path_of_slug) (simp add: path_of_def)

section \<open>The system's time zone\<close>

definition removeprefix :: "string \<Rightarrow> string \<Rightarrow> string" where
  "removeprefix pre s = (if take (length pre) s = pre then drop (length pre) s else s)"

fun after_text :: "string \<Rightarrow> string \<Rightarrow> string option" where
  "after_text marker [] = (if marker = [] then Some [] else None)"
| "after_text marker (c # cs) =
     (if take (length marker) (c # cs) = marker then Some (drop (length marker) (c # cs)) else after_text marker cs)"

text \<open>The candidates: \<open>TZ\<close>, where \<open>/etc/localtime\<close> leads (\<open>None\<close> when that cannot be told), and the text of
  \<open>/etc/timezone\<close>.\<close>

definition zone_candidates :: "environ \<Rightarrow> string option \<Rightarrow> string option \<Rightarrow> string list" where
  "zone_candidates env localtime timezone_file =
     (if truthy (env ''TZ'') then [removeprefix '':'' (the (env ''TZ''))] else [])
     @ (case localtime of None \<Rightarrow> []
        | Some p \<Rightarrow> (case after_text ''/usr/share/zoneinfo/'' p of None \<Rightarrow> [] | Some name \<Rightarrow> [name]))
     @ (case timezone_file of None \<Rightarrow> [] | Some t \<Rightarrow> [str_strip t])"

fun first_zone :: "(pyval \<Rightarrow> zone_answer) \<Rightarrow> zone \<Rightarrow> string list \<Rightarrow> py_exc + zone" where
  "first_zone zoneinfo local [] = Inr local"
| "first_zone zoneinfo local (c # cs) =
     (if c = [] then first_zone zoneinfo local cs
      else (case zoneinfo (PStr c) of ZoneFound z \<Rightarrow> Inr z | ZoneNotFound \<Rightarrow> first_zone zoneinfo local cs | ZoneFails e \<Rightarrow> Inl e))"

definition system_timezone :: "(pyval \<Rightarrow> zone_answer) \<Rightarrow> zone \<Rightarrow> environ \<Rightarrow> string option \<Rightarrow> string option \<Rightarrow> py_exc + zone" where
  "system_timezone zoneinfo local env localtime timezone_file =
     first_zone zoneinfo local (zone_candidates env localtime timezone_file)"

text \<open>C37: \<open>TZ\<close> may name a file, as in \<open>:/etc/localtime\<close>. The zone database refuses an absolute name
  with an exception that is not the one for an unknown zone, so no zone is found at all, although
  \<open>/etc/localtime\<close> leads to one; without \<open>TZ\<close> that zone is taken.\<close>

theorem absolute_tz_fails:
  assumes "\<And>name. name \<noteq> [] \<Longrightarrow> hd name = CHR ''/'' \<Longrightarrow> \<exists>m. zoneinfo (PStr name) = ZoneFails (ValueError m)"
    and "zoneinfo (PStr place) = ZoneFound z" and "place \<noteq> []"
  shows "(\<exists>m. system_timezone zoneinfo local (env(''TZ'' \<mapsto> '':/'' @ rest)) (Some (''/usr/share/zoneinfo/'' @ place)) tz_file
      = Inl (ValueError m))
    \<and> system_timezone zoneinfo local (env(''TZ'' := None)) (Some (''/usr/share/zoneinfo/'' @ place)) tz_file = Inr z"
proof
  have "removeprefix '':'' ('':/'' @ rest) = ''/'' @ rest" by (simp add: removeprefix_def)
  moreover obtain m where "zoneinfo (PStr (''/'' @ rest)) = ZoneFails (ValueError m)" using assms(1) [of "''/'' @ rest"] by auto
  ultimately show "\<exists>m. system_timezone zoneinfo local (env(''TZ'' \<mapsto> '':/'' @ rest)) (Some (''/usr/share/zoneinfo/'' @ place)) tz_file
      = Inl (ValueError m)"
    by (simp add: system_timezone_def zone_candidates_def)
  have "after_text ''/usr/share/zoneinfo/'' (''/usr/share/zoneinfo/'' @ place) = Some place" by simp
  then show "system_timezone zoneinfo local (env(''TZ'' := None)) (Some (''/usr/share/zoneinfo/'' @ place)) tz_file = Inr z"
    using assms(2,3) by (simp add: system_timezone_def zone_candidates_def del: after_text.simps)
qed

definition demo_zoneinfo :: "pyval \<Rightarrow> zone_answer" where
  "demo_zoneinfo name =
     (case name of PStr (c # _) \<Rightarrow> if c = CHR ''/'' then ZoneFails (ValueError ''absolute'') else ZoneFound utc_zone | _ \<Rightarrow> ZoneNotFound)"

lemma absolute_tz_fails_demo:
  "\<exists>m. system_timezone demo_zoneinfo utc_zone [''TZ'' \<mapsto> '':/etc/localtime''] (Some ''/usr/share/zoneinfo/Europe/Madrid'') None
      = Inl (ValueError m)"
proof -
  have fails: "name \<noteq> [] \<Longrightarrow> hd name = CHR ''/'' \<Longrightarrow> \<exists>m. demo_zoneinfo (PStr name) = ZoneFails (ValueError m)" for name
    by (cases name) (simp_all add: demo_zoneinfo_def)
  have found: "demo_zoneinfo (PStr ''Europe/Madrid'') = ZoneFound utc_zone" by (simp add: demo_zoneinfo_def)
  show ?thesis
    using absolute_tz_fails [where zoneinfo = demo_zoneinfo and place = "''Europe/Madrid''" and env = Map.empty
      and rest = "''etc/localtime''" and tz_file = None and local = utc_zone, OF _ found] fails by simp
qed

section \<open>The socket's path\<close>

datatype node = Nothing_there | Socket_there nat | Other_there

text \<open>\<open>start\<close> and \<open>close\<close> up to the server itself: what stands at the path, and whether it may be removed.\<close>

definition socket_start :: "bool \<Rightarrow> string \<Rightarrow> node \<Rightarrow> (string + unit) \<times> node" where
  "socket_start may_remove path there =
     (case there of
        Other_there \<Rightarrow> (Inl (''refusing to replace non-socket path '' @ path), there)
      | Socket_there _ \<Rightarrow> if may_remove then (Inr (), Socket_there 384) else (Inl (''cannot remove stale socket '' @ path), there)
      | Nothing_there \<Rightarrow> (Inr (), Socket_there 384))"

definition socket_close :: "bool \<Rightarrow> node \<Rightarrow> node" where
  "socket_close may_remove there = (if may_remove then Nothing_there else there)"

lemma start_replaces_sockets_only:
  "socket_start may_remove path there = (r, there') \<Longrightarrow>
    (r = Inr () \<longrightarrow> there' = Socket_there 384 \<and> there \<noteq> Other_there) \<and> (r \<noteq> Inr () \<longrightarrow> there' = there)"
  by (cases there) (auto simp: socket_start_def split: if_splits)

section \<open>Log records\<close>

text \<open>A record with its level, logger, message and exception, and the extra attributes it has.\<close>

record log_record =
  lr_level :: string
  lr_name :: string
  lr_message :: string
  lr_extra :: "(string \<times> pyval) list"
  lr_exception :: "string option"

definition log_keys :: "string list" where
  "log_keys = [''event'', ''method'', ''app_id'', ''session_id'', ''error_code'']"

definition log_payload :: "string \<Rightarrow> log_record \<Rightarrow> (string \<times> pyval) list" where
  "log_payload now r =
     (let payload = [(''timestamp'', PStr now), (''level'', PStr (str_lower (lr_level r))), (''logger'', PStr (lr_name r)),
            (''message'', PStr (lr_message r))];
          payload = fold (\<lambda>k ps. case map_of (lr_extra r) k of None \<Rightarrow> ps | Some v \<Rightarrow> if v = PNone then ps else alist_set k v ps)
            log_keys payload
      in (case lr_exception r of None \<Rightarrow> payload | Some e \<Rightarrow> alist_set ''exception'' (PStr e) payload))"

definition record_line :: "(real \<Rightarrow> string) \<Rightarrow> string \<Rightarrow> log_record \<Rightarrow> string" where
  "record_line fr now r = json_compact plain_char fr (PDict (log_payload now r))"

text \<open>\<open>configure_logging\<close>: the level and the handlers of the root logger, whatever it had before.\<close>

datatype log_handler = Rotating string int int | To_stderr

definition level_number :: "string \<Rightarrow> int" where
  "level_number name =
     (case map_of [(''CRITICAL'', 50), (''FATAL'', 50), (''ERROR'', 40), (''WARNING'', 30), (''WARN'', 30), (''INFO'', 20),
        (''DEBUG'', 10), (''NOTSET'', 0)] name of Some n \<Rightarrow> n | None \<Rightarrow> 20)"

definition str_upper_ascii :: "string \<Rightarrow> string" where
  "str_upper_ascii s = map (\<lambda>c. if 97 \<le> code c \<and> code c \<le> 122 then char_of (code c - 32) else c) s"

definition configure_logging :: "string \<Rightarrow> string \<Rightarrow> int \<Rightarrow> int \<Rightarrow> bool \<Rightarrow> int \<times> log_handler list" where
  "configure_logging log_file level max_bytes backup_count foreground =
     (level_number (str_upper_ascii level),
      Rotating log_file max_bytes backup_count # (if foreground then [To_stderr] else []))"

text \<open>A record is one line of the log, whatever is in its message, its attributes and its exception,
  so that nobody who names a game can forge a record.\<close>

theorem log_record_is_one_line:
  assumes "\<And>x. one_line (fr x)"
  shows "one_line (record_line fr now r)"
  unfolding record_line_def by (rule one_line_json) (simp_all add: keeps_lines_def plain_char_line assms)

lemma log_record_is_one_line_demo:
  "one_line (record_line blank ''now'' \<lparr>lr_level = ''INFO'', lr_name = ''stg'', lr_message = ''a'' @ newline # ''b'',
     lr_extra = [(''app_id'', PStr (''1'' @ [newline]))], lr_exception = None\<rparr>)"
  by (rule log_record_is_one_line) (simp add: blank_def)

section \<open>Desktop notifications\<close>

text \<open>How the process ends: it cannot be started, runs too long, or exits.\<close>

datatype process_end = Not_started | Timed_out | Exited int

definition clean_text :: "nat \<Rightarrow> string \<Rightarrow> string" where
  "clean_text most s = take most (filter (\<lambda>c. c \<noteq> CHR 0x00) s)"

definition notify_arguments :: "string \<Rightarrow> notification \<Rightarrow> string list" where
  "notify_arguments command n =
     (let urgency = (if nt_urgency n \<in> {''low'', ''normal'', ''critical''} then nt_urgency n else ''normal'');
          timeout = (if nt_persistent n then ''0'' else ''7000'')
      in [command, ''--app-name=SteamOS Time Guardian'', ''--urgency='' @ urgency, ''--expire-time='' @ timeout,
          clean_text 120 (nt_title n), clean_text 500 (nt_body n)])"

definition notifier_send :: "bool \<Rightarrow> string option \<Rightarrow> (string list \<Rightarrow> process_end) \<Rightarrow> notification \<Rightarrow> bool" where
  "notifier_send enabled command run n =
     (if \<not> enabled \<or> \<not> truthy command then False
      else (case run (notify_arguments (the command) n) of Exited k \<Rightarrow> k = 0 | _ \<Rightarrow> False))"

lemma arguments_are_texts:
  assumes "CHR 0x00 \<notin> set command"
  shows "list_all (\<lambda>a. CHR 0x00 \<notin> set a) (notify_arguments command n)"
proof -
  have "CHR 0x00 \<notin> set (clean_text most s)" for most s
    by (auto simp: clean_text_def dest: in_set_takeD)
  then show ?thesis using assms by (simp add: notify_arguments_def Let_def)
qed

section \<open>Diagnostics\<close>

text \<open>What is asked of the system: of a path, whether it exists, whether it or its parent may be written,
  and its mode and owner or the error of \<open>stat\<close>.\<close>

record path_probe =
  pp_exists :: bool
  pp_writable :: bool
  pp_stat :: "string + string \<times> int"

definition path_status :: "path_probe \<Rightarrow> pyval" where
  "path_status p = PDict
     ([(''exists'', PBool (pp_exists p)), (''writable_parent'', PBool (pp_writable p))]
      @ (if pp_exists p
         then (case pp_stat p of Inr (mode, owner) \<Rightarrow> [(''mode'', PStr mode), (''owner_uid'', PInt owner)]
               | Inl e \<Rightarrow> [(''error'', PStr e)]) else []))"

record host =
  ho_version :: string
  ho_python :: string
  ho_platform :: string
  ho_machine :: string
  ho_uid :: int
  ho_env :: environ
  ho_probe :: "posix_path \<Rightarrow> path_probe"
  ho_which :: "string \<Rightarrow> string option"
  ho_schema_version :: int
  ho_quick_check :: string

definition env_or :: "environ \<Rightarrow> string \<Rightarrow> string \<Rightarrow> pyval" where
  "env_or env name fallback = PStr (case env name of None \<Rightarrow> fallback | Some s \<Rightarrow> s)"

definition collect_diagnostics :: "host \<Rightarrow> app_paths \<Rightarrow> db \<Rightarrow> string option \<Rightarrow> pyval \<Rightarrow> string \<Rightarrow> bool \<Rightarrow> bool \<Rightarrow> string option \<Rightarrow> pyval" where
  "collect_diagnostics h paths d recovery_note status_dict detector native plugin_recent config_note = PDict
     [(''project_version'', PStr (ho_version h)), (''python_version'', PStr (ho_python h)), (''platform'', PStr (ho_platform h)),
      (''machine'', PStr (ho_machine h)), (''uid'', PInt (ho_uid h)),
      (''xdg_runtime_dir_set'', PBool (truthy (ho_env h ''XDG_RUNTIME_DIR''))),
      (''session_type'', env_or (ho_env h) ''XDG_SESSION_TYPE'' ''unknown''),
      (''desktop'', env_or (ho_env h) ''XDG_CURRENT_DESKTOP'' ''unknown''),
      (''detector'', PStr detector), (''decky_plugin_recent'', PBool plugin_recent),
      (''native_notifications'', PDict [(''notify_send_available'', PBool native),
         (''dbus_session_bus_set'', PBool (truthy (ho_env h ''DBUS_SESSION_BUS_ADDRESS'')))]),
      (''database'', PDict [(''schema_version'', PInt (ho_schema_version h)), (''quick_check'', PStr (ho_quick_check h)),
         (''recovery_note'', popt PStr recovery_note)]),
      (''configuration'', PDict [(''recovery_note'', popt PStr config_note)]),
      (''paths'', PDict [(''config'', path_status (ho_probe h (config_file_path paths))),
         (''database'', path_status (ho_probe h (database_file paths))), (''log'', path_status (ho_probe h (log_file_path paths))),
         (''socket'', path_status (ho_probe h (socket_file paths)))]),
      (''commands'', PDict (map (\<lambda>(k, c). (k, PBool (truthy (ho_which h c)))) [(''systemctl'', ''systemctl''),
         (''journalctl'', ''journalctl''), (''notify_send'', ''notify-send''), (''powerprofilesctl'', ''powerprofilesctl'')])),
      (''status'', status_dict), (''recent_events'', PList (list_events (Some 20) d))]"

section \<open>Detectors that wait\<close>

text \<open>The simulation: its queue, in which \<open>None\<close> ends the loop, and whether it was stopped. \<open>Turn\<close> is one
  round of the loop, which waits when the queue is empty.\<close>

record simulation =
  sm_queue :: "detector_event option list"
  sm_stopped :: bool
  sm_running :: bool

datatype sim_op = Emit detector_event | Stop_detector | Turn

fun sim_step :: "sim_op \<Rightarrow> simulation \<Rightarrow> detector_event list \<times> simulation" where
  "sim_step (Emit ev) s = ([], s\<lparr>sm_queue := sm_queue s @ [Some ev]\<rparr>)"
| "sim_step Stop_detector s = ([], s\<lparr>sm_stopped := True, sm_queue := sm_queue s @ [None]\<rparr>)"
| "sim_step Turn s =
     (if \<not> sm_running s then ([], s)
      else if sm_stopped s then ([], s\<lparr>sm_running := False\<rparr>)
      else (case sm_queue s of
              [] \<Rightarrow> ([], s)
            | None # q \<Rightarrow> ([], s\<lparr>sm_queue := q, sm_running := False\<rparr>)
            | Some ev # q \<Rightarrow> ([ev], s\<lparr>sm_queue := q\<rparr>)))"

fun sim_run :: "sim_op list \<Rightarrow> simulation \<Rightarrow> detector_event list \<times> simulation" where
  "sim_run [] s = ([], s)"
| "sim_run (x # xs) s =
     (case sim_step x s of (out, s1) \<Rightarrow> (case sim_run xs s1 of (more_out, s2) \<Rightarrow> (out @ more_out, s2)))"

fun given_events :: "sim_op list \<Rightarrow> detector_event list" where
  "given_events [] = []"
| "given_events (Emit ev # xs) = ev # given_events xs"
| "given_events (_ # xs) = given_events xs"

text \<open>What the simulation passes on is a beginning of what it was given.\<close>

lemma simulation_in_order:
  "sim_run xs s = (out, s') \<Longrightarrow> prefix out (List.map_filter id (sm_queue s) @ given_events xs)"
proof (induction xs arbitrary: s out s')
  case (Cons x xs)
  obtain out1 s1 where one: "sim_step x s = (out1, s1)" by (cases "sim_step x s")
  obtain out2 s2 where two: "sim_run xs s1 = (out2, s2)" by (cases "sim_run xs s1")
  have out: "out = out1 @ out2" using Cons.prems one two by simp
  note rest = Cons.IH [OF two]
  show ?case
    using one rest out
    by (cases x) (auto simp: List.map_filter_simps List.map_filter_def split: if_splits list.splits option.splits)
qed simp

end
