(* ===== verification/Tools.thy ===== *)
theory Tools
  imports Tui ConfigFile "HOL-Library.Multiset"
begin

text \<open>
  The scripts under \<open>tools\<close> on the files of the repository: \<open>format_repo.py\<close>, \<open>package_project.py\<close>
  and \<open>lint_repo.py\<close>. The lemmas: formatting is idempotent and leaves a tree its own check accepts, and
  the archive is a function of the files, whatever the order in which they are found.
\<close>

section \<open>The files of the repository\<close>

text \<open>A file by the parts of its path below the root, with its mode and its content: a text, or bytes
  that are no UTF-8.\<close>

datatype content = Text string | Binary string

record repo_file =
  rp_path :: "string list"
  rp_mode :: nat
  rp_content :: content

definition file_name :: "string list \<Rightarrow> string" where
  "file_name parts = (if parts = [] then [] else last parts)"

text \<open>\<open>PurePath.suffix\<close>: from the last dot on, unless it begins or ends the name.\<close>

definition suffix_of :: "string \<Rightarrow> string" where
  "suffix_of name =
     (let ext = rev (takeWhile (\<lambda>c. c \<noteq> CHR ''.'') (rev name))
      in if ext = [] \<or> length name \<le> length ext + 1 then [] else CHR ''.'' # ext)"

definition in_dirs :: "string list \<Rightarrow> string list \<Rightarrow> bool" where
  "in_dirs names parts = list_ex (\<lambda>part. part \<in> set names) parts"

section \<open>Formatting\<close>

definition TEXT_SUFFIXES :: "string list" where
  "TEXT_SUFFIXES = [''.py'', ''.pyi'', ''.ts'', ''.tsx'', ''.js'', ''.mjs'', ''.json'', ''.md'', ''.toml'', ''.yml'', ''.yaml'',
     ''.sh'', ''.service'', ''.desktop'', ''.svg'']"

definition SKIP_PARTS :: "string list" where
  "SKIP_PARTS = [''.git'', ''.venv'', ''.dev'', ''node_modules'', ''__pycache__'', ''dist'', ''build'']"

text \<open>\<open>candidates\<close> looks at the parts of the whole path, those of the root included.\<close>

definition candidate :: "string list \<Rightarrow> repo_file \<Rightarrow> bool" where
  "candidate base f = (\<not> in_dirs SKIP_PARTS (base @ rp_path f)
     \<and> (suffix_of (file_name (rp_path f)) \<in> set TEXT_SUFFIXES \<or> file_name (rp_path f) \<in> {''Makefile'', ''LICENSE''}))"

abbreviation return :: char where
  "return \<equiv> CHR 0x0D"

text \<open>Reading in text mode makes every line end a newline.\<close>

fun universal_newlines :: "string \<Rightarrow> string" where
  "universal_newlines [] = []"
| "universal_newlines (c # cs) =
     (if c = return
      then newline # (case cs of d # ds \<Rightarrow> if d = newline then universal_newlines ds else universal_newlines cs | [] \<Rightarrow> [])
      else c # universal_newlines cs)"

text \<open>\<open>s.replace(old, new)\<close> of a text that is not empty.\<close>

function str_replace :: "string \<Rightarrow> string \<Rightarrow> string \<Rightarrow> string" where
  "str_replace old new s =
     (case s of [] \<Rightarrow> []
      | c # cs \<Rightarrow> if old \<noteq> [] \<and> take (length old) s = old then new @ str_replace old new (drop (length old) s)
                 else c # str_replace old new cs)"
  by pat_completeness auto
termination
  by (relation "measure (\<lambda>(old, new, s). length s)") (auto simp: Suc_le_eq)

declare str_replace.simps [simp del]

definition str_rstrip :: "string \<Rightarrow> string" where
  "str_rstrip s = rev (dropWhile ch_isspace (rev s))"

definition normalize :: "string \<Rightarrow> string" where
  "normalize t =
     (let ls = map str_rstrip (split_on newline (str_replace [return] [newline] (str_replace [return, newline] [newline] t)))
      in join [newline] (rev (dropWhile (\<lambda>l. l = []) (rev ls))) @ [newline])"

definition reformatted :: "content \<Rightarrow> content option" where
  "reformatted c =
     (case c of Binary _ \<Rightarrow> None
      | Text t \<Rightarrow> (let original = universal_newlines t
                  in if normalize original = original then None else Some (Text (normalize original))))"

definition relative_name :: "repo_file \<Rightarrow> string" where
  "relative_name f = join ''/'' (rp_path f)"

text \<open>\<open>main\<close>: the exit status, the lines printed, and the files afterwards.\<close>

definition format_repo :: "bool \<Rightarrow> string list \<Rightarrow> repo_file list \<Rightarrow> nat \<times> string list \<times> repo_file list" where
  "format_repo check base fs =
     (let changed = filter (\<lambda>f. candidate base f \<and> reformatted (rp_content f) \<noteq> None) fs;
          written = (if check then fs
            else map (\<lambda>f. if candidate base f
              then f\<lparr>rp_content := (case reformatted (rp_content f) of None \<Rightarrow> rp_content f | Some c \<Rightarrow> c)\<rparr> else f) fs)
      in if changed \<noteq> []
         then (if check then 1 else 0,
               map (\<lambda>f. (if check then ''would reformat: '' else ''reformatted: '') @ relative_name f) changed, written)
         else (0, [''text formatting check passed''], written))"

section \<open>Formatting again\<close>

lemma split_join:
  assumes "list_all (\<lambda>l. c \<notin> set l) ls" "ls \<noteq> []"
  shows "split_on c (join [c] ls) = ls"
proof -
  have no: "split_on c l = [l]" if "c \<notin> set l" for l using that by (induction l) auto
  have step: "split_on c (l @ c # s) = l # split_on c s" if "c \<notin> set l" for l s using that by (induction l) auto
  show ?thesis
    using assms
  proof (induction ls)
    case (Cons l ls)
    then show ?case by (cases ls) (simp_all add: no step)
  qed simp
qed

lemma split_parts: "list_all (\<lambda>l. c \<notin> set l \<and> set l \<subseteq> set s) (split_on c s) \<and> split_on c s \<noteq> []"
  by (induction s) (auto split: list.splits simp: list_all_iff)

lemma replace_absent: "hd old \<notin> set s \<Longrightarrow> old \<noteq> [] \<Longrightarrow> str_replace old new s = s"
proof (induction s)
  case (Cons c cs)
  then have "take (length old) (c # cs) \<noteq> old" by (cases old) auto
  with Cons show ?case by (subst str_replace.simps) simp
qed (simp add: str_replace.simps)

lemma replace_all: "c \<notin> set new \<Longrightarrow> c \<notin> set (str_replace [c] new s)"
proof (induction "[c]" new s rule: str_replace.induct)
  case (1 new s)
  then show ?case by (subst str_replace.simps) (auto split: list.splits)
qed

lemma rstrip_set: "set (str_rstrip l) \<subseteq> set l"
  using set_dropWhileD [of _ ch_isspace "rev l"] by (auto simp: str_rstrip_def)

lemma rstrip_again: "str_rstrip (str_rstrip l) = str_rstrip l"
  by (simp add: str_rstrip_def)

text \<open>The lines of a normalised text.\<close>

definition clean :: "string list \<Rightarrow> bool" where
  "clean ls = (list_all (\<lambda>l. newline \<notin> set l \<and> return \<notin> set l \<and> str_rstrip l = l) ls \<and> (ls = [] \<or> last ls \<noteq> []))"

lemma normalize_lines: "\<exists>ls. clean ls \<and> normalize t = join [newline] ls @ [newline]"
proof -
  let ?t = "str_replace [return] [newline] (str_replace [return, newline] [newline] t)"
  let ?ls = "map str_rstrip (split_on newline ?t)"
  let ?kept = "rev (dropWhile (\<lambda>l. l = []) (rev ?ls))"
  have "return \<notin> set ?t" by (rule replace_all) simp
  then have "list_all (\<lambda>l. newline \<notin> set l \<and> return \<notin> set l \<and> str_rstrip l = l) ?ls"
    using split_parts [of newline ?t] rstrip_set by (fastforce simp: list_all_iff rstrip_again)
  moreover have "set ?kept \<subseteq> set ?ls" by (auto dest: set_dropWhileD)
  moreover have "?kept = [] \<or> last ?kept \<noteq> []"
    using hd_dropWhile [of "\<lambda>l. l = []" "rev ?ls"] by (auto simp: last_rev)
  ultimately have "clean ?kept" by (auto simp: clean_def list_all_iff)
  then show ?thesis by (auto simp: normalize_def Let_def)
qed

lemma set_join: "set (join sep ls) \<subseteq> set sep \<union> \<Union> (set ` set ls)"
  by (induction sep ls rule: join.induct) auto

lemma normalize_clean:
  assumes "clean ls"
  shows "normalize (join [newline] ls @ [newline]) = join [newline] ls @ [newline]"
proof -
  let ?t = "join [newline] ls @ [newline]"
  have "return \<notin> set ?t" using set_join [of "[newline]" ls] assms by (auto simp: clean_def list_all_iff)
  then have same: "str_replace [return] [newline] (str_replace [return, newline] [newline] ?t) = ?t"
    by (simp add: replace_absent)
  have split: "split_on newline ?t = (if ls = [] then [[], []] else ls @ [[]])"
  proof (cases "ls = []")
    case False
    have "join [newline] (ls @ [[]]) = ?t" using False by (induction "[newline]" ls rule: join.induct) simp_all
    moreover have "split_on newline (join [newline] (ls @ [[]])) = ls @ [[]]"
      using assms by (intro split_join) (auto simp: clean_def list_all_iff)
    ultimately show ?thesis using False by simp
  qed simp
  have "map str_rstrip ls = ls" using assms by (simp add: clean_def list_all_iff map_idI)
  moreover have "dropWhile (\<lambda>l. l = []) (rev ls) = rev ls"
    using assms by (cases ls rule: rev_cases) (auto simp: clean_def)
  ultimately show ?thesis
    unfolding normalize_def same split by (simp add: Let_def str_rstrip_def)
qed

lemma normalize_again: "normalize (normalize t) = normalize t"
  using normalize_lines [of t] normalize_clean by force

lemma universal_absent: "return \<notin> set t \<Longrightarrow> universal_newlines t = t"
  by (induction t) auto

lemma reformatted_again: "reformatted c = Some c' \<Longrightarrow> reformatted c' = None"
proof -
  have "universal_newlines (normalize t) = normalize t" for t
  proof -
    obtain ls where ls: "clean ls" "normalize t = join [newline] ls @ [newline]" using normalize_lines by blast
    then have "return \<notin> set (normalize t)" using set_join [of "[newline]" ls] by (auto simp: clean_def list_all_iff)
    then show ?thesis by (rule universal_absent)
  qed
  then show "reformatted c = Some c' \<Longrightarrow> reformatted c' = None"
    by (auto simp: reformatted_def Let_def normalize_again split: content.splits if_splits)
qed

text \<open>C40: Formatting leaves a tree that its own check accepts and that formatting again does not
  change, whatever files were in it; the paths, the modes and the number of the files stay.\<close>

theorem format_then_check_passes:
  "let fs' = snd (snd (format_repo False base fs))
   in format_repo check base fs' = (0, [''text formatting check passed''], fs')
     \<and> map (\<lambda>f. (rp_path f, rp_mode f)) fs' = map (\<lambda>f. (rp_path f, rp_mode f)) fs"
proof -
  define again where "again f = (if candidate base f
    then f\<lparr>rp_content := (case reformatted (rp_content f) of None \<Rightarrow> rp_content f | Some c \<Rightarrow> c)\<rparr> else f)" for f
  have fs': "snd (snd (format_repo False base fs)) = map again fs" by (simp add: format_repo_def Let_def again_def)
  have settled: "reformatted (rp_content (again f)) = None" if "candidate base (again f)" for f
    using that reformatted_again by (auto simp: again_def split: option.splits if_splits)
  have same: "again (again f) = again f" for f
    using settled [of f] by (simp add: again_def [of "again f"])
  have "filter (\<lambda>f. candidate base f \<and> reformatted (rp_content f) \<noteq> None) (map again fs) = []"
    using settled by (auto simp: filter_empty_conv)
  then have "format_repo check base (map again fs) = (0, [''text formatting check passed''], map again fs)"
    by (simp add: format_repo_def again_def [symmetric] same comp_def)
  moreover have "(rp_path (again f), rp_mode (again f)) = (rp_path f, rp_mode f)" for f by (simp add: again_def)
  ultimately show ?thesis unfolding fs' Let_def by simp
qed

text \<open>What the check does not see: a text whose lines end with a return and a newline is read with
  newlines only, and below a directory of the name of a skipped one no file is looked at.\<close>

fun with_returns :: "string \<Rightarrow> string" where
  "with_returns [] = []"
| "with_returns (c # cs) = (if c = newline then return # newline # with_returns cs else c # with_returns cs)"

lemma returns_read_away: "return \<notin> set t \<Longrightarrow> universal_newlines (with_returns t) = t"
  by (induction t) auto

lemma returns_pass: "return \<notin> set t \<Longrightarrow> normalize t = t \<Longrightarrow> reformatted (Text (with_returns t)) = None"
  by (simp add: reformatted_def returns_read_away)

lemma below_skipped_all_pass:
  "in_dirs SKIP_PARTS base \<Longrightarrow> format_repo check base fs = (0, [''text formatting check passed''], fs)"
  by (simp add: format_repo_def candidate_def in_dirs_def map_idI)

section \<open>Packaging\<close>

definition EXCLUDED_PARTS :: "string list" where
  "EXCLUDED_PARTS = [''.git'', ''.venv'', ''.dev'', ''node_modules'', ''__pycache__'', ''.pytest_cache'', ''.mypy_cache'',
     ''.ruff_cache'', ''build'', ''htmlcov'']"

definition EXCLUDED_SUFFIXES :: "string list" where
  "EXCLUDED_SUFFIXES = [''.pyc'', ''.pyo'']"

definition EXCLUDED_NAMES :: "string list" where
  "EXCLUDED_NAMES = [''.coverage'', ''.DS_Store'']"

definition REQUIRED_ARCHIVE_FILES :: "string list" where
  "REQUIRED_ARCHIVE_FILES = [''README.md'', ''AGENTS.md'', ''daemon/src/stg/service.py'', ''decky-plugin/dist/index.js'',
     ''scripts/install-user.sh'', ''scripts/uninstall-user.sh'', ''docs/architecture.md'', ''docs/local-validation-report.md'',
     ''docs/sources.md'', ''docs/steam-deck-validation-plan.md'', ''.github/workflows/ci.yml'']"

definition TIMESTAMP :: "nat list" where
  "TIMESTAMP = [2026, 7, 22, 0, 0, 0]"

definition ends_with :: "string \<Rightarrow> string \<Rightarrow> bool" where
  "ends_with tail s = (length tail \<le> length s \<and> drop (length s - length tail) s = tail)"

text \<open>\<open>resolve\<close> follows the links of the file system; \<open>outputs\<close> are resolved paths.\<close>

definition included :: "(string list \<Rightarrow> string list) \<Rightarrow> string list \<Rightarrow> string list list \<Rightarrow> string list \<Rightarrow> bool" where
  "included resolve base outputs rel =
     (if resolve (base @ rel) \<in> set outputs then False
      else if in_dirs EXCLUDED_PARTS rel then False
      else if rel \<noteq> [] \<and> hd rel = ''dist'' then False
      else if file_name rel \<in> set EXCLUDED_NAMES \<or> list_ex (ends_with ''.egg-info'') rel then False
      else suffix_of (file_name rel) \<notin> set EXCLUDED_SUFFIXES \<and> \<not> ends_with ''~'' (file_name rel))"

record member =
  mb_name :: string
  mb_date :: "nat list"
  mb_attr :: nat
  mb_content :: content

definition add_file :: "repo_file \<Rightarrow> string \<Rightarrow> member" where
  "add_file f archive_name = \<lparr>mb_name = archive_name, mb_date = TIMESTAMP,
     mb_attr = rp_mode f mod 512 mod 65536 * 65536, mb_content = rp_content f\<rparr>"

definition project_name :: "string \<Rightarrow> string" where
  "project_name rel = ''steamos-time-guardian/'' @ rel"

text \<open>The archive is written first and then read again; \<open>testzip\<close> names a member that is corrupt.\<close>

definition text_list :: "string list \<Rightarrow> string" where
  "text_list ss = ''['' @ join '', '' (map str_repr ss) @ '']''"

definition build_project :: "(string list \<Rightarrow> string list) \<Rightarrow> (member list \<Rightarrow> string option) \<Rightarrow> string list \<Rightarrow> string list list
    \<Rightarrow> repo_file list \<Rightarrow> (string + unit) \<times> member list" where
  "build_project resolve testzip base outputs fs =
     (let archive = map (\<lambda>f. add_file f (project_name (relative_name f)))
            (filter (\<lambda>f. included resolve base outputs (rp_path f)) (sort_key rp_path fs));
          names = map mb_name archive;
          missing = filter (\<lambda>n. n \<notin> set names) (map project_name REQUIRED_ARCHIVE_FILES)
      in (if missing \<noteq> [] then Inl (''project archive is missing: '' @ text_list (sort missing))
          else (case testzip archive of Some bad \<Rightarrow> Inl (''corrupt member in project archive: '' @ bad) | None \<Rightarrow> Inr ()),
          archive))"

definition decky_files :: "string list list" where
  "decky_files = map (\<lambda>p. [''decky-plugin''] @ p) [[''dist'', ''index.js''], [''dist'', ''index.js.map''], [''main.py''],
     [''plugin.json''], [''package.json''], [''LICENSE'']]"

definition file_at :: "repo_file list \<Rightarrow> string list \<Rightarrow> repo_file option" where
  "file_at fs parts = find (\<lambda>f. rp_path f = parts) fs"

definition build_decky :: "string list \<Rightarrow> (member list \<Rightarrow> string option) \<Rightarrow> repo_file list \<Rightarrow> (string + unit) \<times> member list option" where
  "build_decky base testzip fs =
     (let missing = filter (\<lambda>p. file_at fs p = None) decky_files
      in if missing \<noteq> [] then (Inl (''Decky package inputs missing: '' @ text_list (map (\<lambda>p. ''/'' @ join ''/'' (base @ p)) missing)), None)
         else (let archive = map (\<lambda>p. add_file (the (file_at fs p)) (''SteamOS-Time-Guardian/'' @ join ''/'' (tl p))) decky_files
               in (if testzip archive \<noteq> None then Inl ''Decky archive verification failed'' else Inr (), Some archive)))"

definition digest_text :: "(string \<Rightarrow> string) \<Rightarrow> string \<Rightarrow> string \<Rightarrow> string" where
  "digest_text sha256 name bytes = sha256 bytes @ ''  '' @ name @ [newline]"

lemma sort_by_path:
  assumes "mset found = mset fs" and "distinct (map rp_path fs)"
  shows "sort_key rp_path found = sort_key rp_path fs"
proof -
  have sorted: "map rp_path (sort_key rp_path xs) = sort (map rp_path xs)" for xs
    by (rule properties_for_sort [symmetric]) simp_all
  have "sort (map rp_path found) = sort (map rp_path fs)"
    by (rule properties_for_sort) (simp_all add: assms(1))
  then have "map rp_path (sort_key rp_path found) = map rp_path (sort_key rp_path fs)" by (simp add: sorted)
  moreover have "inj_on rp_path (set found \<union> set fs)"
    using assms mset_eq_setD [OF assms(1)] by (simp add: distinct_map)
  ultimately show ?thesis using map_inj_on [of rp_path "sort_key rp_path found" "sort_key rp_path fs"] by simp
qed

text \<open>C39: The archive is deterministic: files found in another order give the same archive, name by
  name, with the same dates. It has every file the rules include, under its path, and nothing
  else; building it succeeds exactly if every required file is there and no member is corrupt.\<close>

theorem archive_is_deterministic:
  assumes "mset found = mset fs" and "distinct (map rp_path fs)"
  shows "build_project resolve testzip base outputs found = build_project resolve testzip base outputs fs
    \<and> (case build_project resolve testzip base outputs found of (r, archive) \<Rightarrow>
        mset archive = image_mset (\<lambda>f. add_file f (project_name (relative_name f)))
            (filter_mset (\<lambda>f. included resolve base outputs (rp_path f)) (mset fs))
        \<and> (r = Inr () \<longleftrightarrow> project_name ` set REQUIRED_ARCHIVE_FILES \<subseteq> mb_name ` set archive \<and> testzip archive = None))"
proof -
  have same: "build_project resolve testzip base outputs found = build_project resolve testzip base outputs fs"
    unfolding build_project_def sort_by_path [OF assms] ..
  define archive where "archive = map (\<lambda>f. add_file f (project_name (relative_name f)))
    (filter (\<lambda>f. included resolve base outputs (rp_path f)) (sort_key rp_path fs))"
  define missing where "missing = filter (\<lambda>n. n \<notin> set (map mb_name archive)) (map project_name REQUIRED_ARCHIVE_FILES)"
  have built: "build_project resolve testzip base outputs fs
    = (if missing \<noteq> [] then Inl (''project archive is missing: '' @ text_list (sort missing))
       else (case testzip archive of Some bad \<Rightarrow> Inl (''corrupt member in project archive: '' @ bad) | None \<Rightarrow> Inr ()), archive)"
    by (simp only: build_project_def Let_def archive_def missing_def)
  have "missing = [] \<longleftrightarrow> project_name ` set REQUIRED_ARCHIVE_FILES \<subseteq> mb_name ` set archive"
    unfolding missing_def filter_empty_conv by (simp add: image_subset_iff)
  moreover have "mset archive = image_mset (\<lambda>f. add_file f (project_name (relative_name f)))
      (filter_mset (\<lambda>f. included resolve base outputs (rp_path f)) (mset fs))"
    by (simp add: archive_def)
  ultimately show ?thesis
    unfolding same built by (simp split: option.splits)
qed

lemma archive_is_deterministic_demo:
  "build_project (\<lambda>p. p) (\<lambda>_. None) [''repo''] [] [\<lparr>rp_path = [''b''], rp_mode = 420, rp_content = Text ''x''\<rparr>,
      \<lparr>rp_path = [''a'', ''c''], rp_mode = 493, rp_content = Binary ''y''\<rparr>]
   = build_project (\<lambda>p. p) (\<lambda>_. None) [''repo''] [] [\<lparr>rp_path = [''a'', ''c''], rp_mode = 493, rp_content = Binary ''y''\<rparr>,
      \<lparr>rp_path = [''b''], rp_mode = 420, rp_content = Text ''x''\<rparr>]"
  by (rule archive_is_deterministic [THEN conjunct1]) simp_all

section \<open>Linting\<close>

definition SKIP :: "string list" where
  "SKIP = [''.git'', ''.venv'', ''.dev'', ''node_modules'', ''__pycache__'', ''build'', ''dist'']"

definition REQUIRED :: "string list" where
  "REQUIRED = [''AGENTS.md'', ''README.md'', ''LICENSE'', ''CHANGELOG.md'', ''CONTRIBUTING.md'', ''SECURITY.md'', ''Makefile'',
     ''pyproject.toml'', ''config/config.example.json'', ''config/schema.json'', ''systemd/steamos-time-guardian.service'',
     ''decky-plugin/plugin.json'', ''decky-plugin/main.py'', ''decky-plugin/dist/index.js'', ''docs/architecture.md'',
     ''docs/sources.md'', ''docs/steam-deck-validation-plan.md'']"

definition REQUIRED_SCRIPTS :: "string list" where
  "REQUIRED_SCRIPTS = [''bootstrap-dev.sh'', ''build.sh'', ''test.sh'', ''lint.sh'', ''format.sh'', ''install-user.sh'',
     ''uninstall-user.sh'', ''start-dev.sh'', ''status.sh'', ''diagnose.sh'', ''package.sh'', ''smoke-test.sh'']"

fun starts_with :: "string \<Rightarrow> string \<Rightarrow> bool" where
  "starts_with [] s = True"
| "starts_with (c # cs) [] = False"
| "starts_with (c # cs) (d # ds) = (c = d \<and> starts_with cs ds)"

fun contains :: "string \<Rightarrow> string \<Rightarrow> bool" where
  "contains needle [] = (needle = [])"
| "contains needle (c # cs) = (starts_with needle (c # cs) \<or> contains needle cs)"

text \<open>A search for a fixed text with so many characters of a class behind it.\<close>

fun contains_key :: "string \<Rightarrow> (char \<Rightarrow> bool) \<Rightarrow> nat \<Rightarrow> string \<Rightarrow> bool" where
  "contains_key start cls n [] = (start = [] \<and> n = 0)"
| "contains_key start cls n (c # cs) = (starts_with start (c # cs)
     \<and> n \<le> length (takeWhile cls (drop (length start) (c # cs))) \<or> contains_key start cls n cs)"

definition upper_or_digit :: "char \<Rightarrow> bool" where
  "upper_or_digit c = (let n = code c in 48 \<le> n \<and> n \<le> 57 \<or> 65 \<le> n \<and> n \<le> 90)"

definition letter_or_digit :: "char \<Rightarrow> bool" where
  "letter_or_digit c = (upper_or_digit c \<or> 97 \<le> code c \<and> code c \<le> 122)"

definition SECRET_PATTERNS :: "(string \<Rightarrow> bool) list" where
  "SECRET_PATTERNS =
     [\<lambda>s. list_ex (\<lambda>kind. contains (''-----BEGIN '' @ kind @ '' PRIVATE KEY-----'') s) [''RSA'', ''OPENSSH'', ''EC''],
      contains_key ''ghp_'' letter_or_digit 30,
      contains_key ''AKIA'' upper_or_digit 16]"

text \<open>\<open>splitlines\<close> of a text without returns.\<close>

fun str_splitlines :: "string \<Rightarrow> string list" where
  "str_splitlines [] = []"
| "str_splitlines (c # cs) =
     (if code c \<in> {10, 11, 12, 13, 28, 29, 30, 133} then [] # str_splitlines cs
      else (case str_splitlines cs of [] \<Rightarrow> [[c]] | w # ws \<Rightarrow> (c # w) # ws))"

text \<open>How the script ends when it does not end with its list: a file is missing or is no text, a JSON
  file does not parse, or an exception. \<open>ast.parse\<close> gives the calls of a module, in the order of
  \<open>ast.walk\<close>.\<close>

datatype lint_failure = No_file string | No_text string | No_json string | Raised py_exc

record py_call =
  call_line :: nat
  call_method :: "(string \<times> string) option"
  call_keywords :: "(string option \<times> pyval option) list"

record parsers =
  parse_json :: "string \<Rightarrow> string + pyval"
  parse_python :: "string \<Rightarrow> string + py_call list"

definition from_name :: "string \<Rightarrow> string list" where
  "from_name path = split_on CHR ''/'' path"

definition read_text :: "repo_file list \<Rightarrow> string \<Rightarrow> lint_failure + string" where
  "read_text fs path =
     (case file_at fs (from_name path) of
        None \<Rightarrow> Inl (No_file path)
      | Some f \<Rightarrow> (case rp_content f of Binary _ \<Rightarrow> Inl (No_text path) | Text t \<Rightarrow> Inr (universal_newlines t)))"

definition lint_script :: "repo_file list \<Rightarrow> string \<Rightarrow> lint_failure + string list" where
  "lint_script fs name =
     (let path = ''scripts/'' @ name
      in case file_at fs (from_name path) of
           None \<Rightarrow> Inr [''missing required script: '' @ path]
         | Some f \<Rightarrow> (case read_text fs path of
             Inl e \<Rightarrow> Inl e
           | Inr t \<Rightarrow> (let first_lines = take 8 (str_splitlines t)
               in Inr ((if rp_mode f div 64 mod 2 = 0 then [''script is not executable: '' @ path] else [])
                 @ (if first_lines = [] \<or> \<not> starts_with ''#!'' (hd first_lines) then [''script lacks shebang: '' @ path] else [])
                 @ (if \<not> list_ex (contains ''set -euo pipefail'') first_lines
                    then [''script lacks strict mode near top: '' @ path] else [])))))"

fun collect :: "('e + 'a list) list \<Rightarrow> 'e + 'a list" where
  "collect [] = Inr []"
| "collect (Inl e # rs) = Inl e"
| "collect (Inr xs # rs) = (case collect rs of Inl e \<Rightarrow> Inl e | Inr ys \<Rightarrow> Inr (xs @ ys))"

definition lint_call :: "string \<Rightarrow> py_call \<Rightarrow> string list" where
  "lint_call name c =
     (if call_method c = Some (''os'', ''system'') then [''os.system is forbidden in '' @ name @ '':'' @ nat_str (call_line c)] else [])
     @ concat (map (\<lambda>(arg, val). if arg = Some ''shell'' \<and> val = Some (PBool True)
         then [''shell=True is forbidden in '' @ name @ '':'' @ nat_str (call_line c)] else []) (call_keywords c))"

text \<open>One file; \<open>base\<close> is the repository's directory, as the parts below \<open>/\<close>.\<close>

definition lint_file :: "parsers \<Rightarrow> string list \<Rightarrow> repo_file \<Rightarrow> string list" where
  "lint_file ps base f =
     (case rp_content f of
        Binary _ \<Rightarrow> []
      | Text t \<Rightarrow>
          (let relative = relative_name f; t = universal_newlines t; suffix = suffix_of (file_name (rp_path f))
           in (if contains ''/mnt/data/'' t \<or> contains (''/'' @ join ''/'' base) t
               then [''environment-specific absolute path in '' @ relative] else [])
            @ map (\<lambda>_. ''possible secret in '' @ relative) (filter (\<lambda>pattern. pattern t) SECRET_PATTERNS)
            @ (if suffix = ''.json''
               then (case parse_json ps t of Inl m \<Rightarrow> [''invalid JSON in '' @ relative @ '': '' @ m] | Inr _ \<Rightarrow> []) else [])
            @ (if suffix = ''.py''
               then (case parse_python ps t of Inl m \<Rightarrow> [''invalid Python in '' @ relative @ '': '' @ m]
                     | Inr calls \<Rightarrow> concat (map (lint_call relative) calls)) else [])))"

definition read_json :: "parsers \<Rightarrow> repo_file list \<Rightarrow> string \<Rightarrow> lint_failure + pyval" where
  "read_json ps fs path =
     (case read_text fs path of
        Inl e \<Rightarrow> Inl e
      | Inr t \<Rightarrow> (case parse_json ps t of Inl m \<Rightarrow> Inl (No_json m) | Inr v \<Rightarrow> Inr v))"

text \<open>\<open>set(..)\<close> of the flags, \<open>v[key]\<close>, and the three last checks.\<close>

definition py_set :: "pyval \<Rightarrow> py_exc + pyval set" where
  "py_set v =
     (case py_iter v of
        Inl e \<Rightarrow> Inl e
      | Inr vs \<Rightarrow> (if list_ex (\<lambda>x. case x of PList _ \<Rightarrow> True | PDict _ \<Rightarrow> True | _ \<Rightarrow> False) vs
          then Inl (TypeError ''unhashable type'') else Inr (set vs)))"

definition py_item :: "string \<Rightarrow> pyval \<Rightarrow> py_exc + pyval" where
  "py_item key v = (case v of PDict kvs \<Rightarrow> item_of key kvs | _ \<Rightarrow> Inl (TypeError ''indices must be integers''))"

fun or_else :: "'e + bool \<Rightarrow> 'e + bool \<Rightarrow> 'e + bool" where
  "or_else (Inr False) b = b"
| "or_else a b = a"

definition lint_plugin :: "pyval \<Rightarrow> py_exc + string list" where
  "lint_plugin plugin =
     (case py_get ''flags'' (PList []) plugin of
        Inl e \<Rightarrow> Inl e
      | Inr v \<Rightarrow> (case py_set v of
          Inl e \<Rightarrow> Inl e
        | Inr flags \<Rightarrow> Inr (if PStr ''root'' \<in> flags \<or> PStr ''_root'' \<in> flags
            then [''Decky plugin must remain rootless''] else [])))"

definition lint_unit :: "string \<Rightarrow> string list" where
  "lint_unit t =
     (if \<not> contains ''NoNewPrivileges=yes'' t \<or> \<not> contains ''ExecStart=%h/.local/bin/steamos-time-guardian'' t
      then [''systemd unit is missing expected user-service hardening''] else [])"

definition lint_defaults :: "pyval \<Rightarrow> py_exc + string list" where
  "lint_defaults config =
     (case py_item ''restriction'' config of
        Inl e \<Rightarrow> Inl e
      | Inr r \<Rightarrow> (case or_else (map_sum id (\<lambda>v. v \<noteq> PBool False) (py_item ''force_kill_enabled'' r))
                    (map_sum id (\<lambda>v. number_of v \<noteq> Some 0) (py_item ''level'' r)) of
          Inl e \<Rightarrow> Inl e
        | Inr changed \<Rightarrow> Inr (if changed then [''safe default restriction settings changed''] else [])))"

text \<open>\<open>main\<close>: the exit status and the lines printed.\<close>

definition linted :: "repo_file list \<Rightarrow> repo_file list" where
  "linted fs = filter (\<lambda>f. \<not> in_dirs SKIP (rp_path f)) fs"

definition lint_errors :: "parsers \<Rightarrow> string list \<Rightarrow> repo_file list \<Rightarrow> lint_failure + string list" where
  "lint_errors ps base fs = collect
     (map (\<lambda>path. Inr (if file_at fs (from_name path) = None then [''missing required file: '' @ path] else [])) (sort REQUIRED)
      @ map (lint_script fs) (sort REQUIRED_SCRIPTS)
      @ map (\<lambda>f. Inr (lint_file ps base f)) (linted fs)
      @ [case read_json ps fs ''decky-plugin/plugin.json'' of Inl e \<Rightarrow> Inl e | Inr v \<Rightarrow> map_sum Raised id (lint_plugin v),
         map_sum id lint_unit (read_text fs ''systemd/steamos-time-guardian.service''),
         case read_json ps fs ''config/config.example.json'' of Inl e \<Rightarrow> Inl e | Inr v \<Rightarrow> map_sum Raised id (lint_defaults v)])"

definition lint_repo :: "parsers \<Rightarrow> string list \<Rightarrow> repo_file list \<Rightarrow> lint_failure + nat \<times> string list" where
  "lint_repo ps base fs = map_sum id (\<lambda>errors.
     if errors \<noteq> [] then (1, ''Repository lint failed:'' # map (append ''- '') errors)
     else (0, [''repository lint passed ('' @ nat_str (length (linted fs)) @ '' checked files)''])) (lint_errors ps base fs)"

section \<open>What passing the lint means\<close>

lemma collect_none: "collect rs = Inr [] \<longleftrightarrow> list_all (\<lambda>r. r = Inr []) rs"
  by (induction rs rule: collect.induct) (auto split: sum.splits)

lemma passed_errors: "lint_repo ps base fs = Inr (0, out) \<Longrightarrow> lint_errors ps base fs = Inr []"
  by (cases "lint_errors ps base fs") (auto simp: lint_repo_def split: if_splits)

lemma script_passed:
  assumes "lint_script fs name = Inr []"
  shows "\<exists>f. file_at fs (from_name (''scripts/'' @ name)) = Some f \<and> rp_mode f div 64 mod 2 = 1"
  using assms by (auto simp: lint_script_def Let_def split: option.splits sum.splits if_splits)

lemma file_passed:
  assumes "lint_file ps base f = []" "rp_content f = Text t"
  shows "list_all (\<lambda>pattern. \<not> pattern (universal_newlines t)) SECRET_PATTERNS"
    "\<lbrakk>suffix_of (file_name (rp_path f)) = ''.py''; parse_python ps (universal_newlines t) = Inr calls; c \<in> set calls\<rbrakk>
      \<Longrightarrow> lint_call (relative_name f) c = []"
  using assms by (auto simp: lint_file_def Let_def list_all_iff filter_empty_conv)

lemma call_passed:
  assumes "lint_call name c = []"
  shows "call_method c \<noteq> Some (''os'', ''system'') \<and> (Some ''shell'', Some (PBool True)) \<notin> set (call_keywords c)"
  using assms by (auto simp: lint_call_def split: if_splits)

text \<open>A lint that passes is a guarantee: every required file is there, every required script can
  be executed, no text that is looked at holds a key of the three kinds, and no Python file that
  is looked at calls \<open>os.system\<close> or passes \<open>shell=True\<close>.\<close>

theorem lint_passed_is_safe:
  assumes "lint_repo ps base fs = Inr (0, out)"
  shows "(\<forall>path \<in> set REQUIRED. file_at fs (from_name path) \<noteq> None)
    \<and> (\<forall>name \<in> set REQUIRED_SCRIPTS. \<exists>f. file_at fs (from_name (''scripts/'' @ name)) = Some f \<and> rp_mode f div 64 mod 2 = 1)
    \<and> (\<forall>f \<in> set (linted fs). \<forall>t. rp_content f = Text t \<longrightarrow>
        list_all (\<lambda>pattern. \<not> pattern (universal_newlines t)) SECRET_PATTERNS
        \<and> (\<forall>calls. suffix_of (file_name (rp_path f)) = ''.py'' \<and> parse_python ps (universal_newlines t) = Inr calls \<longrightarrow>
            (\<forall>c \<in> set calls. call_method c \<noteq> Some (''os'', ''system'')
              \<and> (Some ''shell'', Some (PBool True)) \<notin> set (call_keywords c))))"
proof -
  note every = passed_errors [OF assms, unfolded lint_errors_def collect_none list_all_append]
  note all = every [THEN conjunct1] every [THEN conjunct2, THEN conjunct1] every [THEN conjunct2, THEN conjunct2, THEN conjunct1]
  have "\<forall>path \<in> set REQUIRED. file_at fs (from_name path) \<noteq> None"
    using all(1) by (auto simp: list_all_iff split: if_splits)
  moreover have "\<forall>name \<in> set REQUIRED_SCRIPTS. \<exists>f. file_at fs (from_name (''scripts/'' @ name)) = Some f \<and> rp_mode f div 64 mod 2 = 1"
    using all(2) script_passed by (simp add: list_all_iff)
  moreover have "\<forall>f \<in> set (linted fs). lint_file ps base f = []"
    using all(3) by (simp add: list_all_iff)
  ultimately show ?thesis using file_passed call_passed by blast
qed

definition demo_required :: "repo_file list" where
  "demo_required =
     map (\<lambda>path. \<lparr>rp_path = from_name path, rp_mode = 420, rp_content = Text
       (if path = ''systemd/steamos-time-guardian.service''
        then ''NoNewPrivileges=yes ExecStart=%h/.local/bin/steamos-time-guardian'' else [])\<rparr>) REQUIRED"

definition demo_text :: string where
  "demo_text = ''#!'' @ newline # ''set -euo pipefail''"

definition demo_script :: "string \<Rightarrow> repo_file" where
  "demo_script name = \<lparr>rp_path = from_name (''scripts/'' @ name), rp_mode = 493, rp_content = Text demo_text\<rparr>"

definition demo_files :: "repo_file list" where
  "demo_files = demo_required @ map demo_script REQUIRED_SCRIPTS"

definition demo_parsers :: parsers where
  "demo_parsers = \<lparr>parse_json = (\<lambda>t. Inr (PDict [(''restriction'', PDict [(''force_kill_enabled'', PBool False), (''level'', PInt 0)])])),
     parse_python = (\<lambda>t. Inr [\<lparr>call_line = 1, call_method = Some (''os'', ''getuid''), call_keywords = []\<rparr>])\<rparr>"

text \<open>The scripts have one text, which is looked at once.\<close>

lemma plain_file:
  assumes "rp_content f = Text t" "suffix_of (file_name (rp_path f)) \<notin> {''.json'', ''.py''}"
    and "\<not> contains ''/mnt/data/'' (universal_newlines t)" "\<not> contains (''/'' @ join ''/'' base) (universal_newlines t)"
    and "list_all (\<lambda>pattern. \<not> pattern (universal_newlines t)) SECRET_PATTERNS"
  shows "lint_file ps base f = []"
  using assms by (simp add: lint_file_def list_all_iff filter_empty_conv)

lemma demo_scripts_plain: "list_all (\<lambda>name. lint_file ps [''repo''] (demo_script name) = []) REQUIRED_SCRIPTS"
proof -
  have suffix: "list_all (\<lambda>name. suffix_of (file_name (from_name (''scripts/'' @ name))) \<notin> {''.json'', ''.py''}) REQUIRED_SCRIPTS"
    by code_simp
  have looks: "\<not> contains ''/mnt/data/'' (universal_newlines demo_text)"
    "\<not> contains (''/'' @ join ''/'' [''repo'']) (universal_newlines demo_text)"
    "list_all (\<lambda>pattern. \<not> pattern (universal_newlines demo_text)) SECRET_PATTERNS"
    by code_simp+
  show ?thesis
    unfolding list_all_iff
  proof
    fix name assume "name \<in> set REQUIRED_SCRIPTS"
    then have "suffix_of (file_name (rp_path (demo_script name))) \<notin> {''.json'', ''.py''}"
      using suffix by (simp add: list_all_iff demo_script_def)
    with looks show "lint_file ps [''repo''] (demo_script name) = []"
      by (intro plain_file [where t = demo_text]) (simp_all add: demo_script_def)
  qed
qed

lemma all_sorted: "list_all p (map f (sort xs)) = list_all (\<lambda>x. p (f x)) xs" for xs :: "string list"
  by (simp add: list_all_iff)

lemma demo_passes: "lint_errors demo_parsers [''repo''] demo_files = Inr []"
proof -
  have "list_all (\<lambda>path. file_at demo_files (from_name path) \<noteq> None) REQUIRED" by code_simp
  then have "list_all (\<lambda>path. Inr (if file_at demo_files (from_name path) = None then [''missing required file: '' @ path] else [])
      = (Inr [] :: lint_failure + string list)) REQUIRED"
    by (simp add: list_all_iff)
  moreover have "list_all (\<lambda>name. lint_script demo_files name = Inr []) REQUIRED_SCRIPTS" by code_simp
  moreover have "list_all (\<lambda>f. lint_file demo_parsers [''repo''] f = []) demo_required" by code_simp
  then have "list_all (\<lambda>f. lint_file demo_parsers [''repo''] f = []) demo_files"
    using demo_scripts_plain [of demo_parsers] by (auto simp: demo_files_def list_all_iff)
  then have "list_all (\<lambda>f. (Inr (lint_file demo_parsers [''repo''] f) :: lint_failure + string list) = Inr []) (linted demo_files)"
    by (simp add: linted_def list_all_iff)
  moreover have "(case read_json demo_parsers demo_files ''decky-plugin/plugin.json'' of Inl e \<Rightarrow> Inl e
      | Inr v \<Rightarrow> map_sum Raised id (lint_plugin v)) = Inr []"
    by code_simp
  moreover have "map_sum id lint_unit (read_text demo_files ''systemd/steamos-time-guardian.service'') = Inr []" by code_simp
  moreover have "read_text demo_files ''config/config.example.json'' = Inr []" by code_simp
  then have "read_json demo_parsers demo_files ''config/config.example.json''
      = Inr (PDict [(''restriction'', PDict [(''force_kill_enabled'', PBool False), (''level'', PInt 0)])])"
    by (simp add: read_json_def demo_parsers_def)
  then have "(case read_json demo_parsers demo_files ''config/config.example.json'' of Inl e \<Rightarrow> Inl e
      | Inr v \<Rightarrow> map_sum Raised id (lint_defaults v)) = Inr []"
    by (simp add: lint_defaults_def py_item_def item_of_def)
  ultimately show ?thesis
    unfolding lint_errors_def collect_none list_all_append all_sorted by (simp add: list.pred_map comp_def)
qed

lemma lint_passed_is_safe_demo:
  "\<forall>name \<in> set REQUIRED_SCRIPTS. \<exists>f. file_at demo_files (from_name (''scripts/'' @ name)) = Some f \<and> rp_mode f div 64 mod 2 = 1"
proof -
  have "lint_repo demo_parsers [''repo''] demo_files
    = Inr (0, [''repository lint passed ('' @ nat_str (length (linted demo_files)) @ '' checked files)''])"
    by (simp add: lint_repo_def demo_passes)
  from lint_passed_is_safe [OF this] show ?thesis by blast
qed

text \<open>What is packaged is not all looked at: the lint leaves out \<open>dist\<close> below any directory, the
  archive only the one at the top.\<close>

lemma packaged_not_linted:
  "included (\<lambda>p. p) base [] [''decky-plugin'', ''dist'', ''index.js'']
   \<and> (\<forall>f \<in> set (linted fs). rp_path f \<noteq> [''decky-plugin'', ''dist'', ''index.js''])"
proof
  show "included (\<lambda>p. p) base [] [''decky-plugin'', ''dist'', ''index.js'']"
    by (simp add: included_def in_dirs_def EXCLUDED_PARTS_def EXCLUDED_NAMES_def EXCLUDED_SUFFIXES_def file_name_def ends_with_def
      suffix_of_def Let_def)
  show "\<forall>f \<in> set (linted fs). rp_path f \<noteq> [''decky-plugin'', ''dist'', ''index.js'']"
    by (auto simp: linted_def in_dirs_def SKIP_def)
qed

end
