(* ===== verification/Support.thy ===== *)
theory Support
  imports Host Tools
begin

text \<open>
  \<open>tools/support_bundle.py\<close>, the files a user may send to others, and \<open>tools/steam_deck_simulator.py\<close>.
  The lemmas: what is redacted never shows the home directory, and what is left in the bundle.
\<close>

section \<open>Redaction\<close>

text \<open>\<open>re.sub\<close> of the name between word boundaries; \<open>prev\<close> is the character before.\<close>

function sub_word :: "string \<Rightarrow> string \<Rightarrow> char option \<Rightarrow> string \<Rightarrow> string" where
  "sub_word name new prev [] = []"
| "sub_word name new prev (c # cs) =
     (let rest = drop (length name) (c # cs)
      in if name \<noteq> [] \<and> starts_with name (c # cs) \<and> is_word prev \<noteq> is_word (Some c)
            \<and> is_word (Some (last name)) \<noteq> is_word (case rest of [] \<Rightarrow> None | d # _ \<Rightarrow> Some d)
         then new @ sub_word name new (Some (last name)) rest else c # sub_word name new (Some c) cs)"
  by pat_completeness auto
termination
  by (relation "measure (\<lambda>(name, new, prev, s). length s)") (auto simp: Suc_le_eq)

declare sub_word.simps(2) [simp del]

definition redact :: "string \<Rightarrow> string \<Rightarrow> string \<Rightarrow> string" where
  "redact home username t =
     (let result = str_replace home ''$HOME'' t
      in if username \<noteq> [] then sub_word username ''$USER'' None result else result)"

lemma starts_take: "starts_with p s = (take (length p) s = p)"
  by (induction p s rule: starts_with.induct) auto

lemma contains_skip: "h \<noteq> [] \<Longrightarrow> hd h \<notin> set new \<Longrightarrow> contains h (new @ s) = contains h s"
proof (induction new)
  case (Cons c cs)
  then have "\<not> starts_with h (c # cs @ s)" by (cases h) auto
  with Cons show ?case by simp
qed simp

lemma contains_drop: "contains h (drop n s) \<Longrightarrow> contains h s"
proof (induction s arbitrary: n)
  case (Cons c cs)
  then show ?case by (cases n) auto
qed simp

text \<open>A text without the first character of the replacement begins the result only where it began the
  text before.\<close>

lemma starts_replaced: "d \<notin> set p \<Longrightarrow> starts_with p (str_replace old (d # new) s) \<Longrightarrow> starts_with p s"
proof (induction s arbitrary: p)
  case Nil
  then show ?case by (simp add: str_replace.simps)
next
  case (Cons c cs)
  then show ?case
    by (cases p) (subst (asm) (2) str_replace.simps, auto split: if_splits)+
qed

lemma sub_word_Cons:
  obtains "sub_word name new prev (c # cs) = c # sub_word name new (Some c) cs"
  | m where "name \<noteq> []" "sub_word name new prev (c # cs) = new @ sub_word name new m (drop (length name) (c # cs))"
proof (cases "sub_word name new prev (c # cs) = c # sub_word name new (Some c) cs")
  case False
  then have "name \<noteq> [] \<and> sub_word name new prev (c # cs) = new @ sub_word name new (Some (last name)) (drop (length name) (c # cs))"
    by (simp add: sub_word.simps(2) Let_def split: if_splits)
  then show thesis using that(2) by blast
qed (rule that(1))

lemma starts_subbed: "d \<notin> set p \<Longrightarrow> starts_with p (sub_word name (d # new) prev s) \<Longrightarrow> starts_with p s"
proof (induction s arbitrary: p prev)
  case (Cons c cs)
  then show ?case
    by (cases p; cases rule: sub_word_Cons [of name "d # new" prev c cs]) auto
qed simp

lemma str_replace_Cons:
  "str_replace old new (c # cs) = (if old \<noteq> [] \<and> starts_with old (c # cs)
     then new @ str_replace old new (drop (length old) (c # cs)) else c # str_replace old new cs)"
  by (subst str_replace.simps) (simp add: starts_take del: starts_with.simps)

lemma replaced_away:
  assumes "h \<noteq> []" "d \<notin> set h" "hd h \<notin> set (d # new)"
  shows "\<not> contains h (str_replace h (d # new) s)"
proof (induction s rule: length_induct)
  case (1 s)
  show ?case
  proof (cases s)
    case (Cons c cs)
    show ?thesis
    proof (cases "starts_with h (c # cs)")
      case True
      then have replaced: "str_replace h (d # new) s = (d # new) @ str_replace h (d # new) (drop (length h) s)"
        using Cons assms(1) by (simp only: str_replace_Cons) simp
      have "length (drop (length h) s) < length s" using Cons assms(1) by (cases h) auto
      with 1 show ?thesis unfolding replaced contains_skip [OF assms(1,3)] by blast
    next
      case False
      then have kept: "str_replace h (d # new) s = c # str_replace h (d # new) cs"
        using Cons by (simp only: str_replace_Cons) simp
      have "\<not> starts_with h (c # str_replace h (d # new) cs)"
      proof
        assume "starts_with h (c # str_replace h (d # new) cs)"
        then obtain h' where "h = c # h'" "starts_with h' (str_replace h (d # new) cs)" using assms(1) by (cases h) auto
        with False assms(2) starts_replaced [of d h' h new cs] show False by auto
      qed
      with 1 Cons show ?thesis unfolding kept by simp
    qed
  qed (simp add: str_replace.simps assms(1))
qed

lemma subbed_away:
  assumes "h \<noteq> []" "d \<notin> set h" "hd h \<notin> set (d # new)" "\<not> contains h s"
  shows "\<not> contains h (sub_word name (d # new) prev s)"
  using assms(4)
proof (induction s arbitrary: prev rule: length_induct)
  case (1 s)
  show ?case
  proof (cases s)
    case (Cons c cs)
    show ?thesis
    proof (cases rule: sub_word_Cons [of name "d # new" prev c cs])
      case 1
      have "\<not> starts_with h (c # sub_word name (d # new) (Some c) cs)"
      proof
        assume "starts_with h (c # sub_word name (d # new) (Some c) cs)"
        then obtain h' where h: "h = c # h'" "starts_with h' (sub_word name (d # new) (Some c) cs)" using assms(1) by (cases h) auto
        with assms(2) have "starts_with h' cs" using starts_subbed [of d h' name new "Some c" cs] by simp
        with h Cons "1.prems" show False by simp
      qed
      moreover have "\<not> contains h (sub_word name (d # new) (Some c) cs)" using "1.IH" "1.prems" Cons by simp
      ultimately show ?thesis using 1 Cons by simp
    next
      case (2 m)
      have "length (drop (length name) s) < length s" using 2(1) Cons by (cases name) auto
      moreover have "\<not> contains h (drop (length name) s)" using "1.prems" contains_drop by blast
      ultimately have "\<not> contains h (sub_word name (d # new) m (drop (length name) s))" using "1.IH" by blast
      moreover have "sub_word name (d # new) prev s = (d # new) @ sub_word name (d # new) m (drop (length name) s)"
        using 2(2) Cons by simp
      ultimately show ?thesis by (simp only: contains_skip [OF assms(1,3)] not_False_eq_True)
    qed
  qed (simp add: assms(1))
qed

lemma redacted_home_away:
  assumes "home = ''/'' @ below" and "CHR ''$'' \<notin> set below"
  shows "\<not> contains home (redact home username t)"
proof -
  have h: "home \<noteq> []" "CHR ''$'' \<notin> set home" "hd home \<notin> set (CHR ''$'' # ''HOME'')" "hd home \<notin> set (CHR ''$'' # ''USER'')"
    using assms by simp_all
  show ?thesis
    unfolding redact_def Let_def using replaced_away [OF h(1-3)] subbed_away [OF h(1,2,4) replaced_away [OF h(1-3)]] by simp
qed

section \<open>The bundle\<close>

definition pop_key :: "string \<Rightarrow> pyval \<Rightarrow> pyval" where
  "pop_key key v = (case v of PDict kvs \<Rightarrow> PDict (filter (\<lambda>kv. fst kv \<noteq> key) kvs) | _ \<Rightarrow> v)"

text \<open>What the service answers to the request for diagnostics: its value, or the code of an error.\<close>

definition live_diagnostics :: "string + (string \<times> pyval) list \<Rightarrow> pyval" where
  "live_diagnostics answer =
     (case answer of
        Inl code_text \<Rightarrow> PDict [(''service_available'', PBool False), (''error'', PStr code_text)]
      | Inr data \<Rightarrow> pop_key ''recent_events''
          (PDict (map (\<lambda>kv. if fst kv = ''status'' then (fst kv, pop_key ''game'' (snd kv)) else kv) data)))"

text \<open>The configuration as far as its file can be read.\<close>

definition sanitized_config :: "pyval option \<Rightarrow> py_exc + pyval" where
  "sanitized_config file =
     (case file of
        None \<Rightarrow> Inr (PDict [(''available'', PBool False)])
      | Some data \<Rightarrow> (case py_get ''detector'' (PDict []) data of
          Inl e \<Rightarrow> Inl e
        | Inr detector \<Rightarrow> (case py_get ''steam_log_path'' PNone detector of
            Inl e \<Rightarrow> Inl e
          | Inr path \<Rightarrow>
              if path \<in> {PNone, PStr ''auto''} then Inr data
              else (case path of PList _ \<Rightarrow> Inl (TypeError ''unhashable type: list'') | PDict _ \<Rightarrow> Inl (TypeError ''unhashable type: dict'')
                | _ \<Rightarrow> Inr (set_entry ''detector'' (set_entry ''steam_log_path'' (PStr ''$REDACTED_PATH'') detector) data)))))"

datatype command_end = Unavailable string | Output string string

definition command_output :: "(string \<Rightarrow> string) \<Rightarrow> command_end \<Rightarrow> string" where
  "command_output red e =
     (case e of Unavailable m \<Rightarrow> ''unavailable: '' @ m @ [newline]
      | Output out err \<Rightarrow> red (drop (length (out @ err) - 50000) (out @ err)))"

record bundle_input =
  bi_generated :: string
  bi_version :: string
  bi_answer :: "string + (string \<times> pyval) list"
  bi_config :: "pyval option"
  bi_platform :: string
  bi_release :: command_end
  bi_status :: command_end
  bi_journal :: command_end
  bi_log :: "string option"

definition last_lines :: "nat \<Rightarrow> string list \<Rightarrow> string list" where
  "last_lines n ls = drop (length ls - n) ls"

definition bundle_manifest :: "bundle_input \<Rightarrow> string" where
  "bundle_manifest b = json_items ''{'' ''}'' 0
     (map (\<lambda>kt. json_string json_char (fst kt) @ '': '' @ snd kt)
       [(''bundle_schema'', ''1''), (''generated_at'', json_string json_char (bi_generated b)),
        (''project_version'', json_string json_char (bi_version b)), (''contains_history'', ''false''),
        (''contains_database'', ''false'')]) @ [newline]"

definition bundle_files :: "(real \<Rightarrow> string) \<Rightarrow> string \<Rightarrow> string \<Rightarrow> bundle_input \<Rightarrow> py_exc + (string \<times> string) list" where
  "bundle_files fr home username b =
     (case sanitized_config (bi_config b) of
        Inl e \<Rightarrow> Inl e
      | Inr settings \<Rightarrow>
          (let red = redact home username
           in Inr ([(''manifest.json'', bundle_manifest b),
               (''diagnostics.json'', json_text json_char fr 0 (live_diagnostics (bi_answer b)) @ [newline]),
               (''config-sanitized.json'', json_text json_char fr 0 settings @ [newline]),
               (''platform.txt'', red (bi_platform b)),
               (''os-release.txt'', command_output red (bi_release b)),
               (''systemd-status.txt'', command_output red (bi_status b)),
               (''journal.txt'', command_output red (bi_journal b))]
             @ (case bi_log b of None \<Rightarrow> []
                | Some t \<Rightarrow> [(''daemon-log-tail.jsonl'', red (join [newline] (last_lines 200 (str_splitlines t)) @ [newline]))]))))"

text \<open>The names of the games the user has told to ignore are in the bundle.\<close>

lemma bundle_names_games:
  assumes "dict_get ''detector'' data = Some detector" "data = PDict kvs" "detector = PDict ds"
    and "dict_get ''steam_log_path'' detector = Some (PStr ''auto'')" "dict_get ''ignored_names'' detector = Some games"
  shows "\<exists>d. sanitized_config (Some data) = Inr d \<and> (\<exists>ds'. dict_get ''detector'' d = Some ds' \<and> dict_get ''ignored_names'' ds' = Some games)"
  using assms by (simp add: sanitized_config_def py_get_def dict_get_def)

definition it_ran :: "command_end \<Rightarrow> bool" where
  "it_ran e = (case e of Unavailable _ \<Rightarrow> False | Output _ _ \<Rightarrow> True)"

lemma command_redacted:
  "it_ran e \<Longrightarrow> (\<And>t. \<not> contains home (red t)) \<Longrightarrow> \<not> contains home (command_output red e)"
  by (cases e) (simp_all add: it_ran_def command_output_def)


definition demo_bundle :: bundle_input where
  "demo_bundle = \<lparr>bi_generated = ''2026'', bi_version = ''0.1.0'', bi_answer = Inl ''service_unavailable'', bi_config = None,
     bi_platform = ''Linux'', bi_release = Output ''NAME=SteamOS'' [], bi_status = Output ''/home/home/deck/deck'' [],
     bi_journal = Output [] ''/home/deck/x'', bi_log = None\<rparr>"


section \<open>The simulator\<close>

definition emit_call :: "string \<Rightarrow> (string \<times> pyval) list \<Rightarrow> string \<times> (string \<times> pyval) list" where
  "emit_call event extra = (''simulation.emit'', (''event'', PStr event) # extra)"

definition scenario_calls :: "string \<Rightarrow> py_exc + (string \<times> (string \<times> pyval) list) list" where
  "scenario_calls name =
     (let started = (\<lambda>app game. emit_call ''game_started'' [(''app_id'', PStr app), (''name'', PStr game)])
      in if name = ''normal-session''
         then Inr [started ''424242'' ''Simulated Deck Game'',
           (''timer.start'', [(''seconds'', PInt 300), (''action'', PStr ''inherit'')]),
           emit_call ''suspend'' [], emit_call ''resume'' [], emit_call ''game_stopped'' []]
         else if name = ''limit-and-close''
         then Inr [started ''424243'' ''Limit Scenario'', emit_call ''limit_reached'' [], emit_call ''close_success'' []]
         else if name = ''unresponsive-game''
         then Inr [started ''424244'' ''Unresponsive Scenario'', emit_call ''limit_reached'' [], emit_call ''game_unresponsive'' []]
         else if name = ''restart-checkpoint''
         then Inr [started ''424245'' ''Restart Scenario'', emit_call ''service_restart_checkpoint'' []]
         else Inl (ValueError (''unknown scenario: '' @ name)))"

end
