(* ===== verification/Spec2Isabelle.thy ===== *)
theory Spec2Isabelle
  imports Components Restraint Settings Detectors EventBus Export Serving Talk Cli Tui Decky Follow Procfs Database ConfigFile LogSources Host Support Tools
begin

text \<open>
  A verification library for the play-time guardian daemon (\<open>daemon/src/stg\<close>): the engine
  that charges play time to accounting days and runs the session timer, the detectors that feed it,
  the enforcement it arms, the service that holds them together, and the three clients of its
  socket: the command line, the text interface and the Decky plugin.

  Foundations. \<open>Prelude\<close> has the programs: state-passing functions that return a value or
  raise a Python exception, keeping the mutations made before the raise, with a weakest
  precondition calculus (\<open>wp\<close>), invariants (\<open>holds\<close>) and absence of raises (\<open>surely\<close>).
  \<open>PyStr\<close> and \<open>Calendar\<close> model what the code uses of the Python library: string methods on
  8-bit characters, proleptic Gregorian dates, instants in microseconds, ISO texts and time zones
  as offset tables.

  Engine. \<open>Models\<close> is \<open>models.py\<close>, \<open>clock.py\<close> and the validated configuration;
  \<open>Schedule\<close> is \<open>schedule.py\<close>; \<open>Storage\<close>, \<open>Activity\<close> and \<open>Export\<close> are \<open>storage.py\<close>;
  \<open>I18n\<close> is \<open>i18n.py\<close>; \<open>Config\<close> is \<open>config.py\<close>; \<open>Engine\<close> is \<open>engine.py\<close>, one program
  per method. \<open>Ledger\<close>: what every storage method does to sessions, day totals, timer, marks and
  buckets, and the session store and mark store as locales, interpreted on the tables.
  \<open>EngineInv\<close>: the invariant that ties the engine's memory to the tables and its preservation
  by every operation, raises included. \<open>EngineRun\<close>: the engine over time as a step relation
  (requests, clock readings, restarts) and the invariant in every reachable state. \<open>Tick\<close>:
  what one tick charges, and that it settles the state. \<open>Buckets\<close>: the activity queue, and that
  ticks do not raise. \<open>Settings\<close>: what validation accepts is well formed, and loading recovers.

  The files. \<open>Database\<close> is how \<open>storage.py\<close> opens its file: the migrations as scripts of statements
  on a schema, the backup, and the file moved aside as corrupt; whatever fails, no rows are lost and
  the next start can go on. \<open>ConfigFile\<close> is \<open>ConfigStore\<close> as steps on files that a crash can cut off.

  Around the engine. \<open>SteamLog\<close>, \<open>Follow\<close>, \<open>LogSources\<close>, \<open>Procfs\<close> and \<open>Detectors\<close> are \<open>detectors/\<close>:
  the parser with its regular expressions, the follower of the log, the inotify events as 32-bit
  words that wake it and the manifests with the names of the games, the process scan, and the
  arbitration among detectors. \<open>Process\<close>, \<open>Enforcement\<close> and \<open>Restraint\<close> are \<open>enforcement.py\<close>: which
  processes may be signalled, the coroutine of the manager cut at its awaits, and the order of its
  escalation. \<open>EventBus\<close> is \<open>events.py\<close>.

  The service. \<open>Service\<close> is \<open>service.py\<close>, one program per request, event and round; \<open>Served\<close>:
  every one of them keeps the engine's invariant, over the service's own step relation;
  \<open>Dispatched\<close>, \<open>Launch\<close> and \<open>Serving\<close>: what a dispatch leads to, from the event of a detector to
  the armed flow and the published event.

  The socket and its clients. \<open>Wire\<close> is the messages as bytes and lines, \<open>Ipc\<close> is \<open>ipc.py\<close>, the
  server as a function of what a peer sends and the client as one of what it receives, with the
  handler of requests as a locale; \<open>Talk\<close> interprets it on the service and composes the two ends.
  \<open>Cli\<close> is \<open>cli.py\<close> behind its argument parser, \<open>Tui\<close> is \<open>tui.py\<close>, \<open>Decky\<close> is
  \<open>decky-plugin/main.py\<close>. \<open>Demo\<close> holds concrete inputs; the properties stand in the theories of
  their components, in \<open>Components\<close> and here.

  The host and the scripts. \<open>Host\<close> is what the daemon takes from its system: \<open>paths.py\<close>,
  \<open>system_timezone\<close>, the socket's path, \<open>logging_setup.py\<close>, \<open>notifications.py\<close>, \<open>diagnostics.py\<close> and the
  simulation detector, with the answers of the system as arguments. \<open>Tools\<close> and \<open>Support\<close> are the
  scripts under \<open>tools\<close> as functions of the files of the repository: formatting is idempotent, the
  package deterministic, a passing lint a guarantee, and the support bundle free of the home path.

  Idealisations: a Python \<open>float\<close> is a real number; the clock stands still while one operation
  runs; the values of \<open>uuid4\<close> are a supply assumed injective where that matters; SQLite executes
  each statement as its text says; a dispatch follows the locked part of its request without
  another request in between; \<open>json.loads\<close> and the decoders of bytes are arguments, and what a
  theorem needs of them is one of its hypotheses; characters have 8 bits, so that the arrows of the
  text interface are arguments too. Loops: the bucket loop is total with the measure of the
  microseconds left; the probe for a block change has the code's own bound of 242 minutes; the
  loops over a stream have the measure of the bytes left.

  Not modelled: the PRAGMAs of a connection and the sidecar files of the database; setting up the
  inotify watch through libc; the timeouts of the socket's clients; the argument parsers and their
  help texts; the zone database, \<open>zipfile\<close>, \<open>ast\<close> and the probes of the system, which are arguments;
  signals and the asyncio tasks themselves. They are libraries or calls of the operating system and
  have no state of their own.
\<close>

section \<open>The engine over time\<close>

text \<open>C1: In every reachable state the sessions table and the memory agree on the running
  session: with a game there is exactly one open row, of this session and this accounting day,
  whose stored duration is at most the one in memory; without a game there is no open row.\<close>

theorem reachable_one_session:
  assumes "reachable e"
  shows "case session_id e of
      None \<Rightarrow> current_game e = None \<and> session_duration e = 0 \<and> filter is_open (sessions (storage e)) = []
    | Some i \<Rightarrow> current_game e \<noteq> None \<and> (\<exists>r. filter is_open (sessions (storage e)) = [r] \<and> s_id r = i
        \<and> s_day_key r = day_key e \<and> 0 \<le> s_duration r \<and> s_duration r \<le> session_duration e)"
  by (rule inv_one_session [OF reachable_inv [OF assms]])

theorem reachable_one_session_demo:
  "case session_id demo_engine of
      None \<Rightarrow> current_game demo_engine = None \<and> session_duration demo_engine = 0
        \<and> filter is_open (sessions (storage demo_engine)) = []
    | Some i \<Rightarrow> current_game demo_engine \<noteq> None \<and> (\<exists>r. filter is_open (sessions (storage demo_engine)) = [r]
        \<and> s_id r = i \<and> s_day_key r = day_key demo_engine \<and> 0 \<le> s_duration r
        \<and> s_duration r \<le> session_duration demo_engine)"
  by (rule reachable_one_session [OF demo_engine_reachable])

text \<open>C2: In every reachable state the play time the tables hold for the accounting day never
  exceeds the time the engine charges against the limit, and neither is negative.\<close>

theorem reachable_usage_covered:
  assumes "reachable e"
  shows "0 \<le> usage_for_day (day_key e) (storage e) \<and> usage_for_day (day_key e) (storage e) \<le> played_today e"
  by (rule inv_usage_covered [OF reachable_inv [OF assms]])

theorem reachable_usage_covered_demo:
  "usage_for_day (day_key demo_engine) (storage demo_engine) \<le> played_today demo_engine"
  using reachable_usage_covered [OF demo_engine_reachable] ..

text \<open>C3: The session timer is always well formed: at most a day remains, an expired timer has
  nothing left, a running or paused one has time left and a generation, an idle one is the
  blank timer, and the stored timer differs at most by holding more remaining time.\<close>

theorem reachable_timer:
  assumes "reachable e"
  shows "0 \<le> t_remaining (timer e) \<and> t_remaining (timer e) \<le> 86400
    \<and> (case t_state (timer e) of IDLE \<Rightarrow> timer e = idle_timer | EXPIRED \<Rightarrow> t_remaining (timer e) = 0
       | _ \<Rightarrow> 0 < t_remaining (timer e) \<and> truthy (t_generation (timer e)))
    \<and> (\<exists>x \<ge> t_remaining (timer e). load_timer (storage e) = (timer e)\<lparr>t_remaining := x\<rparr>)"
  by (rule inv_timer [OF reachable_inv [OF assms]])

theorem reachable_timer_demo:
  "0 \<le> t_remaining (timer demo_engine) \<and> t_remaining (timer demo_engine) \<le> 86400"
  using reachable_timer [OF demo_engine_reachable] by simp

text \<open>C4: A restart on the tables of any reachable state succeeds: the interrupted session is
  closed, the day's total is what the tables held, the timer keeps at least its remaining time
  and is never left running.\<close>

theorem restart_recovers:
  assumes "reachable e" and "wf_config c"
  shows "\<exists>e'. new_engine (storage e) c k = (Inr (), e') \<and> current_game e' = None
    \<and> filter is_open (sessions (storage e')) = [] \<and> day_key e' = compute_day_key e'
    \<and> played_today e' = usage_for_day (day_key e') (storage e)
    \<and> t_state (timer e') \<noteq> RUNNING \<and> t_remaining (timer e) \<le> t_remaining (timer e')"
proof -
  note inv = reachable_inv [OF assms(1)]
  then have d: "db_inv (storage e)" by (simp add: eng_inv_def)
  obtain e' where e': "new_engine (storage e) c k = (Inr (), e')" "starting (storage e) c k e'"
    "t_state (timer e') \<noteq> RUNNING"
    using new_engine_inv [OF d assms(2) stored_timer_ok [OF inv]] by blast
  have "session_ok e'" "current_game e' = None" using e'(2) by (simp_all add: starting_def eng_inv_def)
  then have "session_id e' = None" by (cases "session_id e'") (auto simp: session_ok_def)
  with \<open>session_ok e'\<close> have "filter is_open (sessions (storage e')) = []"
    by (simp add: session_ok_def current_session_def open_row_None)
  moreover have "t_remaining (timer e) \<le> t_remaining (load_timer (storage e))"
    using inv by (auto simp: eng_inv_def timer_saved_def)
  ultimately show ?thesis using e' by (auto simp: starting_def eng_inv_def)
qed

theorem restart_recovers_demo:
  "\<exists>e'. new_engine (storage demo_engine) demo_config demo_clock = (Inr (), e') \<and> current_game e' = None
    \<and> t_state (timer e') \<noteq> RUNNING"
  using restart_recovers [OF demo_engine_reachable demo_config_ok, of demo_clock] by blast

section \<open>The tick\<close>

text \<open>C5: From a state in which the bucket layer accepts the pending seconds, a tick never
  raises, and leaves such a state.\<close>

theorem tick_returns:
  assumes "ready e"
  shows "\<exists>evs e'. tick e = (Inr evs, e') \<and> ready e'"
  using wp_returns [OF surelyD [OF sure_tick assms]] .

theorem tick_returns_demo: "\<exists>evs e'. tick demo_playing = (Inr evs, e') \<and> ready e'"
  by (rule tick_returns [OF demo_playing_ready])

text \<open>C6: Within one accounting day a tick charges exactly the monotonic time since the last tick
  to the day and to the session while a game is running and the machine is awake, nothing
  otherwise, and changes neither the game nor the day.\<close>

theorem tick_charges_active_time:
  assumes "compute_day_key e = day_key e" and "tick e = (Inr evs, e')"
  shows "played_today e' = played_today e + active_seconds e
    \<and> session_duration e' = session_duration e + active_seconds e
    \<and> day_key e' = day_key e \<and> current_game e' = current_game e \<and> session_id e' = session_id e
    \<and> last_tick_mono e' = monotonic e \<and> last_tick_wall e' = now_utc e"
  using tick_charges [OF assms(1)] assms(2) by (simp add: wp_def usage_view_def settled_view_def)

theorem tick_charges_active_time_demo:
  "\<exists>evs e'. tick demo_playing = (Inr evs, e') \<and> played_today e' = 10 \<and> session_duration e' = 10"
proof -
  obtain evs e' where run: "tick demo_playing = (Inr evs, e')"
    using wp_returns [OF surelyD [OF sure_tick demo_playing_ready]] by blast
  have day: "compute_day_key demo_playing = day_key demo_playing" by (simp add: demo_playing_fields)
  show ?thesis
    using run tick_charges_active_time [OF day run] by (simp add: active_seconds_def demo_playing_fields)
qed

text \<open>A tick runs the timer down by the elapsed monotonic time, not below zero and only while
  it is running, the machine is awake and the time counts, and expires it at zero.\<close>

theorem tick_timer_countdown:
  assumes "tick e = (Inr evs, e')"
  shows "let elapsed = max 0 (monotonic e - last_tick_mono e); left = max 0 (t_remaining (timer e) - elapsed) in
    if t_state (timer e) = RUNNING \<and> \<not> suspended e \<and> (c_count_only_while_playing (cfg e) \<longrightarrow> current_game e \<noteq> None)
    then t_remaining (timer e') = left \<and> t_state (timer e') = (if left = 0 then EXPIRED else RUNNING)
      \<and> t_generation (timer e') = t_generation (timer e)
    else t_remaining (timer e') = t_remaining (timer e) \<and> t_state (timer e') = t_state (timer e)
      \<and> t_generation (timer e') = t_generation (timer e)"
proof -
  have "timer_core (timer e') = timer_core (ticked_timer e)"
    using tick_runs_timer [of e] assms by (simp add: wp_def)
  then have "t_remaining (timer e') = t_remaining (ticked_timer e)" "t_state (timer e') = t_state (ticked_timer e)"
    "t_generation (timer e') = t_generation (ticked_timer e)"
    using timer_core_fields by blast+
  then show ?thesis by (auto simp: ticked_timer_def timer_counts_def Let_def)
qed

theorem tick_timer_countdown_demo:
  "\<exists>evs e'. tick demo_playing = (Inr evs, e') \<and> t_state (timer e') = IDLE"
proof -
  obtain evs e' where run: "tick demo_playing = (Inr evs, e')"
    using wp_returns [OF surelyD [OF sure_tick demo_playing_ready]] by blast
  show ?thesis using run tick_timer_countdown [OF run] by (simp add: demo_playing_fields idle_timer_def)
qed



text \<open>C8: A second tick at the same clock reading is silent: it emits no event and charges nothing,
  whatever the first one did.\<close>

theorem second_tick_is_silent:
  assumes "reachable e" and "tick e = (Inr evs, e1)" and "tick e1 = (Inr evs', e2)"
  shows "evs' = [] \<and> played_today e2 = played_today e1 \<and> session_duration e2 = session_duration e1
    \<and> day_key e2 = day_key e1 \<and> t_remaining (timer e2) = t_remaining (timer e1) \<and> t_state (timer e2) = t_state (timer e1)"
proof -
  have inv: "eng_inv False e1" using holds_run [OF keeps_tick reachable_inv [OF assms(1)] assms(2)] .
  have "settled e1" using tick_settles [of e] assms(2) by (simp add: wp_def)
  from second_tick [OF inv this] have "evs' = []" "usage_view e2 = usage_view e1"
    "timer_core (timer e2) = timer_core (timer e1)"
    using assms(3) by (simp_all add: wp_def)
  moreover from this(3) have "t_remaining (timer e2) = t_remaining (timer e1) \<and> t_state (timer e2) = t_state (timer e1)
      \<and> t_generation (timer e2) = t_generation (timer e1)"
    by (rule timer_core_fields)
  ultimately show ?thesis by (simp add: usage_view_def)
qed

theorem second_tick_is_silent_demo:
  "\<exists>evs e1 e2. tick demo_engine = (Inr evs, e1) \<and> tick e1 = (Inr [], e2)"
proof -
  obtain evs e1 where run: "tick demo_engine = (Inr evs, e1)" "ready e1"
    using wp_returns [OF surelyD [OF sure_tick demo_engine_ready]] by blast
  obtain evs' e2 where again: "tick e1 = (Inr evs', e2)"
    using wp_returns [OF surelyD [OF sure_tick run(2)]] by blast
  show ?thesis using run again second_tick_is_silent [OF demo_engine_reachable run(1) again] by blast
qed

text \<open>A resume while the engine is not suspended, on the same accounting day, emits nothing
  and moves the baseline of the next tick to now: the play time since the last tick is dropped.\<close>

theorem spurious_resume_drops_time:
  assumes "\<not> suspended e" and "compute_day_key e = day_key e"
  shows "\<exists>e'. resume source e = (Inr [], e') \<and> played_today e' = played_today e \<and> active_seconds e' = 0"
  using assms
  by (simp add: resume_def thenP_def modify_def bindP_def gets_def ret_def active_seconds_def monotonic_def
      compute_day_key_def now_utc_def)

theorem spurious_resume_drops_time_demo:
  "active_seconds demo_playing = 10
    \<and> (\<exists>e'. resume ''decky'' demo_playing = (Inr [], e') \<and> played_today e' = 0 \<and> active_seconds e' = 0)"
  using spurious_resume_drops_time [of demo_playing "''decky''"]
  by (simp add: demo_playing_fields active_seconds_def)

end
